(* ===== verification/PeerChat_Prelude.thy ===== *)
theory PeerChat_Prelude
  imports Complex_Main "HOL-Library.AList" "HOL-Library.Multiset"
begin

text \<open>
  Shared vocabulary of the development: Python dictionaries as association lists in
  insertion order, the string operations the sources use on ``host:port'' addresses
  (\<open>f"{host}:{port}"\<close>, \<open>rsplit(":", 1)\<close>, \<open>int(...)\<close>), time stamps, and the
  generic interfaces (transition systems with an invariant, duplicate filters) that
  several components implement.

  Python floats are modelled by the rationals they denote (every finite float is a
  rational); rounding of float arithmetic is not modelled.
\<close>

section \<open>Collections of facts\<close>

named_theorems dict_simps \<open>lookup and key facts of dictionaries\<close>

named_theorems clock_simps \<open>pointwise facts of vector clocks\<close>

section \<open>Types shared by the components\<close>

type_synonym time = rat

type_synonym addr = "string \<times> int"

type_synonym ('k, 'v) dict = "('k \<times> 'v) list"

section \<open>Python dictionaries\<close>

text \<open>
  A dictionary keeps its keys in insertion order; assigning to an existing key keeps its
  place, a new key goes to the end. That is \<^const>\<open>AList.update\<close>; \<open>d.pop(k, None)\<close>
  and \<open>del d[k]\<close> are \<^const>\<open>AList.delete\<close>.
\<close>

abbreviation dict_set :: "'k \<Rightarrow> 'v \<Rightarrow> ('k, 'v) dict \<Rightarrow> ('k, 'v) dict" where
  "dict_set \<equiv> AList.update"

abbreviation dict_pop :: "'k \<Rightarrow> ('k, 'v) dict \<Rightarrow> ('k, 'v) dict" where
  "dict_pop \<equiv> AList.delete"

abbreviation dict_keys :: "('k, 'v) dict \<Rightarrow> 'k list" where
  "dict_keys \<equiv> map fst"

abbreviation dict_values :: "('k, 'v) dict \<Rightarrow> 'v list" where
  "dict_values \<equiv> map snd"

abbreviation wf_dict :: "('k, 'v) dict \<Rightarrow> bool" where
  "wf_dict d \<equiv> distinct (dict_keys d)"

text \<open>\<open>d.get(k, x)\<close>.\<close>

definition get_or :: "('k, 'v) dict \<Rightarrow> 'k \<Rightarrow> 'v \<Rightarrow> 'v" where
  "get_or d k x = (case map_of d k of None \<Rightarrow> x | Some v \<Rightarrow> v)"

lemma get_or_Nil [simp]: "get_or [] k x = x"
  by (simp add: get_or_def)

lemma get_or_Cons [simp]: "get_or ((a, b) # d) k x = (if a = k then b else get_or d k x)"
  by (simp add: get_or_def)

lemma get_or_set [simp, dict_simps]:
  "get_or (dict_set a b d) k x = (if k = a then b else get_or d k x)"
  by (simp add: get_or_def update_conv')

lemma map_of_dict_set [dict_simps]:
  "map_of (dict_set a b d) k = (if k = a then Some b else map_of d k)"
  by (simp add: update_conv')

lemma map_of_dict_pop [dict_simps]:
  "map_of (dict_pop a d) k = (if k = a then None else map_of d k)"
  by (simp add: delete_conv')

lemma get_or_pop [simp, dict_simps]:
  "get_or (dict_pop a d) k x = (if k = a then x else get_or d k x)"
  by (simp add: get_or_def delete_conv')

lemma wf_dict_set [simp, intro]: "wf_dict d \<Longrightarrow> wf_dict (dict_set k v d)"
  by (rule distinct_update)

lemma wf_dict_pop [simp, intro]: "wf_dict d \<Longrightarrow> wf_dict (dict_pop k d)"
  by (rule distinct_delete)

lemma keys_dict_set [simp]: "set (dict_keys (dict_set k v d)) = insert k (set (dict_keys d))"
  using dom_update[of k v d] by (simp add: dom_map_of_conv_image_fst)

lemma keys_dict_pop [simp]: "set (dict_keys (dict_pop k d)) = set (dict_keys d) - {k}"
  by (simp only: delete_keys set_removeAll)

lemma map_of_in_keys: "map_of d k = Some v \<Longrightarrow> k \<in> set (dict_keys d)"
  by (force dest: map_of_SomeD)

lemma dict_set_set_subset: "set (dict_set k v d) \<subseteq> insert (k, v) (set d)"
  by (induction d) auto

lemma dict_pop_set_subset: "set (dict_pop k d) \<subseteq> set d"
  by (induction d) auto

lemma get_or_not_key: "k \<notin> set (dict_keys d) \<Longrightarrow> get_or d k x = x"
  by (induction d) auto

lemma get_or_key: "wf_dict d \<Longrightarrow> (k, v) \<in> set d \<Longrightarrow> get_or d k x = v"
  by (simp add: get_or_def)

lemma keys_update_new:
  "k \<notin> set (dict_keys d) \<Longrightarrow> dict_set k v d = d @ [(k, v)]"
  by (induction d) auto

section \<open>Strings and addresses\<close>

definition is_digit :: "char \<Rightarrow> bool" where
  "is_digit c = (48 \<le> (of_char c :: nat) \<and> (of_char c :: nat) \<le> 57)"

definition digit_val :: "char \<Rightarrow> nat" where
  "digit_val c = (of_char c :: nat) - 48"

definition digit_char :: "nat \<Rightarrow> char" where
  "digit_char d = char_of (48 + d)"

lemma digit_char_is_digit [simp]: "d < 10 \<Longrightarrow> is_digit (digit_char d)"
  by (simp add: is_digit_def digit_char_def)

lemma digit_val_char [simp]: "d < 10 \<Longrightarrow> digit_val (digit_char d) = d"
  by (simp add: digit_val_def digit_char_def)

text \<open>\<open>s.startswith(p)\<close> with \<open>s[len(p):]\<close>, and the same at the end.\<close>

definition strip_prefix :: "string \<Rightarrow> string \<Rightarrow> string option" where
  "strip_prefix p s = (if take (length p) s = p then Some (drop (length p) s) else None)"

definition strip_suffix :: "string \<Rightarrow> string \<Rightarrow> string option" where
  "strip_suffix p s = map_option rev (strip_prefix (rev p) (rev s))"

lemma strip_prefix_append [simp]: "strip_prefix p (p @ s) = Some s"
  by (simp add: strip_prefix_def)

lemma strip_suffix_append [simp]: "strip_suffix p (s @ p) = Some s"
  by (simp add: strip_suffix_def)

lemma strip_prefix_Some: "strip_prefix p s = Some r \<longleftrightarrow> s = p @ r"
  by (auto simp: strip_prefix_def) (metis append_take_drop_id)

lemma strip_suffix_Some: "strip_suffix p s = Some r \<longleftrightarrow> s = r @ p"
  by (auto simp: strip_suffix_def strip_prefix_Some) (metis rev_append rev_rev_ident)

text \<open>\<open>str(n)\<close> for an integer.\<close>

fun nat_str :: "nat \<Rightarrow> string" where
  "nat_str n = (if n < 10 then [digit_char n] else nat_str (n div 10) @ [digit_char (n mod 10)])"

declare nat_str.simps [simp del]

definition int_str :: "int \<Rightarrow> string" where
  "int_str i = (if i < 0 then CHR ''-'' # nat_str (nat (- i)) else nat_str (nat i))"

text \<open>The address string \<open>f"{host}:{port}"\<close>.\<close>

definition addr_str :: "addr \<Rightarrow> string" where
  "addr_str hp = fst hp @ CHR '':'' # int_str (snd hp)"

text \<open>\<open>s.rsplit(":", 1)\<close> unpacked into two names; \<open>None\<close> is the \<open>ValueError\<close> of
  unpacking a single part.\<close>

definition rsplit1 :: "char \<Rightarrow> string \<Rightarrow> (string \<times> string) option" where
  "rsplit1 c s = (case dropWhile (\<lambda>x. x \<noteq> c) (rev s) of
      [] \<Rightarrow> None
    | _ # r \<Rightarrow> Some (rev r, rev (takeWhile (\<lambda>x. x \<noteq> c) (rev s))))"

text \<open>\<open>int(s)\<close> on a string: surrounding white space, an optional sign, digits with single
  underscores between them; \<open>None\<close> is \<open>ValueError\<close>.\<close>

definition is_space :: "char \<Rightarrow> bool" where
  "is_space c = ((of_char c :: nat) \<in> {9, 10, 11, 12, 13, 28, 29, 30, 31, 32, 133, 160})"

definition py_strip :: "string \<Rightarrow> string" where
  "py_strip s = rev (dropWhile is_space (rev (dropWhile is_space s)))"

fun digits_val :: "nat \<Rightarrow> string \<Rightarrow> nat option" where
  "digits_val acc [] = Some acc"
| "digits_val acc (c # cs) =
     (if is_digit c then digits_val (10 * acc + digit_val c) cs
      else if c = CHR ''_'' then
        (case cs of
           [] \<Rightarrow> None
         | d # ds \<Rightarrow> if is_digit d then digits_val (10 * acc + digit_val d) ds else None)
      else None)"

definition py_nat :: "string \<Rightarrow> nat option" where
  "py_nat s = (case s of [] \<Rightarrow> None
     | c # cs \<Rightarrow> if is_digit c then digits_val (digit_val c) cs else None)"

definition py_int :: "string \<Rightarrow> int option" where
  "py_int s = (case py_strip s of
      [] \<Rightarrow> None
    | c # cs \<Rightarrow>
        if c = CHR ''-'' then map_option (\<lambda>n. - int n) (py_nat cs)
        else if c = CHR ''+'' then map_option int (py_nat cs)
        else map_option int (py_nat (c # cs)))"

lemma nat_str_not_Nil [simp]: "nat_str n \<noteq> []"
  by (subst nat_str.simps) simp

lemma nat_str_digits: "c \<in> set (nat_str n) \<Longrightarrow> is_digit c"
proof (induction n rule: nat_str.induct)
  case (1 n)
  then show ?case
    by (subst (asm) (2) nat_str.simps) (auto split: if_splits)
qed

lemma digits_val_append:
  "\<forall>c \<in> set s. is_digit c \<Longrightarrow> digits_val acc (s @ t) =
     (case digits_val acc s of None \<Rightarrow> None | Some v \<Rightarrow> digits_val v t)"
  by (induction s arbitrary: acc) auto

lemma py_nat_append:
  assumes "s \<noteq> []" and "\<forall>c \<in> set s. is_digit c"
  shows "py_nat (s @ t) = (case py_nat s of None \<Rightarrow> None | Some v \<Rightarrow> digits_val v t)"
  using assms by (cases s) (auto simp: py_nat_def digits_val_append)

lemma py_nat_nat_str: "py_nat (nat_str n) = Some n"
proof (induction n rule: nat_str.induct)
  case (1 n)
  show ?case
  proof (cases "n < 10")
    case True
    then show ?thesis by (subst nat_str.simps) (simp add: py_nat_def)
  next
    case False
    have "py_nat (nat_str (n div 10) @ [digit_char (n mod 10)]) =
        digits_val (n div 10) [digit_char (n mod 10)]"
      using "1"[OF False] by (subst py_nat_append) (auto dest: nat_str_digits)
    also have "\<dots> = Some n" by simp
    finally show ?thesis using False by (subst nat_str.simps) simp
  qed
qed

lemma digit_not_space: "is_digit c \<Longrightarrow> \<not> is_space c"
  by (auto simp: is_digit_def is_space_def)

lemma digit_not_colon: "is_digit c \<Longrightarrow> c \<noteq> CHR '':''"
  by (auto simp: is_digit_def)

lemma digit_not_sign: "is_digit c \<Longrightarrow> c \<noteq> CHR ''-'' \<and> c \<noteq> CHR ''+''"
  by (auto simp: is_digit_def)

lemma py_strip_id: "\<forall>c \<in> set s. \<not> is_space c \<Longrightarrow> py_strip s = s"
proof -
  assume a: "\<forall>c \<in> set s. \<not> is_space c"
  then have "dropWhile is_space s = s" by (cases s) auto
  moreover from a have "dropWhile is_space (rev s) = rev s"
    by (cases "rev s") (auto simp: dropWhile_eq_self_iff)
  ultimately show ?thesis by (simp add: py_strip_def)
qed

lemma int_str_chars: "c \<in> set (int_str i) \<Longrightarrow> is_digit c \<or> c = CHR ''-''"
  by (auto simp: int_str_def dest: nat_str_digits split: if_splits)

lemma py_int_int_str [simp]: "py_int (int_str i) = Some i"
proof -
  have "\<forall>c \<in> set (int_str i). \<not> is_space c"
    by (auto dest!: int_str_chars digit_not_space) (simp add: is_space_def)
  then have strip: "py_strip (int_str i) = int_str i" by (rule py_strip_id)
  show ?thesis
  proof (cases "i < 0")
    case True
    then show ?thesis
      using strip by (simp add: py_int_def int_str_def py_nat_nat_str)
  next
    case False
    obtain c cs where cs: "nat_str (nat i) = c # cs"
      by (cases "nat_str (nat i)") auto
    then have "is_digit c" using nat_str_digits[of c "nat i"] by simp
    with False cs strip show ?thesis
      using py_nat_nat_str[of "nat i"]
      by (auto simp: py_int_def int_str_def dest: digit_not_sign)
  qed
qed

lemma rsplit1_last:
  assumes "c \<notin> set t"
  shows "rsplit1 c (s @ c # t) = Some (s, t)"
proof -
  have p: "\<And>x. x \<in> set (rev t) \<Longrightarrow> x \<noteq> c" using assms by auto
  have "dropWhile (\<lambda>x. x \<noteq> c) (rev t @ c # rev s) = c # rev s"
    using p by (subst dropWhile_append2) auto
  moreover have "takeWhile (\<lambda>x. x \<noteq> c) (rev t @ c # rev s) = rev t"
    using p by (subst takeWhile_append2) auto
  ultimately show ?thesis by (simp add: rsplit1_def)
qed

lemma colon_not_in_int_str: "CHR '':'' \<notin> set (int_str i)"
  using digit_not_colon int_str_chars by fastforce

lemma rsplit1_addr_str: "rsplit1 (CHR '':'') (addr_str (h, p)) = Some (h, int_str p)"
  by (simp add: addr_str_def rsplit1_last colon_not_in_int_str)

lemma addr_str_inject [simp]: "addr_str a = addr_str b \<longleftrightarrow> a = b"
proof
  assume "addr_str a = addr_str b"
  then have "Some (fst a, int_str (snd a)) = Some (fst b, int_str (snd b))"
    by (metis prod.collapse rsplit1_addr_str)
  then have "fst a = fst b" and "int_str (snd a) = int_str (snd b)" by auto
  then have "snd a = snd b" by (metis option.inject py_int_int_str)
  with \<open>fst a = fst b\<close> show "a = b" by (simp add: prod_eq_iff)
qed simp

section \<open>Interfaces shared by several components\<close>

subsection \<open>Transition systems and invariants\<close>

locale inv_system =
  fixes step :: "'s \<Rightarrow> 'e \<Rightarrow> 's"
    and inv :: "'s \<Rightarrow> bool"
    and ok :: "'e \<Rightarrow> bool"
  assumes inv_step: "inv s \<Longrightarrow> ok e \<Longrightarrow> inv (step s e)"
begin

lemma inv_run: "inv s \<Longrightarrow> \<forall>e \<in> set es. ok e \<Longrightarrow> inv (foldl step s es)"
  by (induction es arbitrary: s) (auto intro: inv_step)

lemma inv_run_prefix:
  "inv s \<Longrightarrow> \<forall>e \<in> set (es @ fs). ok e \<Longrightarrow> inv (foldl step s es)"
  by (rule inv_run) auto

end

subsection \<open>Check-and-mark filters\<close>

text \<open>
  Three components answer ``have I seen this identifier?'' and mark it at the same time:
  \<open>BroadcastNode.deduplicate\<close>, \<open>DuplicateGuard.is_duplicate\<close> and
  \<open>GossipDispatcher._mark_seen\<close>. The first keeps every identifier, the other two
  forget old ones, so there are two contracts.
\<close>

text \<open>The identifiers of a list that a filter lets through, in order.\<close>

primrec accepted :: "('i \<Rightarrow> 's \<Rightarrow> bool \<times> 's) \<Rightarrow> 's \<Rightarrow> 'i list \<Rightarrow> 'i list" where
  "accepted chk s [] = []"
| "accepted chk s (i # is) =
     (if fst (chk i s) then i # accepted chk (snd (chk i s)) is
      else accepted chk (snd (chk i s)) is)"

locale dedup_filter =
  fixes check :: "'i \<Rightarrow> 's \<Rightarrow> bool \<times> 's"
    and seen :: "'s \<Rightarrow> 'i set"
    and wf :: "'s \<Rightarrow> bool"
  assumes check_fresh: "fst (check i s) \<longleftrightarrow> i \<notin> seen s"
    and check_marks: "wf s \<Longrightarrow> i \<in> seen (snd (check i s))"
    and check_only: "seen (snd (check i s)) \<subseteq> insert i (seen s)"
    and check_wf: "wf s \<Longrightarrow> wf (snd (check i s))"
begin

lemma check_twice: "wf s \<Longrightarrow> \<not> fst (check i (snd (check i s)))"
  by (simp add: check_fresh check_marks)

end

locale exact_dedup = dedup_filter +
  assumes check_keeps: "seen s \<subseteq> seen (snd (check i s))"
begin

lemma accepted_fresh: "i \<in> set (accepted check s is) \<Longrightarrow> i \<notin> seen s"
proof (induction "is" arbitrary: s)
  case (Cons j js)
  then show ?case
    using check_keeps[of s j] by (auto simp: check_fresh split: if_splits)
qed simp

lemma distinct_accepted: "wf s \<Longrightarrow> distinct (accepted check s is)"
proof (induction "is" arbitrary: s)
  case (Cons j js)
  then show ?case
    using accepted_fresh[of j "snd (check j s)" js] by (auto simp: check_wf check_marks)
qed simp

lemma set_accepted: "wf s \<Longrightarrow> set (accepted check s is) = set is - seen s"
proof (induction "is" arbitrary: s)
  case (Cons j js)
  have "seen (snd (check j s)) = insert j (seen s)"
    using check_only[of j s] check_keeps[of s j] check_marks[OF Cons.prems, of j] by auto
  with Cons show ?case by (auto simp: check_fresh check_wf)
qed simp

end

end
