(* ===== verification/Vector_Clock.thy ===== *)
theory Vector_Clock
  imports PeerChat_Prelude "HOL-Library.Sublist"
begin

text \<open>
  The causal layer: the message dataclass (\<open>distribution/message.py\<close>), the vector clock
  and the hold-back queue (\<open>distribution/vector_clock.py\<close>). A clock is the dictionary
  \<open>_clock\<close>; methods that mutate it return the new dictionary. \<open>time.monotonic()\<close> is an
  argument \<open>now\<close>, read once per call as in the source.

  Shown here: merge is the pointwise maximum; a ready message moves exactly its sender's
  entry by one; draining terminates, loses and duplicates nothing, leaves nothing ready or
  overdue behind, and releases in causal order whatever is not released by the timeout.
\<close>

section \<open>Messages\<close>

type_synonym clock = "(string, int) dict"

record message =
  msg_content :: string
  msg_sender :: string
  msg_id :: string
  msg_timestamp :: time
  msg_signature :: string
  msg_ttl :: int
  msg_vector_clock :: clock

section \<open>Vector clocks\<close>

abbreviation vc_get :: "clock \<Rightarrow> string \<Rightarrow> int" where
  "vc_get c n \<equiv> get_or c n 0"

definition increment :: "clock \<Rightarrow> string \<Rightarrow> clock" where
  "increment c node_id = dict_set node_id (vc_get c node_id + 1) c"

fun merge :: "clock \<Rightarrow> clock \<Rightarrow> clock" where
  "merge c [] = c"
| "merge c ((node, cnt) # other) =
     merge (dict_set node (max (vc_get c node) cnt) c) other"

definition snapshot :: "clock \<Rightarrow> clock" where
  "snapshot c = c"

definition is_ready :: "clock \<Rightarrow> message \<Rightarrow> bool" where
  "is_ready c msg =
     (let vc = msg_vector_clock msg in
      if vc = [] then True
      else
        let sender = msg_sender msg in
        if vc_get vc sender \<noteq> vc_get c sender + 1 then False
        else list_all (\<lambda>(node, cnt). cnt \<le> vc_get c node)
               (filter (\<lambda>(node, cnt). node \<noteq> sender) vc))"

section \<open>The hold-back queue\<close>

definition HOLDBACK_TIMEOUT :: time where
  "HOLDBACK_TIMEOUT = 5"

record holdback =
  hb_queue :: "(time \<times> message) list"
  hb_timeout :: time

definition new_holdback :: holdback where
  "new_holdback = \<lparr>hb_queue = [], hb_timeout = HOLDBACK_TIMEOUT\<rparr>"

definition hb_add :: "time \<Rightarrow> message \<Rightarrow> holdback \<Rightarrow> holdback" where
  "hb_add now msg q = q\<lparr>hb_queue := hb_queue q @ [(now, msg)]\<rparr>"

text \<open>The first loop of \<open>drain\<close>: release what waited longer than the timeout.\<close>

fun flush_expired ::
  "time \<Rightarrow> time \<Rightarrow> clock \<Rightarrow> (time \<times> message) list \<Rightarrow> clock \<times> message list \<times> (time \<times> message) list" where
  "flush_expired timeout now vc [] = (vc, [], [])"
| "flush_expired timeout now vc ((enqueued_at, msg) # q) =
     (if now - enqueued_at > timeout then
        let (vc', dl, sw) = flush_expired timeout now (merge vc (msg_vector_clock msg)) q
        in (vc', msg # dl, sw)
      else
        let (vc', dl, sw) = flush_expired timeout now vc q
        in (vc', dl, (enqueued_at, msg) # sw))"

text \<open>One pass of the \<open>while changed\<close> loop over the queue.\<close>

fun drain_pass ::
  "clock \<Rightarrow> (time \<times> message) list \<Rightarrow> clock \<times> message list \<times> (time \<times> message) list" where
  "drain_pass vc [] = (vc, [], [])"
| "drain_pass vc ((enqueued_at, msg) # q) =
     (if is_ready vc msg then
        let (vc', dl, rem) = drain_pass (merge vc (msg_vector_clock msg)) q
        in (vc', msg # dl, rem)
      else
        let (vc', dl, rem) = drain_pass vc q
        in (vc', dl, (enqueued_at, msg) # rem))"

lemma drain_pass_length:
  "drain_pass vc q = (vc', dl, rem) \<Longrightarrow> length q = length dl + length rem"
  by (induction vc q arbitrary: vc' dl rem rule: drain_pass.induct)
    (auto split: if_splits prod.splits)

text \<open>The loop itself: passes are repeated as long as one released something
  (\<open>changed\<close>).\<close>

function drain_loop ::
  "clock \<Rightarrow> (time \<times> message) list \<Rightarrow> clock \<times> message list \<times> (time \<times> message) list" where
  "drain_loop vc q =
     (let (vc', dl, rem) = drain_pass vc q in
      if dl = [] then (vc', [], rem)
      else let (vc'', dl', rem') = drain_loop vc' rem in (vc'', dl @ dl', rem'))"
  by pat_completeness auto
termination
proof (relation "measure (\<lambda>(vc, q). length q)")
  fix vc :: clock and q p vc' r dl rem
  assume "p = drain_pass vc q" "(vc', r) = p" "(dl, rem) = r" "dl \<noteq> []"
  then have "drain_pass vc q = (vc', dl, rem)" by simp
  then have "length q = length dl + length rem" by (rule drain_pass_length)
  with \<open>dl \<noteq> []\<close> show "((vc', rem), vc, q) \<in> measure (\<lambda>(vc, q). length q)" by simp
qed simp

declare drain_loop.simps [simp del]

definition drain :: "time \<Rightarrow> clock \<Rightarrow> holdback \<Rightarrow> clock \<times> message list \<times> holdback" where
  "drain now vc q =
     (let (vc1, dl1, sw) = flush_expired (hb_timeout q) now vc (hb_queue q);
          (vc2, dl2, rem) = drain_loop vc1 sw
      in (vc2, dl1 @ dl2, q\<lparr>hb_queue := rem\<rparr>))"

section \<open>Clock lemmas\<close>

text \<open>A well-formed clock counts messages: keys are distinct and counts are not negative.\<close>

definition wf_clock :: "clock \<Rightarrow> bool" where
  "wf_clock c = (wf_dict c \<and> (\<forall>n. 0 \<le> vc_get c n))"

lemma wf_clock_Nil [simp]: "wf_clock []"
  by (simp add: wf_clock_def)

lemma wf_clockD: "wf_clock c \<Longrightarrow> wf_dict c" and wf_clock_nonneg: "wf_clock c \<Longrightarrow> 0 \<le> vc_get c n"
  by (auto simp: wf_clock_def)

lemma vc_get_increment [simp, clock_simps]:
  "vc_get (increment c n) k = (if k = n then vc_get c n + 1 else vc_get c k)"
  by (simp add: increment_def)

lemma wf_clock_increment [simp, intro]: "wf_clock c \<Longrightarrow> wf_clock (increment c n)"
  by (auto simp: wf_clock_def increment_def)

lemma vc_get_merge [clock_simps]:
  assumes "wf_dict d"
  shows "vc_get (merge c d) n =
    (if n \<in> set (dict_keys d) then max (vc_get c n) (vc_get d n) else vc_get c n)"
  using assms
proof (induction c d rule: merge.induct)
  case (2 c node cnt other)
  then show ?case by (auto simp: image_iff get_or_not_key)
qed simp

lemma wf_dict_merge [simp, intro]: "wf_dict c \<Longrightarrow> wf_dict (merge c d)"
  by (induction c d rule: merge.induct) auto

lemma merge_mono: "vc_get c n \<le> vc_get (merge c d) n"
proof (induction c d rule: merge.induct)
  case (2 c node cnt other)
  then show ?case by (simp split: if_splits)
qed simp

lemma merge_mono_right: "0 < vc_get d k \<Longrightarrow> vc_get d k \<le> vc_get (merge c d) k"
proof (induction c d rule: merge.induct)
  case (2 c node cnt other)
  then show ?case
    using merge_mono[of "dict_set node (max (vc_get c node) cnt) c" node other] by (auto split: if_splits)
qed simp

lemma wf_clock_merge [simp, intro]: "wf_clock c \<Longrightarrow> wf_clock (merge c d)"
  using merge_mono[of c _ d] by (auto simp: wf_clock_def intro: order_trans)

lemma merge_pointwise_max:
  assumes "wf_clock c" "wf_clock d"
  shows "vc_get (merge c d) n = max (vc_get c n) (vc_get d n)"
  using assms wf_clock_nonneg[of c n]
  by (auto simp: vc_get_merge wf_clockD get_or_not_key)

text \<open>Two clocks that agree on every lookup are interchangeable for readiness.\<close>

definition clock_eq :: "clock \<Rightarrow> clock \<Rightarrow> bool" where
  "clock_eq c d = (\<forall>n. vc_get c n = vc_get d n)"

lemma is_ready_cong: "clock_eq c d \<Longrightarrow> is_ready c m = is_ready d m"
  by (simp add: is_ready_def clock_eq_def)

text \<open>The readiness test restated on lookups.\<close>

lemma is_ready_iff:
  assumes "wf_clock c" "wf_clock (msg_vector_clock m)" "msg_vector_clock m \<noteq> []"
  shows "is_ready c m \<longleftrightarrow>
     vc_get (msg_vector_clock m) (msg_sender m) = vc_get c (msg_sender m) + 1 \<and>
     (\<forall>n. n \<noteq> msg_sender m \<longrightarrow> vc_get (msg_vector_clock m) n \<le> vc_get c n)"
proof -
  let ?v = "msg_vector_clock m" and ?s = "msg_sender m"
  have "list_all (\<lambda>(node, cnt). cnt \<le> vc_get c node) (filter (\<lambda>(node, cnt). node \<noteq> ?s) ?v)
      \<longleftrightarrow> (\<forall>n. n \<noteq> ?s \<longrightarrow> vc_get ?v n \<le> vc_get c n)" (is "?L \<longleftrightarrow> ?R")
  proof
    assume L: ?L
    show ?R
    proof (intro allI impI)
      fix n assume n: "n \<noteq> ?s"
      show "vc_get ?v n \<le> vc_get c n"
      proof (cases "n \<in> set (dict_keys ?v)")
        case True
        then obtain k where k: "(n, k) \<in> set ?v" by auto
        with L n have "k \<le> vc_get c n" by (auto simp: list_all_iff)
        with k show ?thesis using assms(2) by (simp add: get_or_key wf_clockD)
      next
        case False
        then show ?thesis using assms(1) by (simp add: get_or_not_key wf_clock_nonneg)
      qed
    qed
  next
    assume ?R
    then show ?L
      using get_or_key[OF wf_clockD[OF assms(2)]] by (fastforce simp: list_all_iff)
  qed
  then show ?thesis using assms(3) by (simp add: is_ready_def Let_def)
qed

lemma ready_sender_known:
  assumes "wf_clock c" "is_ready c m" "msg_vector_clock m \<noteq> []"
  shows "msg_sender m \<in> set (dict_keys (msg_vector_clock m))"
proof (rule ccontr)
  assume "msg_sender m \<notin> set (dict_keys (msg_vector_clock m))"
  then have "vc_get (msg_vector_clock m) (msg_sender m) = 0" by (rule get_or_not_key)
  with assms(2,3) have "vc_get c (msg_sender m) = - 1"
    by (auto simp: is_ready_def Let_def split: if_splits)
  with wf_clock_nonneg[OF assms(1), of "msg_sender m"] show False by simp
qed

text \<open>Delivering a ready message with a clock advances its sender by one and nothing else.\<close>

lemma merge_ready:
  assumes "wf_clock c" "wf_clock (msg_vector_clock m)" "msg_vector_clock m \<noteq> []" "is_ready c m"
  shows "vc_get (merge c (msg_vector_clock m)) n =
    (if n = msg_sender m then vc_get c n + 1 else vc_get c n)"
  using assms is_ready_iff[OF assms(1-3)]
  by (auto simp: merge_pointwise_max max_def)

section \<open>Causal sequences\<close>

text \<open>
  The abstract specification of delivery: replaying a sequence of messages merges their
  clocks one after the other, and the sequence is causal when every message is ready at the
  moment its turn comes.
\<close>

definition deliver :: "clock \<Rightarrow> message \<Rightarrow> clock" where
  "deliver c m = merge c (msg_vector_clock m)"

abbreviation replay :: "clock \<Rightarrow> message list \<Rightarrow> clock" where
  "replay \<equiv> foldl deliver"

fun causal_run :: "clock \<Rightarrow> message list \<Rightarrow> bool" where
  "causal_run c [] = True"
| "causal_run c (m # ms) = (is_ready c m \<and> causal_run (deliver c m) ms)"

text \<open>A message whose clock is a genuine, non-empty vector clock.\<close>

definition stamped :: "message \<Rightarrow> bool" where
  "stamped m = (wf_clock (msg_vector_clock m) \<and> msg_vector_clock m \<noteq> [])"

abbreviation msg_seq :: "message \<Rightarrow> int" where
  "msg_seq m \<equiv> vc_get (msg_vector_clock m) (msg_sender m)"

abbreviation from_sender :: "string \<Rightarrow> message list \<Rightarrow> message list" where
  "from_sender s \<equiv> filter (\<lambda>m. msg_sender m = s)"

lemma causal_run_append:
  "causal_run c (xs @ ys) \<longleftrightarrow> causal_run c xs \<and> causal_run (replay c xs) ys"
  by (induction xs arbitrary: c) auto

lemma wf_clock_deliver [simp, intro]: "wf_clock c \<Longrightarrow> wf_clock (deliver c m)"
  by (simp add: deliver_def wf_clock_merge)

lemma wf_clock_replay [simp, intro]: "wf_clock c \<Longrightarrow> wf_clock (replay c ms)"
  by (induction ms arbitrary: c) auto

lemma replay_mono: "vc_get c n \<le> vc_get (replay c ms) n"
proof (induction ms arbitrary: c)
  case (Cons m ms)
  have "vc_get c n \<le> vc_get (deliver c m) n" by (simp add: deliver_def merge_mono)
  also have "\<dots> \<le> vc_get (replay (deliver c m) ms) n" by (rule Cons.IH)
  finally show ?case by simp
qed simp

lemma deliver_ready:
  assumes "wf_clock c" "stamped m" "is_ready c m"
  shows "vc_get (deliver c m) n = (if n = msg_sender m then vc_get c n + 1 else vc_get c n)"
  using assms by (simp add: deliver_def stamped_def merge_ready)

lemma ready_seq:
  assumes "stamped m" "is_ready c m"
  shows "msg_seq m = vc_get c (msg_sender m) + 1"
  using assms by (auto simp: is_ready_def stamped_def Let_def split: if_splits)

text \<open>A causal sequence delivers each sender's messages in sequence, without gaps, and the
  clock counts them.\<close>

lemma causal_run_seqs:
  assumes "wf_clock c" "causal_run c ms" "\<forall>m \<in> set ms. stamped m"
  shows "map msg_seq (from_sender s ms) =
      map (\<lambda>i. vc_get c s + 1 + int i) [0..<length (from_sender s ms)]"
    and "vc_get (replay c ms) s = vc_get c s + int (length (from_sender s ms))"
proof -
  have "map msg_seq (from_sender s ms) =
      map (\<lambda>i. vc_get c s + 1 + int i) [0..<length (from_sender s ms)] \<and>
     vc_get (replay c ms) s = vc_get c s + int (length (from_sender s ms))"
    using assms
  proof (induction ms arbitrary: c)
    case (Cons m ms)
    then have r: "is_ready c m" and st: "stamped m" by auto
    note d = deliver_ready[OF Cons.prems(1) st r]
    have IH: "map msg_seq (from_sender s ms) =
        map (\<lambda>i. vc_get (deliver c m) s + 1 + int i) [0..<length (from_sender s ms)] \<and>
       vc_get (replay (deliver c m) ms) s = vc_get (deliver c m) s + int (length (from_sender s ms))"
      by (rule Cons.IH) (use Cons.prems in auto)
    show ?case
    proof (cases "msg_sender m = s")
      case True
      then have "map (\<lambda>i. vc_get (deliver c m) s + 1 + int i) [0..<length (from_sender s ms)] =
          map (\<lambda>i. vc_get c s + 1 + int i) [1..<Suc (length (from_sender s ms))]"
        by (simp add: d map_Suc_upt[symmetric] comp_def del: upt_Suc)
      with IH True show ?thesis
        using ready_seq[OF st r] by (simp add: d upt_conv_Cons del: upt_Suc)
    next
      case False
      with IH show ?thesis by (simp add: d)
    qed
  qed simp
  then show "map msg_seq (from_sender s ms) =
      map (\<lambda>i. vc_get c s + 1 + int i) [0..<length (from_sender s ms)]"
    and "vc_get (replay c ms) s = vc_get c s + int (length (from_sender s ms))" by auto
qed

lemma causal_run_seq_range:
  assumes "wf_clock c" "causal_run c ms" "\<forall>m \<in> set ms. stamped m"
  shows "msg_seq ` set (from_sender s ms) = {vc_get c s <.. vc_get (replay c ms) s}"
proof -
  let ?n = "length (from_sender s ms)"
  have "msg_seq ` set (from_sender s ms) = set (map (\<lambda>i. vc_get c s + 1 + int i) [0..<?n])"
    by (simp only: causal_run_seqs(1)[OF assms, symmetric] set_map)
  also have "\<dots> = {vc_get c s <.. vc_get c s + int ?n}"
  proof -
    have "x \<in> (\<lambda>i. vc_get c s + 1 + int i) ` {0..<?n}"
      if "vc_get c s < x" "x \<le> vc_get c s + int ?n" for x
      using that by (intro image_eqI[of _ _ "nat (x - vc_get c s - 1)"]) auto
    then show ?thesis by auto
  qed
  finally show ?thesis by (simp add: causal_run_seqs(2)[OF assms])
qed

lemma causal_run_distinct:
  assumes "wf_clock c" "causal_run c ms" "\<forall>m \<in> set ms. stamped m"
  shows "distinct (map msg_seq (from_sender s ms))"
  by (simp add: causal_run_seqs(1)[OF assms] distinct_map inj_on_def)

section \<open>Draining the hold-back queue\<close>

lemma flush_expired_eq:
  "flush_expired t now vc q =
     (replay vc (map snd (filter (\<lambda>(e, m). now - e > t) q)),
      map snd (filter (\<lambda>(e, m). now - e > t) q),
      filter (\<lambda>(e, m). \<not> now - e > t) q)"
  by (induction t now vc q rule: flush_expired.induct) (auto simp: deliver_def)

lemma drain_pass_spec:
  "drain_pass vc q = (vc', dl, rem) \<Longrightarrow>
     vc' = replay vc dl \<and> causal_run vc dl \<and> mset (map snd q) = mset dl + mset (map snd rem)
     \<and> subseq rem q"
proof (induction vc q arbitrary: vc' dl rem rule: drain_pass.induct)
  case (2 vc e m q)
  show ?case
  proof (cases "is_ready vc m")
    case True
    obtain v d r where p: "drain_pass (merge vc (msg_vector_clock m)) q = (v, d, r)"
      by (cases "drain_pass (merge vc (msg_vector_clock m)) q") auto
    from "2.IH"(1)[OF True p] True p "2.prems" show ?thesis
      by (auto simp: deliver_def intro: list_emb_Cons)
  next
    case False
    obtain v d r where p: "drain_pass vc q = (v, d, r)" by (cases "drain_pass vc q") auto
    from "2.IH"(2)[OF False p] False p "2.prems" show ?thesis by auto
  qed
qed simp

lemma drain_pass_nothing:
  "drain_pass vc q = (vc', [], rem) \<Longrightarrow> rem = q \<and> (\<forall>(e, m) \<in> set q. \<not> is_ready vc m)"
  by (induction vc q arbitrary: vc' rem rule: drain_pass.induct)
    (auto split: if_splits prod.splits)

lemma drain_loop_spec:
  "drain_loop vc q = (vc', dl, rem) \<Longrightarrow>
     vc' = replay vc dl \<and> causal_run vc dl \<and> mset (map snd q) = mset dl + mset (map snd rem)
     \<and> subseq rem q \<and> (\<forall>(e, m) \<in> set rem. \<not> is_ready vc' m)"
proof (induction vc q arbitrary: vc' dl rem rule: drain_loop.induct)
  case (1 vc q)
  obtain v d r where p: "drain_pass vc q = (v, d, r)" by (cases "drain_pass vc q") auto
  note sp = drain_pass_spec[OF p]
  show ?case
  proof (cases "d = []")
    case True
    with p drain_pass_nothing[of vc q v r] sp "1.prems" show ?thesis
      by (auto simp: drain_loop.simps[of vc q])
  next
    case False
    obtain v2 d2 r2 where l: "drain_loop v r = (v2, d2, r2)" by (cases "drain_loop v r") auto
    have eq: "vc' = v2" "dl = d @ d2" "rem = r2"
      using "1.prems" p l False by (auto simp: drain_loop.simps[of vc q])
    have "v2 = replay v d2 \<and> causal_run v d2 \<and> mset (map snd r) = mset d2 + mset (map snd r2)
        \<and> subseq r2 r \<and> (\<forall>(e, m) \<in> set r2. \<not> is_ready v2 m)"
      using "1.IH"[OF p[symmetric] refl refl False l] .
    with sp eq show ?thesis
      by (auto simp: causal_run_append intro: subseq_order.trans)
  qed
qed

text \<open>The pieces of a call to \<open>drain\<close>: what the timeout released, what became ready.\<close>

abbreviation overdue :: "time \<Rightarrow> holdback \<Rightarrow> message list" where
  "overdue now q \<equiv> map snd (filter (\<lambda>(e, m). now - e > hb_timeout q) (hb_queue q))"

lemma drain_cases:
  assumes "drain now vc q = (vc', dl, q')"
  obtains dl2 rem where "dl = overdue now q @ dl2" "hb_queue q' = rem" "hb_timeout q' = hb_timeout q"
    "drain_loop (replay vc (overdue now q)) (filter (\<lambda>(e, m). \<not> now - e > hb_timeout q) (hb_queue q))
       = (vc', dl2, rem)"
  using assms by (auto simp: drain_def flush_expired_eq Let_def split: prod.splits)

lemma mset_filter_split:
  "mset (map f q) = mset (map f (filter P q)) + mset (map f (filter (\<lambda>x. \<not> P x) q))"
  by (induction q) auto

lemma drain_spec:
  assumes "drain now vc q = (vc', dl, q')"
  shows drain_clock: "vc' = replay vc dl"
    and drain_mset: "mset (map snd (hb_queue q)) = mset dl + mset (map snd (hb_queue q'))"
    and drain_subseq: "subseq (hb_queue q') (hb_queue q)"
    and drain_rest: "(e, m) \<in> set (hb_queue q') \<Longrightarrow> \<not> is_ready vc' m \<and> now - e \<le> hb_timeout q"
    and drain_causal: "overdue now q = [] \<Longrightarrow> causal_run vc dl"
    and drain_timeout: "hb_timeout q' = hb_timeout q"
proof -
  let ?late = "\<lambda>(e, m). now - e > hb_timeout q"
  let ?rest = "filter (\<lambda>(e, m). \<not> now - e > hb_timeout q) (hb_queue q)"
  have rest: "?rest = filter (\<lambda>x. \<not> ?late x) (hb_queue q)" by (auto intro: filter_cong)
  from assms obtain dl2 rem where d: "dl = overdue now q @ dl2" "hb_queue q' = rem"
    "hb_timeout q' = hb_timeout q" "drain_loop (replay vc (overdue now q)) ?rest = (vc', dl2, rem)"
    by (rule drain_cases)
  note sp = drain_loop_spec[OF d(4)]
  show "vc' = replay vc dl" using sp d by simp
  show "mset (map snd (hb_queue q)) = mset dl + mset (map snd (hb_queue q'))"
    using sp d mset_filter_split[of snd "hb_queue q" ?late] by (simp add: rest)
  have "subseq ?rest (hb_queue q)" by (rule subseq_filter_left)
  then show sub: "subseq (hb_queue q') (hb_queue q)"
    using sp d by (auto intro: subseq_order.trans)
  show "overdue now q = [] \<Longrightarrow> causal_run vc dl" using sp d by simp
  show "hb_timeout q' = hb_timeout q" by (rule d(3))
  assume em: "(e, m) \<in> set (hb_queue q')"
  have "set rem \<subseteq> set ?rest" using sp by (auto simp: subseq_conv_nths dest: in_set_nthsD)
  with em d(2) have "(e, m) \<in> set ?rest" by blast
  with em sp d show "\<not> is_ready vc' m \<and> now - e \<le> hb_timeout q" by auto
qed

lemma drain_length:
  "drain now vc q = (vc', dl, q') \<Longrightarrow> length (hb_queue q) = length dl + length (hb_queue q')"
  using arg_cong[OF drain_mset, of now vc q vc' dl q' size] by simp

lemma drain_empty [simp]: "hb_queue q = [] \<Longrightarrow> drain now vc q = (vc, [], q)"
  by (cases q) (simp add: drain_def drain_loop.simps[of vc "[]"])

text \<open>
  Completeness of the drain. If the held messages can be put into some causal order, then
  as long as one of them is left another one is ready, whatever order the queue is in.
\<close>

lemma longest_prefix_in:
  assumes "\<not> mset ms \<subseteq># M"
  shows "\<exists>P m S. ms = P @ m # S \<and> mset P \<subseteq># M \<and> \<not> add_mset m (mset P) \<subseteq># M"
  using assms
proof (induction ms rule: rev_induct)
  case (snoc x xs)
  then show ?case by (cases "mset xs \<subseteq># M") (auto, metis append.assoc append_Cons)
qed simp

lemma length_from_sender_mono:
  assumes "mset P \<subseteq># mset D"
  shows "length (from_sender s P) \<le> length (from_sender s D)"
proof -
  have "mset (from_sender s P) \<subseteq># mset (from_sender s D)"
    using assms by (simp add: multiset_filter_mono)
  then show ?thesis by (metis size_mset size_mset_mono)
qed

lemma remaining_has_ready:
  assumes wf: "wf_clock c" and run: "causal_run c ms" and st: "\<forall>m \<in> set ms. stamped m"
    and runD: "causal_run c D" and split: "mset ms = mset D + mset R" and R: "R \<noteq> []"
  shows "\<exists>m \<in> set R. is_ready (replay c D) m"
proof -
  have "\<not> mset ms \<subseteq># mset D"
    using split R by (metis add.right_neutral add_left_cancel mset_subset_eq_add_left
        mset_zero_iff subset_mset.antisym)
  then obtain P m S where ms: "ms = P @ m # S" and P: "mset P \<subseteq># mset D"
    and notD: "\<not> add_mset m (mset P) \<subseteq># mset D" using longest_prefix_in by blast
  have stD: "\<forall>x \<in> set D. stamped x" and stP: "\<forall>x \<in> set P. stamped x" and stm: "stamped m"
    using st ms arg_cong[OF split, of set_mset] by auto
  have runP: "causal_run c P" and ready: "is_ready (replay c P) m"
    using run ms by (auto simp: causal_run_append)
  have cnt: "count (mset D) m \<le> count (mset P) m"
  proof (rule ccontr)
    assume "\<not> ?thesis"
    with P have "add_mset m (mset P) \<subseteq># mset D"
      by (auto simp: subseteq_mset_def Suc_le_eq)
    with notD show False by simp
  qed
  have "count (mset ms) m = count (mset D) m + count (mset R) m"
    using split by simp
  with cnt ms have "count (mset R) m \<noteq> 0" by (simp del: count_mset_0_iff)
  then have mR: "m \<in> set R" by simp
  let ?s = "msg_sender m"
  note seqP = causal_run_seqs(2)[OF wf runP stP] and seqD = causal_run_seqs(2)[OF wf runD stD]
  have le: "vc_get (replay c P) n \<le> vc_get (replay c D) n" for n
    using length_from_sender_mono[OF P, of n] by (simp add: seqP seqD)
  have seqm: "msg_seq m = vc_get (replay c P) ?s + 1" by (rule ready_seq[OF stm ready])
  have eq: "vc_get (replay c D) ?s = vc_get (replay c P) ?s"
  proof (rule ccontr)
    assume "\<not> ?thesis"
    with le[of ?s] have "msg_seq m \<in> {vc_get c ?s <.. vc_get (replay c D) ?s}"
      using seqm replay_mono[of c ?s P] by auto
    then have "msg_seq m \<in> msg_seq ` set (from_sender ?s D)"
      by (simp only: causal_run_seq_range[OF wf runD stD])
    then obtain x where x: "x \<in> set D" "msg_sender x = ?s" "msg_seq x = msg_seq m" by auto
    have "x \<in> set (from_sender ?s ms)" "m \<in> set (from_sender ?s ms)"
      using x ms arg_cong[OF split, of set_mset] by auto
    with causal_run_distinct[OF wf run st, of ?s] x(3) have "x = m"
      unfolding distinct_map by (blast dest: inj_onD)
    with x(1) cnt have "m \<in> set P"
      by (metis count_greater_zero_iff leD not_gr_zero set_mset_mset)
    then have "msg_seq m \<in> msg_seq ` set (from_sender ?s P)" by auto
    then have "msg_seq m \<in> {vc_get c ?s <.. vc_get (replay c P) ?s}"
      by (simp only: causal_run_seq_range[OF wf runP stP])
    then show False using seqm by simp
  qed
  have "is_ready (replay c D) m"
    using ready le eq stm wf
    by (auto simp: stamped_def is_ready_iff intro: order_trans)
  with mR show ?thesis by blast
qed

lemma drain_releases_all:
  assumes "wf_clock vc" "causal_run vc ms" "\<forall>m \<in> set ms. stamped m"
    and "mset (map snd (hb_queue q)) = mset ms" "overdue now q = []"
    and "drain now vc q = (vc', dl, q')"
  shows "hb_queue q' = []"
proof (rule ccontr)
  assume ne: "hb_queue q' \<noteq> []"
  have "\<exists>m \<in> set (map snd (hb_queue q')). is_ready (replay vc dl) m"
    by (rule remaining_has_ready[OF assms(1-3)])
      (use drain_causal[OF assms(6,5)] drain_mset[OF assms(6)] assms(4) ne in auto)
  then show False using drain_rest[OF assms(6)] drain_clock[OF assms(6)] by auto
qed

section \<open>Replaying up to equality of lookups\<close>

lemma clock_eq_refl [simp]: "clock_eq c c"
  by (simp add: clock_eq_def)

lemma clock_eq_sym: "clock_eq c d \<Longrightarrow> clock_eq d c"
  by (simp add: clock_eq_def)

lemma clock_eq_trans: "clock_eq c d \<Longrightarrow> clock_eq d e \<Longrightarrow> clock_eq c e"
  by (simp add: clock_eq_def)

lemma clock_eq_deliver: "stamped m \<Longrightarrow> clock_eq c d \<Longrightarrow> clock_eq (deliver c m) (deliver d m)"
  by (simp add: clock_eq_def deliver_def vc_get_merge stamped_def wf_clockD)

lemma clock_eq_replay:
  "\<forall>m \<in> set ms. stamped m \<Longrightarrow> clock_eq c d \<Longrightarrow> clock_eq (replay c ms) (replay d ms)"
  by (induction ms arbitrary: c d) (auto intro: clock_eq_deliver)

lemma causal_run_cong:
  "\<forall>m \<in> set ms. stamped m \<Longrightarrow> clock_eq c d \<Longrightarrow> causal_run c ms = causal_run d ms"
  by (induction ms arbitrary: c d) (auto simp: is_ready_cong dest: clock_eq_deliver)

text \<open>Appending a causal continuation to a causal log, with the clock known up to lookups.\<close>

lemma causal_extend:
  assumes "clock_eq c (replay c0 ms)" "causal_run c0 ms" "causal_run c ns" "\<forall>m \<in> set ns. stamped m"
  shows "causal_run c0 (ms @ ns)" and "clock_eq (replay c ns) (replay c0 (ms @ ns))"
  using assms causal_run_cong[of ns c "replay c0 ms"] clock_eq_replay[of ns c "replay c0 ms"]
  by (auto simp: causal_run_append)

text \<open>The message a node stamps on sending is the next one in its own log.\<close>

lemma own_stamp:
  assumes "wf_clock c" "msg_sender m = a" "msg_vector_clock m = increment c a"
  shows "stamped m" and "is_ready c m" and "clock_eq (deliver c m) (increment c a)"
proof -
  have ne: "increment c a \<noteq> []" by (cases c) (auto simp: increment_def)
  show st: "stamped m" using assms ne by (simp add: stamped_def wf_clock_increment)
  show r: "is_ready c m"
    using assms ne by (simp add: is_ready_iff wf_clock_increment)
  show "clock_eq (deliver c m) (increment c a)"
    using deliver_ready[OF assms(1) st r] assms by (simp add: clock_eq_def)
qed

end
