(* ===== verification/Peer_Registry.thy ===== *)
theory Peer_Registry
  imports PeerChat_Prelude
begin

text \<open>
  The peer list interface of \<open>distribution/peer_registry.py\<close> and its in-memory
  implementation. What \<open>BroadcastNode\<close> can observe of a registry is a
  \<open>registry_view\<close>: the result of \<open>get_peers()\<close> and, when the object has the
  attribute, \<open>get_pub_key\<close>. A public key is its PEM text; the source passes it as
  \<open>str\<close> or \<open>bytes\<close>, and only its emptiness and its ASCII text are used.

  The locale \<open>peer_registry\<close> is the contract the sender relies on: no peer is listed
  twice. It is interpreted here on \<open>InMemoryRegistry\<close> and in
  \<open>Membership_Router\<close> on the membership-aware router.
\<close>

section \<open>The interface\<close>

record registry_view =
  rv_peers :: "addr list"
  rv_pub_key :: "(addr \<Rightarrow> string) option"

text \<open>\<open>BroadcastNode._peers_excluding\<close>: the peers other than the sender and the node.\<close>

definition peers_excluding :: "string \<Rightarrow> string \<Rightarrow> addr list \<Rightarrow> addr list" where
  "peers_excluding address sender_addr peers =
     (let excluded = {sender_addr, address} in filter (\<lambda>hp. addr_str hp \<notin> excluded) peers)"

locale peer_registry =
  fixes get_peers :: "'r \<Rightarrow> addr list"
    and reg_inv :: "'r \<Rightarrow> bool"
  assumes peers_distinct: "reg_inv r \<Longrightarrow> distinct (get_peers r)"
begin

lemma targets_distinct: "reg_inv r \<Longrightarrow> distinct (peers_excluding a s (get_peers r))"
  by (simp add: peers_excluding_def peers_distinct)

lemma target_addresses_distinct:
  "reg_inv r \<Longrightarrow> distinct (map addr_str (peers_excluding a s (get_peers r)))"
  using targets_distinct by (simp add: distinct_map inj_on_def)

end

lemma set_peers_excluding:
  "set (peers_excluding a s ps) = {hp \<in> set ps. addr_str hp \<noteq> s \<and> addr_str hp \<noteq> a}"
  by (auto simp: peers_excluding_def)

section \<open>InMemoryRegistry\<close>

type_synonym in_memory = "(string \<times> int \<times> string) list"

definition add_peer :: "string \<Rightarrow> int \<Rightarrow> string \<Rightarrow> in_memory \<Rightarrow> in_memory" where
  "add_peer host port pub_key ps =
     (if \<not> list_ex (\<lambda>(h, p, _). h = host \<and> p = port) ps then ps @ [(host, port, pub_key)] else ps)"

definition remove_peer :: "string \<Rightarrow> int \<Rightarrow> in_memory \<Rightarrow> in_memory" where
  "remove_peer host port ps = filter (\<lambda>(h, p, pub). (h, p) \<noteq> (host, port)) ps"

definition get_peers :: "in_memory \<Rightarrow> addr list" where
  "get_peers ps = map (\<lambda>(h, p, _). (h, p)) ps"

fun get_pub_key :: "in_memory \<Rightarrow> addr \<Rightarrow> string" where
  "get_pub_key [] hp = ''''"
| "get_pub_key ((h, p, pub) # ps) hp = (if h = fst hp \<and> p = snd hp then pub else get_pub_key ps hp)"

definition in_memory_view :: "in_memory \<Rightarrow> registry_view" where
  "in_memory_view ps = \<lparr>rv_peers = get_peers ps, rv_pub_key = Some (get_pub_key ps)\<rparr>"

definition registry_wf :: "in_memory \<Rightarrow> bool" where
  "registry_wf ps = distinct (get_peers ps)"

lemma get_peers_simps [simp]:
  "get_peers [] = []" "get_peers ((h, p, k) # ps) = (h, p) # get_peers ps"
  by (simp_all add: get_peers_def)

lemma set_get_peers: "(h, p) \<in> set (get_peers ps) \<longleftrightarrow> (\<exists>k. (h, p, k) \<in> set ps)"
  by (force simp: get_peers_def)

lemma get_peers_add:
  "get_peers (add_peer h p k ps) =
     (if (h, p) \<in> set (get_peers ps) then get_peers ps else get_peers ps @ [(h, p)])"
proof -
  have "list_ex (\<lambda>(h', p', _). h' = h \<and> p' = p) ps \<longleftrightarrow> (h, p) \<in> set (get_peers ps)"
    by (auto simp: list_ex_iff set_get_peers)
  then show ?thesis by (simp add: add_peer_def get_peers_def)
qed

lemma get_peers_remove: "get_peers (remove_peer h p ps) = filter (\<lambda>hp. hp \<noteq> (h, p)) (get_peers ps)"
  by (auto simp: remove_peer_def get_peers_def filter_map comp_def case_prod_beta intro!: arg_cong[of _ _ "map _"] filter_cong)

lemma registry_wf_empty: "registry_wf []"
  by (simp add: registry_wf_def get_peers_def)

lemma registry_wf_add: "registry_wf ps \<Longrightarrow> registry_wf (add_peer h p k ps)"
  by (simp add: registry_wf_def get_peers_add)

lemma registry_wf_remove: "registry_wf ps \<Longrightarrow> registry_wf (remove_peer h p ps)"
  by (simp add: registry_wf_def get_peers_remove)

lemma get_pub_key_not_in: "hp \<notin> set (get_peers ps) \<Longrightarrow> get_pub_key ps hp = ''''"
  by (induction ps) (auto simp: get_peers_def)

lemma get_pub_key_append:
  "get_pub_key (ps @ [(h, p, k)]) hp =
     (if hp \<in> set (get_peers ps) then get_pub_key ps hp
      else if hp = (h, p) then k else '''')"
  by (induction ps) (auto simp: prod_eq_iff)

text \<open>Only the first registration of an address sets its key: adding a peer again does not
  replace the key.\<close>

lemma get_pub_key_add:
  "get_pub_key (add_peer h p k ps) hp =
     (if hp = (h, p) \<and> (h, p) \<notin> set (get_peers ps) then k else get_pub_key ps hp)"
proof -
  have "list_ex (\<lambda>(h', p', _). h' = h \<and> p' = p) ps \<longleftrightarrow> (h, p) \<in> set (get_peers ps)"
    by (auto simp: list_ex_iff set_get_peers)
  then show ?thesis
    by (auto simp: add_peer_def get_pub_key_append get_pub_key_not_in)
qed

lemma get_pub_key_remove:
  "get_pub_key (remove_peer h p ps) hp = (if hp = (h, p) then '''' else get_pub_key ps hp)"
  by (induction ps) (auto simp: remove_peer_def)

interpretation inmem: peer_registry get_peers registry_wf
  by unfold_locales (simp add: registry_wf_def)

end
