(* ===== verification/Broadcast_Node.thy ===== *)
theory Broadcast_Node
  imports Vector_Clock Peer_Registry
begin

text \<open>
  \<open>distribution/broadcast_node.py\<close>: the node that de-duplicates, orders, delivers and
  forwards messages. The node's event loop is single threaded, so the code between two
  \<open>await\<close>s is atomic: each such block is one function from the node's state to the
  new state, the messages handed to \<open>on_message\<close> (in order) and the work it schedules.
  What the network answers is an argument (\<open>reply\<close> per attempt); the clock reading is
  the argument \<open>now\<close>.

  The security package is imported at run time and may be absent
  (\<open>except ImportError\<close>): its functions are the record \<open>security\<close>, an argument of
  the node's operations. \<open>on_message\<close> is taken not to
  raise here; \<open>Peer_App\<close> models handlers whose callback raises.
\<close>

section \<open>Configuration and state\<close>

definition ACK_TIMEOUT :: time where "ACK_TIMEOUT = 2"

definition MAX_RETRIES :: nat where "MAX_RETRIES = 3"

definition RETRY_BACKOFF :: time where "RETRY_BACKOFF = 1 / 2"

text \<open>The functions imported from \<open>security\<close>: \<open>sign\<close> (\<open>None\<close> is the
  \<open>RuntimeError\<close> of an unconfigured private key), \<open>verify\<close> against the registered
  public keys, whether \<open>register_public_key\<close> accepts a PEM, the private key,
  \<open>is_encrypted_content\<close>, and the payload encryption (\<open>None\<close> is an exception).\<close>

record security =
  sec_sign :: "message \<Rightarrow> string option"
  sec_verify :: "(string, string) dict \<Rightarrow> message \<Rightarrow> bool"
  sec_loads_pem :: "string \<Rightarrow> bool"
  sec_private_key :: "string option"
  sec_is_encrypted :: "string \<Rightarrow> bool"
  sec_encrypt :: "string \<Rightarrow> string \<Rightarrow> string \<Rightarrow> string option"
  sec_decrypt :: "string \<Rightarrow> string \<Rightarrow> string \<Rightarrow> string option"

record node_env =
  env_sec :: "security option"
  env_hook :: "(message \<Rightarrow> registry_view \<Rightarrow> registry_view) option"

record node =
  n_host :: string
  n_port :: int
  n_enforce :: bool
  n_callback :: bool
  n_running :: bool
  n_seen :: "string set"
  n_retry :: "(string, message list) dict"
  n_vc :: clock
  n_hold :: holdback
  n_keys :: "(string, string) dict"

definition n_address :: "node \<Rightarrow> string" where
  "n_address n = addr_str (n_host n, n_port n)"

definition new_node :: "string \<Rightarrow> int \<Rightarrow> bool \<Rightarrow> node" where
  "new_node host port enforce_signatures =
     \<lparr>n_host = host, n_port = port, n_enforce = enforce_signatures, n_callback = False,
      n_running = False, n_seen = {}, n_retry = [], n_vc = [], n_hold = new_holdback,
      n_keys = []\<rparr>"

datatype node_error = WebsocketsMissing

datatype task =
    DoBroadcast message
  | SendToPeer addr message
  | VcSync clock
  | Receive message

definition start :: "bool \<Rightarrow> node \<Rightarrow> node_error + node" where
  "start websockets n = (if \<not> websockets then Inl WebsocketsMissing else Inr (n\<lparr>n_running := True\<rparr>))"

definition stop :: "node \<Rightarrow> node" where
  "stop n = n\<lparr>n_running := False\<rparr>"

text \<open>The public entry points schedule work on the loop; without a running loop they do
  nothing.\<close>

definition broadcast :: "node \<Rightarrow> message \<Rightarrow> task list" where
  "broadcast n message = (if n_running n then [DoBroadcast message] else [])"

definition send_to_peer :: "node \<Rightarrow> addr \<Rightarrow> message \<Rightarrow> task list" where
  "send_to_peer n hp message = (if n_running n then [SendToPeer hp message] else [])"

definition sync_vector_clock :: "node \<Rightarrow> clock \<Rightarrow> task list" where
  "sync_vector_clock n vc = (if n_running n then [VcSync vc] else [])"

section \<open>De-duplication, signing and encryption helpers\<close>

definition deduplicate :: "string \<Rightarrow> node \<Rightarrow> bool \<times> node" where
  "deduplicate mid n =
     (if mid \<in> n_seen n then (False, n) else (True, n\<lparr>n_seen := insert mid (n_seen n)\<rparr>))"

definition decrypt_into :: "node_env \<Rightarrow> node \<Rightarrow> message \<Rightarrow> message" where
  "decrypt_into env n message =
     (case env_sec env of
        None \<Rightarrow> message
      | Some s \<Rightarrow>
          if \<not> sec_is_encrypted s (msg_content message) then message
          else (case sec_private_key s of
                  None \<Rightarrow> message
                | Some private_pem \<Rightarrow>
                    if private_pem = [] then message
                    else (case sec_decrypt s (msg_content message) (n_address n) private_pem of
                            Some plain \<Rightarrow> message\<lparr>msg_content := plain\<rparr>
                          | None \<Rightarrow> message\<lparr>msg_content := ''[encrypted]''\<rparr>)))"

definition message_for_ui :: "node_env \<Rightarrow> node \<Rightarrow> message \<Rightarrow> message" where
  "message_for_ui env n message = decrypt_into env n message"

definition sign_outgoing :: "node_env \<Rightarrow> node \<Rightarrow> message \<Rightarrow> bool \<times> message" where
  "sign_outgoing env n message =
     (case env_sec env of
        None \<Rightarrow> (\<not> n_enforce n, message)
      | Some s \<Rightarrow>
          (case sec_sign s message of
             Some sig \<Rightarrow> (True, message\<lparr>msg_signature := sig\<rparr>)
           | None \<Rightarrow> if n_enforce n then (False, message) else (True, message)))"

definition view_key :: "registry_view \<Rightarrow> addr \<Rightarrow> string" where
  "view_key reg hp = (case rv_pub_key reg of None \<Rightarrow> [] | Some f \<Rightarrow> f hp)"

definition has_any_peer_key :: "registry_view \<Rightarrow> bool" where
  "has_any_peer_key reg =
     (case rv_pub_key reg of None \<Rightarrow> False | Some f \<Rightarrow> list_ex (\<lambda>hp. f hp \<noteq> []) (rv_peers reg))"

definition get_peer_pubkey :: "registry_view \<Rightarrow> addr \<Rightarrow> string option" where
  "get_peer_pubkey reg hp =
     (case rv_pub_key reg of
        None \<Rightarrow> None
      | Some f \<Rightarrow> if f hp \<noteq> [] then Some (f hp) else None)"

definition encrypt_for_peer :: "node_env \<Rightarrow> registry_view \<Rightarrow> message \<Rightarrow> addr \<Rightarrow> bool \<times> message" where
  "encrypt_for_peer env reg message hp =
     (case env_sec env of
        None \<Rightarrow> (True, message)
      | Some s \<Rightarrow>
          if sec_is_encrypted s (msg_content message) then (True, message)
          else (case get_peer_pubkey reg hp of
                  None \<Rightarrow> (True, message)
                | Some pub \<Rightarrow>
                    (case sec_encrypt s (msg_content message) (addr_str hp) pub of
                       Some c \<Rightarrow> (True, message\<lparr>msg_content := c\<rparr>)
                     | None \<Rightarrow> (True, message))))"

definition prepare_outgoing_for_peer ::
  "node_env \<Rightarrow> registry_view \<Rightarrow> node \<Rightarrow> message \<Rightarrow> addr \<Rightarrow> message option" where
  "prepare_outgoing_for_peer env reg n template hp =
     (case encrypt_for_peer env reg template hp of
        (False, _) \<Rightarrow> None
      | (True, wire) \<Rightarrow>
          (case sign_outgoing env n wire of
             (False, _) \<Rightarrow> None
           | (True, wire') \<Rightarrow> Some wire'))"

definition register_peer_key :: "node_env \<Rightarrow> registry_view \<Rightarrow> addr \<Rightarrow> node \<Rightarrow> node" where
  "register_peer_key env reg hp n =
     (case env_sec env of
        None \<Rightarrow> n
      | Some s \<Rightarrow>
          (case rv_pub_key reg of
             None \<Rightarrow> n
           | Some f \<Rightarrow>
               if f hp \<noteq> [] \<and> sec_loads_pem s (f hp)
               then n\<lparr>n_keys := dict_set (addr_str hp) (f hp) (n_keys n)\<rparr> else n))"

section \<open>Incoming messages\<close>

text \<open>\<open>_verify_incoming\<close>: the gate before acknowledgement, de-duplication, delivery and
  forwarding. The hook may change the registry; registering the sender's key changes the
  node's key table.\<close>

definition verify_incoming ::
  "node_env \<Rightarrow> registry_view \<Rightarrow> node \<Rightarrow> message \<Rightarrow> bool \<times> registry_view \<times> node" where
  "verify_incoming env reg n message =
     (case env_sec env of
        None \<Rightarrow> (\<not> n_enforce n, reg, n)
      | Some s \<Rightarrow>
          if \<not> (n_enforce n \<or> has_any_peer_key reg) then (True, reg, n)
          else if msg_signature message = [] then (False, reg, n)
          else
            (case rsplit1 (CHR '':'') (msg_sender message) of
               None \<Rightarrow> (False, reg, n)
             | Some (host, port_str) \<Rightarrow>
                 (case py_int port_str of
                    None \<Rightarrow> (False, reg, n)
                  | Some port \<Rightarrow>
                      if rv_pub_key reg = None then (False, reg, n)
                      else
                        let reg' = (case env_hook env of None \<Rightarrow> reg | Some h \<Rightarrow> h message reg) in
                        if view_key reg' (host, port) = [] then (False, reg', n)
                        else
                          let n' = register_peer_key env reg' (host, port) n in
                          (sec_verify s (n_keys n') message, reg', n'))))"

text \<open>What \<open>on_message\<close> receives: nothing when no callback is set.\<close>

definition callbacks :: "node \<Rightarrow> message list \<Rightarrow> message list" where
  "callbacks n ms = (if n_callback n then ms else [])"

text \<open>
  \<open>_receive\<close>: the result is the new node, the messages released by the causal layer in
  delivery order (as they came over the wire), the message to forward, if any, and the
  Boolean it returns. \<open>t_add\<close> and \<open>t_drain\<close> are the two readings of the clock.
\<close>

definition receive ::
  "node_env \<Rightarrow> time \<Rightarrow> time \<Rightarrow> node \<Rightarrow> message \<Rightarrow> node \<times> message list \<times> message option \<times> bool" where
  "receive env t_add t_drain n0 message =
     (case deduplicate (msg_id message) n0 of
        (False, n) \<Rightarrow> (n, [], None, False)
      | (True, n) \<Rightarrow>
          let (n', to_deliver) =
            (if is_ready (n_vc n) message then
               let vc1 = merge (n_vc n) (msg_vector_clock message);
                   (vc2, released, q) = drain t_drain vc1 (n_hold n)
               in (n\<lparr>n_vc := vc2, n_hold := q\<rparr>, message # released)
             else
               let (vc2, released, q) = drain t_drain (n_vc n) (hb_add t_add message (n_hold n))
               in (n\<lparr>n_vc := vc2, n_hold := q\<rparr>, released));
              fwd =
            (if msg_ttl message > 0 then
               (case env_sec env of
                  Some s \<Rightarrow> if sec_is_encrypted s (msg_content message) then None
                            else Some (message\<lparr>msg_ttl := msg_ttl message - 1\<rparr>)
                | None \<Rightarrow> Some (message\<lparr>msg_ttl := msg_ttl message - 1\<rparr>))
             else None)
          in (n', to_deliver, fwd, True))"

text \<open>The calls of \<open>on_message\<close> made by \<open>_receive\<close>.\<close>

definition receive_ui :: "node_env \<Rightarrow> time \<Rightarrow> time \<Rightarrow> node \<Rightarrow> message \<Rightarrow> message list" where
  "receive_ui env t_add t_drain n0 message =
     (let (n', ms, _, _) = receive env t_add t_drain n0 message
      in callbacks n' (map (message_for_ui env n') ms))"

datatype frame = Hello string | HelloAck string | Chat message | Malformed

datatype reply_frame = SendHelloAck string | SendAck string | SendNack string

text \<open>One turn of the loop in \<open>_handle_ws\<close>: the reply sent, the task scheduled, and
  whether the connection is still read.\<close>

definition handle_frame ::
  "node_env \<Rightarrow> registry_view \<Rightarrow> node \<Rightarrow> frame
     \<Rightarrow> registry_view \<times> node \<times> reply_frame list \<times> task list \<times> bool" where
  "handle_frame env reg n fr =
     (case fr of
        Hello _ \<Rightarrow> (reg, n, [SendHelloAck (n_address n)], [], True)
      | HelloAck _ \<Rightarrow> (reg, n, [], [], True)
      | Malformed \<Rightarrow> (reg, n, [], [], False)
      | Chat message \<Rightarrow>
          (case verify_incoming env reg n message of
             (False, reg', n') \<Rightarrow> (reg', n', [SendNack (msg_id message)], [], True)
           | (True, reg', n') \<Rightarrow> (reg', n', [SendAck (msg_id message)], [Receive message], True)))"

section \<open>Outgoing messages\<close>

text \<open>\<open>_do_broadcast\<close>: new node, messages delivered locally, message to forward, result.\<close>

definition do_broadcast ::
  "node_env \<Rightarrow> node \<Rightarrow> message \<Rightarrow> node \<times> message list \<times> message option \<times> bool" where
  "do_broadcast env n0 message =
     (case deduplicate (msg_id message) n0 of
        (False, n) \<Rightarrow> (n, [], None, False)
      | (True, n) \<Rightarrow>
          (case sign_outgoing env n message of
             (False, _) \<Rightarrow> (n, [], None, False)
           | (True, signed) \<Rightarrow>
               let vc = increment (n_vc n) (n_address n);
                   stamped_msg = signed\<lparr>msg_vector_clock := snapshot vc\<rparr>
               in (n\<lparr>n_vc := vc\<rparr>, [stamped_msg],
                   if msg_ttl stamped_msg > 0 then Some stamped_msg else None, True)))"

definition forward :: "registry_view \<Rightarrow> node \<Rightarrow> message \<Rightarrow> (addr \<times> message) list" where
  "forward reg n message =
     map (\<lambda>hp. (hp, message)) (peers_excluding (n_address n) (msg_sender message) (rv_peers reg))"

text \<open>The outcome of one attempt: an exception, or the reply's \<open>ack\<close> field.\<close>

datatype reply = Raised | Reply "string option"

definition ack_ok :: "string \<Rightarrow> reply \<Rightarrow> bool" where
  "ack_ok mid r = (r = Reply (Some mid))"

text \<open>The attempts of \<open>_send_with_retry\<close>; the second component lists the sleeps.\<close>

fun send_attempts :: "string \<Rightarrow> (nat \<Rightarrow> reply) \<Rightarrow> nat list \<Rightarrow> bool \<times> time list" where
  "send_attempts mid net [] = (False, [])"
| "send_attempts mid net (attempt # rest) =
     (if ack_ok mid (net attempt) then (True, [])
      else
        let (ok, sl) = send_attempts mid net rest in
        (ok, if attempt < MAX_RETRIES then (RETRY_BACKOFF * of_nat attempt) # sl else sl))"

definition enqueue_retry :: "string \<Rightarrow> message list \<Rightarrow> node \<Rightarrow> node" where
  "enqueue_retry peer_key ms n =
     n\<lparr>n_retry := dict_set peer_key (get_or (n_retry n) peer_key [] @ ms) (n_retry n)\<rparr>"

definition send_with_retry ::
  "node_env \<Rightarrow> registry_view \<Rightarrow> node \<Rightarrow> addr \<Rightarrow> message \<Rightarrow> bool \<Rightarrow> (nat \<Rightarrow> reply)
     \<Rightarrow> bool \<times> time list \<times> node" where
  "send_with_retry env reg n hp message queue_on_fail net =
     (case prepare_outgoing_for_peer env reg n message hp of
        None \<Rightarrow> (False, [], n)
      | Some wire \<Rightarrow>
          (case send_attempts (msg_id message) net [1..<MAX_RETRIES + 1] of
             (True, sl) \<Rightarrow> (True, sl, n)
           | (False, sl) \<Rightarrow>
               (False, sl, if queue_on_fail then enqueue_retry (addr_str hp) [message] n else n)))"

text \<open>\<open>_send_to_peer\<close>: one peer, \<open>ttl = 0\<close>, so the receiver does not forward.\<close>

definition send_direct ::
  "node_env \<Rightarrow> registry_view \<Rightarrow> node \<Rightarrow> addr \<Rightarrow> message \<Rightarrow> (nat \<Rightarrow> reply) \<Rightarrow> node" where
  "send_direct env reg n hp message net =
     (let (_, _, n') = send_with_retry env reg n hp (message\<lparr>msg_ttl := 0\<rparr>) True net in n')"

section \<open>Background tasks\<close>

text \<open>\<open>_send_hello_to_all_peers\<close>: register every known key, then shake hands with every
  peer; a handshake answered with \<open>hello_ack\<close> schedules a flush of that peer's queue.\<close>

definition send_hello_to_all_peers :: "node_env \<Rightarrow> registry_view \<Rightarrow> node \<Rightarrow> node \<times> addr list" where
  "send_hello_to_all_peers env reg n =
     (foldl (\<lambda>n hp. register_peer_key env reg hp n) n (rv_peers reg), rv_peers reg)"

datatype hello_reply = HelloRaised | HelloType "string option"

definition do_handshake :: "addr \<Rightarrow> hello_reply \<Rightarrow> addr list" where
  "do_handshake hp r =
     (case r of
        HelloRaised \<Rightarrow> []
      | HelloType ty \<Rightarrow> if ty = Some ''hello_ack'' then [hp] else [])"

definition apply_vc_sync :: "time \<Rightarrow> node \<Rightarrow> clock \<Rightarrow> node \<times> message list" where
  "apply_vc_sync now n vc =
     (let (vc', released, q) = drain now (merge (n_vc n) vc) (n_hold n)
      in (n\<lparr>n_vc := vc', n_hold := q\<rparr>, released))"

text \<open>One round of \<open>_holdback_drain_task\<close>.\<close>

definition holdback_drain :: "time \<Rightarrow> node \<Rightarrow> node \<times> message list" where
  "holdback_drain now n =
     (if hb_queue (n_hold n) \<noteq> [] then
        let (vc', released, q) = drain now (n_vc n) (n_hold n)
        in (n\<lparr>n_vc := vc', n_hold := q\<rparr>, released)
      else (n, []))"

text \<open>The \<open>on_message\<close> calls of the two tasks: \<open>_apply_vc_sync\<close> passes a UI copy,
  \<open>_holdback_drain_task\<close> the message itself.\<close>

definition apply_vc_sync_ui :: "node_env \<Rightarrow> time \<Rightarrow> node \<Rightarrow> clock \<Rightarrow> message list" where
  "apply_vc_sync_ui env now n vc =
     (let (n', ms) = apply_vc_sync now n vc in callbacks n' (map (message_for_ui env n') ms))"

definition holdback_drain_ui :: "time \<Rightarrow> node \<Rightarrow> message list" where
  "holdback_drain_ui now n = (let (n', ms) = holdback_drain now n in callbacks n' ms)"

text \<open>One round of \<open>_retry_background_task\<close>: the peers whose queue is flushed. A key with
  no port would raise; keys are address strings.\<close>

definition retry_pending :: "node \<Rightarrow> addr option list" where
  "retry_pending n =
     map (\<lambda>k. case rsplit1 (CHR '':'') k of
                None \<Rightarrow> None
              | Some (host, port_str) \<Rightarrow> map_option (\<lambda>port. (host, port)) (py_int port_str))
       (map fst (filter (\<lambda>(k, v). v \<noteq> []) (n_retry n)))"

text \<open>The loop of \<open>_flush_peer_retry_queue\<close>: how many queued messages were delivered
  before the first failure, and what is left.\<close>

fun flush_messages ::
  "node_env \<Rightarrow> registry_view \<Rightarrow> node \<Rightarrow> addr \<Rightarrow> (nat \<Rightarrow> nat \<Rightarrow> reply) \<Rightarrow> nat \<Rightarrow> message list
     \<Rightarrow> nat \<times> message list" where
  "flush_messages env reg n hp net i [] = (0, [])"
| "flush_messages env reg n hp net i (msg # messages) =
     (if fst (send_with_retry env reg n hp msg False (net i)) then
        let (flushed, still_failed) = flush_messages env reg n hp net (Suc i) messages
        in (Suc flushed, still_failed)
      else (0, msg # messages))"

text \<open>\<open>arrived\<close> are the messages other tasks queue for the same peer while the flush
  awaits the network.\<close>

definition flush_peer_retry_queue ::
  "node_env \<Rightarrow> registry_view \<Rightarrow> node \<Rightarrow> addr \<Rightarrow> (nat \<Rightarrow> nat \<Rightarrow> reply) \<Rightarrow> message list \<Rightarrow> nat \<times> node" where
  "flush_peer_retry_queue env reg n hp net arrived =
     (let peer_key = addr_str hp;
          messages = get_or (n_retry n) peer_key [];
          popped = n\<lparr>n_retry := dict_pop peer_key (n_retry n)\<rparr>;
          n1 = (if arrived = [] then popped else enqueue_retry peer_key arrived popped)
      in if messages = [] then (0, n1)
         else
           let (flushed, still_failed) = flush_messages env reg popped hp net 0 messages in
           (flushed,
            if still_failed = [] then n1
            else n1\<lparr>n_retry := dict_set peer_key
                      (still_failed @ get_or (n_retry n1) peer_key []) (n_retry n1)\<rparr>))"

section \<open>De-duplication keeps every identifier\<close>

interpretation node_dedup: exact_dedup deduplicate n_seen "\<lambda>_. True"
  by unfold_locales (auto simp: deduplicate_def)

section \<open>Frame and clock lemmas\<close>

lemma fst_deduplicate: "fst (deduplicate i n) \<longleftrightarrow> i \<notin> n_seen n"
  by (simp add: deduplicate_def)

lemma deduplicate_cases:
  obtains (dup) "i \<in> n_seen n" "deduplicate i n = (False, n)"
  | (new) "i \<notin> n_seen n" "deduplicate i n = (True, n\<lparr>n_seen := insert i (n_seen n)\<rparr>)"
  by (cases "i \<in> n_seen n") (auto simp: deduplicate_def)

lemma receive_dup: "msg_id m \<in> n_seen n \<Longrightarrow> receive env ta td n m = (n, [], None, False)"
  by (simp add: receive_def deduplicate_def)

lemma receive_ready:
  assumes "msg_id m \<notin> n_seen n" "is_ready (n_vc n) m"
    "drain td (deliver (n_vc n) m) (n_hold n) = (vc', rel, q')"
  shows "\<exists>f. receive env ta td n m =
    (n\<lparr>n_seen := insert (msg_id m) (n_seen n), n_vc := vc', n_hold := q'\<rparr>, m # rel, f, True)"
  using assms by (simp add: receive_def deduplicate_def deliver_def Let_def)

lemma receive_held:
  assumes "msg_id m \<notin> n_seen n" "\<not> is_ready (n_vc n) m"
    "drain td (n_vc n) (hb_add ta m (n_hold n)) = (vc', rel, q')"
  shows "\<exists>f. receive env ta td n m =
    (n\<lparr>n_seen := insert (msg_id m) (n_seen n), n_vc := vc', n_hold := q'\<rparr>, rel, f, True)"
  using assms by (simp add: receive_def deduplicate_def Let_def)

lemma sign_outgoing_fields:
  assumes "sign_outgoing env n m = (ok, m')"
  shows "msg_id m' = msg_id m \<and> msg_sender m' = msg_sender m \<and> msg_content m' = msg_content m
    \<and> msg_ttl m' = msg_ttl m \<and> msg_vector_clock m' = msg_vector_clock m
    \<and> msg_timestamp m' = msg_timestamp m"
  using assms by (auto simp: sign_outgoing_def split: option.splits if_splits)

lemma sign_outgoing_seen: "sign_outgoing env (n\<lparr>n_seen := S\<rparr>) m = sign_outgoing env n m"
  by (simp add: sign_outgoing_def split: option.split)

lemma sign_outgoing_lenient: "\<not> n_enforce n \<Longrightarrow> fst (sign_outgoing env n m)"
  by (auto simp: sign_outgoing_def split: option.splits)

lemma do_broadcast_dup: "msg_id m \<in> n_seen n \<Longrightarrow> do_broadcast env n m = (n, [], None, False)"
  by (simp add: do_broadcast_def deduplicate_def)

lemma do_broadcast_unsigned:
  assumes "msg_id m \<notin> n_seen n" "\<not> fst (sign_outgoing env n m)"
  shows "do_broadcast env n m = (n\<lparr>n_seen := insert (msg_id m) (n_seen n)\<rparr>, [], None, False)"
  using assms by (auto simp: do_broadcast_def deduplicate_def sign_outgoing_def split: option.splits if_splits)

lemma do_broadcast_sent:
  assumes "msg_id m \<notin> n_seen n" "sign_outgoing env n m = (True, m1)"
  shows "\<exists>f. do_broadcast env n m =
    (n\<lparr>n_seen := insert (msg_id m) (n_seen n), n_vc := increment (n_vc n) (n_address n)\<rparr>,
     [m1\<lparr>msg_vector_clock := increment (n_vc n) (n_address n)\<rparr>], f, True)"
proof -
  have "sign_outgoing env (n\<lparr>n_seen := insert (msg_id m) (n_seen n)\<rparr>) m = (True, m1)"
    by (simp only: sign_outgoing_seen assms(2))
  then show ?thesis
    using assms(1) by (simp add: do_broadcast_def deduplicate_def snapshot_def n_address_def Let_def)
qed

section \<open>Runs of a node\<close>

text \<open>
  The atomic blocks of the event loop as one labelled step function over the node and the
  log of messages released to \<open>on_message\<close>.
\<close>

datatype node_event =
    EvReceive time time message
  | EvBroadcast message
  | EvDrain time
  | EvSync time clock

type_synonym node_run = "node \<times> message list"

fun node_step :: "node_env \<Rightarrow> node_run \<Rightarrow> node_event \<Rightarrow> node_run" where
  "node_step env (n, lg) (EvReceive ta td m) =
     (case receive env ta td n m of (n', ms, _, _) \<Rightarrow> (n', lg @ ms))"
| "node_step env (n, lg) (EvBroadcast m) =
     (case do_broadcast env n m of (n', ms, _, _) \<Rightarrow> (n', lg @ ms))"
| "node_step env (n, lg) (EvDrain now) =
     (case holdback_drain now n of (n', ms) \<Rightarrow> (n', lg @ ms))"
| "node_step env (n, lg) (EvSync now vc) =
     (case apply_vc_sync now n vc of (n', ms) \<Rightarrow> (n', lg @ ms))"

abbreviation held :: "node \<Rightarrow> message list" where
  "held n \<equiv> map snd (hb_queue (n_hold n))"

text \<open>The messages a run is accountable for: delivered ones and held ones.\<close>

definition account :: "node_run \<Rightarrow> message multiset" where
  "account s = mset (snd s) + mset (held (fst s))"

lemma holdback_drain_eq:
  "drain now (n_vc n) (n_hold n) = (vc', rel, q') \<Longrightarrow>
     holdback_drain now n = (n\<lparr>n_vc := vc', n_hold := q'\<rparr>, rel)"
  by (cases "hb_queue (n_hold n) = []") (auto simp: holdback_drain_def)

text \<open>What one step adds to the account: at most the message it processes, and that only
  when its identifier is new.\<close>

definition accounts_for :: "node_run \<Rightarrow> node_run \<Rightarrow> bool" where
  "accounts_for s t \<longleftrightarrow>
     account t = account s \<and> n_seen (fst s) \<subseteq> n_seen (fst t)
       \<and> (n_enforce (fst s) \<or> n_seen (fst t) = n_seen (fst s))
   \<or> (\<exists>m. account t = add_mset m (account s) \<and> msg_id m \<notin> n_seen (fst s)
        \<and> n_seen (fst t) = insert (msg_id m) (n_seen (fst s)))"

lemma accounts_same:
  "account t = account s \<Longrightarrow> n_seen (fst s) \<subseteq> n_seen (fst t)
     \<Longrightarrow> n_enforce (fst s) \<or> n_seen (fst t) = n_seen (fst s) \<Longrightarrow> accounts_for s t"
  by (simp add: accounts_for_def)

lemma accounts_new:
  "account t = add_mset m (account s) \<Longrightarrow> msg_id m \<notin> n_seen (fst s)
     \<Longrightarrow> n_seen (fst t) = insert (msg_id m) (n_seen (fst s)) \<Longrightarrow> accounts_for s t"
  by (auto simp: accounts_for_def)

lemma receive_account: "accounts_for (n, lg) (node_step env (n, lg) (EvReceive ta td m))"
proof -
  show ?thesis
  proof (cases "msg_id m \<in> n_seen n")
    case True
    then show ?thesis by (simp add: receive_dup accounts_same)
  next
    case new: False
    show ?thesis
    proof (cases "is_ready (n_vc n) m")
      case True
      obtain vc' rel q' where d: "drain td (deliver (n_vc n) m) (n_hold n) = (vc', rel, q')"
        by (cases "drain td (deliver (n_vc n) m) (n_hold n)") auto
      from receive_ready[OF new True d] obtain f where "receive env ta td n m =
          (n\<lparr>n_seen := insert (msg_id m) (n_seen n), n_vc := vc', n_hold := q'\<rparr>, m # rel, f, True)"
        by blast
      with drain_mset[OF d] new show ?thesis
        by (intro accounts_new[where m = m]) (simp_all add: account_def)
    next
      case False
      obtain vc' rel q' where d: "drain td (n_vc n) (hb_add ta m (n_hold n)) = (vc', rel, q')"
        by (cases "drain td (n_vc n) (hb_add ta m (n_hold n))") auto
      from receive_held[OF new False d] obtain f where "receive env ta td n m =
          (n\<lparr>n_seen := insert (msg_id m) (n_seen n), n_vc := vc', n_hold := q'\<rparr>, rel, f, True)"
        by blast
      with drain_mset[OF d] new show ?thesis
        by (intro accounts_new[where m = m]) (simp_all add: account_def hb_add_def)
    qed
  qed
qed

lemma broadcast_account: "accounts_for (n, lg) (node_step env (n, lg) (EvBroadcast m))"
proof -
  show ?thesis
  proof (cases "msg_id m \<in> n_seen n")
    case True
    then show ?thesis by (simp add: do_broadcast_dup accounts_same)
  next
    case new: False
    obtain ok m1 where sg: "sign_outgoing env n m = (ok, m1)" by fastforce
    show ?thesis
    proof (cases ok)
      case True
      with sg have "sign_outgoing env n m = (True, m1)" by simp
      from do_broadcast_sent[OF new this] obtain f where "do_broadcast env n m =
          (n\<lparr>n_seen := insert (msg_id m) (n_seen n), n_vc := increment (n_vc n) (n_address n)\<rparr>,
           [m1\<lparr>msg_vector_clock := increment (n_vc n) (n_address n)\<rparr>], f, True)" by blast
      with new sign_outgoing_fields[OF sg] show ?thesis
        by (intro accounts_new[where m = "m1\<lparr>msg_vector_clock := increment (n_vc n) (n_address n)\<rparr>"])
          (simp_all add: account_def)
    next
      case False
      with sg new sign_outgoing_lenient[of n env m] show ?thesis
        by (intro accounts_same) (auto simp: do_broadcast_unsigned account_def)
    qed
  qed
qed

lemma node_step_account: "accounts_for s (node_step env s e)"
proof (cases s)
  case (Pair n lg)
  show ?thesis
  proof (cases e)
    case (EvDrain now)
    obtain vc' rel q' where d: "drain now (n_vc n) (n_hold n) = (vc', rel, q')"
      by (cases "drain now (n_vc n) (n_hold n)") auto
    from holdback_drain_eq[OF d] drain_mset[OF d] EvDrain Pair show ?thesis
      by (simp add: account_def accounts_for_def)
  next
    case (EvSync now vc)
    obtain vc' rel q' where d: "drain now (merge (n_vc n) vc) (n_hold n) = (vc', rel, q')"
      by (cases "drain now (merge (n_vc n) vc) (n_hold n)") auto
    with drain_mset[OF d] EvSync Pair show ?thesis
      by (simp add: account_def apply_vc_sync_def accounts_for_def)
  qed (simp_all only: Pair receive_account broadcast_account)
qed

text \<open>The invariant of exactly-once delivery.\<close>

definition once_inv :: "node_run \<Rightarrow> bool" where
  "once_inv s = (distinct (map msg_id (snd s @ held (fst s)))
     \<and> msg_id ` set (snd s @ held (fst s)) \<subseteq> n_seen (fst s))"

abbreviation account_ids :: "node_run \<Rightarrow> string list" where
  "account_ids s \<equiv> map msg_id (snd s @ held (fst s))"

lemma mset_account_ids: "mset (account_ids s) = image_mset msg_id (account s)"
  by (simp add: account_def multiset.map_comp)

lemma once_inv_ids:
  "once_inv s \<longleftrightarrow> distinct (account_ids s) \<and> set (account_ids s) \<subseteq> n_seen (fst s)"
  by (simp only: once_inv_def set_map)

lemma once_inv_step:
  assumes "once_inv s"
  shows "once_inv (node_step env s e)"
proof -
  let ?t = "node_step env s e"
  from node_step_account[of s env e] consider
    (same) "account ?t = account s" "n_seen (fst s) \<subseteq> n_seen (fst ?t)"
  | (new) m where "account ?t = add_mset m (account s)" "msg_id m \<notin> n_seen (fst s)"
      "n_seen (fst ?t) = insert (msg_id m) (n_seen (fst s))" unfolding accounts_for_def by blast
  then show ?thesis
  proof cases
    case same
    then have eq: "mset (account_ids ?t) = mset (account_ids s)" by (simp only: mset_account_ids)
    from assms same(2) mset_eq_setD[OF eq] mset_eq_imp_distinct_iff[OF eq] show ?thesis
      by (auto simp only: once_inv_ids)
  next
    case new
    then have eq: "mset (account_ids ?t) = mset (msg_id m # account_ids s)"
      by (simp only: mset_account_ids mset.simps image_mset_add_mset)
    from assms new(2,3) mset_eq_setD[OF eq] mset_eq_imp_distinct_iff[OF eq] show ?thesis
      by (auto simp only: once_inv_ids distinct.simps list.set)
  qed
qed

text \<open>Without enforced signatures nothing a node has seen is lost: every identifier it has
  seen is in the log or in the hold-back queue.\<close>

fun event_ids :: "node_event \<Rightarrow> string set" where
  "event_ids (EvReceive ta td m) = {msg_id m}"
| "event_ids (EvBroadcast m) = {msg_id m}"
| "event_ids _ = {}"

lemma node_step_seen: "n_seen (fst (node_step env s e)) = n_seen (fst s) \<union> event_ids e"
  by (cases s; cases e)
    (auto simp: receive_def do_broadcast_def deduplicate_def holdback_drain_def apply_vc_sync_def Let_def
      split: prod.splits if_splits bool.splits)

lemma node_step_enforce: "n_enforce (fst (node_step env s e)) = n_enforce (fst s)"
  by (cases s; cases e)
    (auto simp: receive_def do_broadcast_def deduplicate_def holdback_drain_def apply_vc_sync_def Let_def
      split: prod.splits if_splits bool.splits)

lemma run_seen: "n_seen (fst (foldl (node_step env) s es)) = n_seen (fst s) \<union> \<Union> (event_ids ` set es)"
  by (induction es arbitrary: s) (auto simp: node_step_seen)

lemma lossless_step:
  assumes "set (account_ids s) = n_seen (fst s)" "\<not> n_enforce (fst s)"
  shows "set (account_ids (node_step env s e)) = n_seen (fst (node_step env s e))"
proof -
  let ?t = "node_step env s e"
  from node_step_account[of s env e] assms(2) consider
    (same) "account ?t = account s" "n_seen (fst ?t) = n_seen (fst s)"
  | (new) m where "account ?t = add_mset m (account s)"
      "n_seen (fst ?t) = insert (msg_id m) (n_seen (fst s))" unfolding accounts_for_def by blast
  then show ?thesis
  proof cases
    case same
    then have "mset (account_ids ?t) = mset (account_ids s)" by (simp only: mset_account_ids)
    from mset_eq_setD[OF this] same(2) assms(1) show ?thesis by (simp only:)
  next
    case new
    then have "mset (account_ids ?t) = mset (msg_id m # account_ids s)"
      by (simp only: mset_account_ids mset.simps image_mset_add_mset)
    from mset_eq_setD[OF this] new(2) assms(1) show ?thesis by (simp only: list.set)
  qed
qed

lemma lossless_run:
  assumes "set (account_ids s) = n_seen (fst s)" "\<not> n_enforce (fst s)"
  shows "set (account_ids (foldl (node_step env) s es)) = n_seen (fst s) \<union> \<Union> (event_ids ` set es)"
proof -
  have "set (account_ids (foldl (node_step env) s es)) = n_seen (fst (foldl (node_step env) s es))"
    using assms
  proof (induction es arbitrary: s)
    case (Cons e es)
    then show ?case using lossless_step[OF Cons.prems] by (simp add: node_step_enforce del: node_step.simps set_map)
  qed (simp del: set_map)
  then show ?thesis by (simp only: run_seen)
qed

interpretation node_once: inv_system "node_step env" once_inv "\<lambda>_. True" for env
  by unfold_locales (rule once_inv_step)

lemma once_inv_new: "hb_queue (n_hold n) = [] \<Longrightarrow> once_inv (n, [])"
  by (simp add: once_inv_def)

section \<open>Causal order of a run without timeouts\<close>

text \<open>
  An event is well formed when a received message carries a vector clock and a broadcast
  message names this node as its sender. A run is timely when no drain of it finds a
  message past the hold-back timeout (and no clock is synchronised from outside).
\<close>

fun wf_event :: "string \<Rightarrow> node_event \<Rightarrow> bool" where
  "wf_event a (EvReceive ta td m) = stamped m"
| "wf_event a (EvBroadcast m) = (msg_sender m = a)"
| "wf_event a (EvDrain now) = True"
| "wf_event a (EvSync now vc) = True"

fun no_timeout :: "node_run \<Rightarrow> node_event \<Rightarrow> bool" where
  "no_timeout (n, lg) (EvReceive ta td m) = (overdue td (hb_add ta m (n_hold n)) = [])"
| "no_timeout (n, lg) (EvBroadcast m) = True"
| "no_timeout (n, lg) (EvDrain now) = (overdue now (n_hold n) = [])"
| "no_timeout (n, lg) (EvSync now vc) = False"

fun timely :: "node_env \<Rightarrow> node_run \<Rightarrow> node_event list \<Rightarrow> bool" where
  "timely env s [] = True"
| "timely env s (e # es) = (no_timeout s e \<and> timely env (node_step env s e) es)"

definition causal_inv :: "clock \<Rightarrow> node_run \<Rightarrow> bool" where
  "causal_inv c0 s = (wf_clock (n_vc (fst s)) \<and> clock_eq (n_vc (fst s)) (replay c0 (snd s))
     \<and> causal_run c0 (snd s) \<and> (\<forall>m \<in> set (snd s @ held (fst s)). stamped m))"

lemma node_step_address [simp]: "n_address (fst (node_step env s e)) = n_address (fst s)"
  by (cases s; cases e)
    (auto simp: receive_def do_broadcast_def deduplicate_def holdback_drain_def apply_vc_sync_def
      n_address_def Let_def split: prod.splits if_splits bool.splits)

lemma drain_stamped:
  assumes "drain now vc q = (vc', rel, q')" "\<forall>m \<in> set (map snd (hb_queue q)). stamped m"
  shows "\<forall>m \<in> set rel. stamped m" and "\<forall>m \<in> set (map snd (hb_queue q')). stamped m"
proof -
  have "set (map snd (hb_queue q)) = set rel \<union> set (map snd (hb_queue q'))"
    using arg_cong[OF drain_mset[OF assms(1)], of set_mset]
    by (simp only: set_mset_mset set_mset_union)
  then show "\<forall>m \<in> set rel. stamped m" and "\<forall>m \<in> set (map snd (hb_queue q')). stamped m"
    using assms(2) by blast+
qed

text \<open>A drain without overdue messages continues the causal log.\<close>

lemma causal_inv_drain:
  assumes d: "drain now vc q = (vc', rel, q')" and late: "overdue now q = []"
    and wf: "wf_clock vc" and eq: "clock_eq vc (replay c0 lg)" and run: "causal_run c0 lg"
    and st: "\<forall>m \<in> set lg. stamped m" "\<forall>m \<in> set (map snd (hb_queue q)). stamped m"
  shows "causal_inv c0 (n\<lparr>n_vc := vc', n_hold := q'\<rparr>, lg @ rel)"
proof -
  note ds = drain_stamped[OF d st(2)] and ext = causal_extend[OF eq run drain_causal[OF d late]]
  show ?thesis
    using ext[OF ds(1)] ds st(1) wf drain_clock[OF d] by (auto simp: causal_inv_def)
qed

lemma causal_inv_frame:
  "causal_inv c0 (n\<lparr>n_seen := S, n_vc := v, n_hold := q\<rparr>, lg) =
   causal_inv c0 (n\<lparr>n_vc := v, n_hold := q\<rparr>, lg)"
  by (simp add: causal_inv_def)

lemma causal_inv_receive:
  assumes inv: "causal_inv c0 (n, lg)" and stm: "stamped m"
    and late: "overdue td (hb_add ta m (n_hold n)) = []"
  shows "causal_inv c0 (node_step env (n, lg) (EvReceive ta td m))"
proof -
  from inv have wf: "wf_clock (n_vc n)" and eq: "clock_eq (n_vc n) (replay c0 lg)"
    and run: "causal_run c0 lg" and st: "\<forall>m \<in> set lg. stamped m" "\<forall>m \<in> set (held n). stamped m"
    by (auto simp: causal_inv_def)
  from late have late': "overdue td (n_hold n) = []" by (auto simp: hb_add_def)
  show ?thesis
  proof (cases "msg_id m \<in> n_seen n")
    case True
    then show ?thesis using inv by (simp add: receive_dup)
  next
    case new: False
    show ?thesis
    proof (cases "is_ready (n_vc n) m")
      case True
      obtain vc' rel q' where d: "drain td (deliver (n_vc n) m) (n_hold n) = (vc', rel, q')"
        by (cases "drain td (deliver (n_vc n) m) (n_hold n)") auto
      have "causal_inv c0 (n\<lparr>n_vc := vc', n_hold := q'\<rparr>, (lg @ [m]) @ rel)"
        by (rule causal_inv_drain[OF d late'])
          (use causal_extend[OF eq run, of "[m]"] True stm wf st in auto)
      with receive_ready[OF new True d, of env ta] show ?thesis
        by (auto simp: causal_inv_frame)
    next
      case False
      obtain vc' rel q' where d: "drain td (n_vc n) (hb_add ta m (n_hold n)) = (vc', rel, q')"
        by (cases "drain td (n_vc n) (hb_add ta m (n_hold n))") auto
      have "causal_inv c0 (n\<lparr>n_vc := vc', n_hold := q'\<rparr>, lg @ rel)"
        by (rule causal_inv_drain[OF d late wf eq run]) (use stm st in \<open>auto simp: hb_add_def\<close>)
      with receive_held[OF new False d, of env] show ?thesis
        by (auto simp: causal_inv_frame)
    qed
  qed
qed

lemma causal_inv_broadcast:
  assumes inv: "causal_inv c0 (n, lg)" and snd: "msg_sender m = n_address n"
  shows "causal_inv c0 (node_step env (n, lg) (EvBroadcast m))"
proof -
  from inv have wf: "wf_clock (n_vc n)" and eq: "clock_eq (n_vc n) (replay c0 lg)"
    and run: "causal_run c0 lg" and st: "\<forall>m \<in> set lg. stamped m" "\<forall>m \<in> set (held n). stamped m"
    by (auto simp: causal_inv_def)
  let ?c = "increment (n_vc n) (n_address n)"
  show ?thesis
  proof (cases "msg_id m \<in> n_seen n \<or> \<not> fst (sign_outgoing env n m)")
    case True
    then have "node_step env (n, lg) (EvBroadcast m) = (n, lg)
        \<or> node_step env (n, lg) (EvBroadcast m) = (n\<lparr>n_seen := insert (msg_id m) (n_seen n)\<rparr>, lg)"
      by (cases "msg_id m \<in> n_seen n") (auto simp: do_broadcast_dup do_broadcast_unsigned)
    then show ?thesis using inv by (elim disjE) (simp_all add: causal_inv_def)
  next
    case False
    then obtain m1 where new: "msg_id m \<notin> n_seen n" and sg: "sign_outgoing env n m = (True, m1)"
      by (cases "sign_outgoing env n m") auto
    let ?m = "m1\<lparr>msg_vector_clock := ?c\<rparr>"
    have own: "stamped ?m" "is_ready (n_vc n) ?m" "clock_eq (deliver (n_vc n) ?m) ?c"
      using own_stamp[OF wf, of ?m "n_address n"] sign_outgoing_fields[OF sg] snd by auto
    have ext: "causal_run c0 (lg @ [?m])" "clock_eq (deliver (n_vc n) ?m) (replay c0 (lg @ [?m]))"
      using causal_extend[OF eq run, of "[?m]"] own by auto
    have "clock_eq ?c (replay c0 (lg @ [?m]))"
      by (rule clock_eq_trans[OF clock_eq_sym[OF own(3)] ext(2)])
    then have "causal_inv c0 (n\<lparr>n_seen := insert (msg_id m) (n_seen n), n_vc := ?c\<rparr>, lg @ [?m])"
      using ext(1) own(1) st wf by (auto simp: causal_inv_def)
    with do_broadcast_sent[OF new sg] show ?thesis by auto
  qed
qed

lemma causal_inv_holdback_drain:
  assumes inv: "causal_inv c0 (n, lg)" and late: "overdue now (n_hold n) = []"
  shows "causal_inv c0 (node_step env (n, lg) (EvDrain now))"
proof -
  obtain vc' rel q' where d: "drain now (n_vc n) (n_hold n) = (vc', rel, q')"
    by (cases "drain now (n_vc n) (n_hold n)") auto
  have "causal_inv c0 (n\<lparr>n_vc := vc', n_hold := q'\<rparr>, lg @ rel)"
    by (rule causal_inv_drain[OF d late]) (use inv in \<open>auto simp: causal_inv_def\<close>)
  with holdback_drain_eq[OF d] show ?thesis by simp
qed

lemma causal_inv_step:
  assumes "causal_inv c0 (n, lg)" "wf_event (n_address n) e" "no_timeout (n, lg) e"
  shows "causal_inv c0 (node_step env (n, lg) e)"
proof (cases e)
  case (EvReceive ta td m)
  with assms show ?thesis by (simp only: wf_event.simps no_timeout.simps causal_inv_receive)
next
  case (EvBroadcast m)
  with assms show ?thesis by (simp only: wf_event.simps causal_inv_broadcast)
next
  case (EvDrain now)
  with assms show ?thesis by (simp only: no_timeout.simps causal_inv_holdback_drain)
qed (use assms in simp)

lemma causal_inv_run:
  "causal_inv c0 s \<Longrightarrow> timely env s es \<Longrightarrow> \<forall>e \<in> set es. wf_event (n_address (fst s)) e
     \<Longrightarrow> causal_inv c0 (foldl (node_step env) s es)"
proof (induction es arbitrary: s)
  case (Cons e es)
  obtain n lg where s: "s = (n, lg)" by (cases s)
  have "causal_inv c0 (node_step env s e)"
    using Cons.prems s by (auto intro: causal_inv_step)
  then show ?case using Cons by (simp del: node_step.simps)
qed simp

lemma causal_inv_start:
  "wf_clock (n_vc n) \<Longrightarrow> \<forall>m \<in> set (held n). stamped m \<Longrightarrow> causal_inv (n_vc n) (n, [])"
  by (simp add: causal_inv_def)

end
