(* ===== verification/Causal_Delivery.thy ===== *)
theory Causal_Delivery
  imports Broadcast_Node
begin

text \<open>
  A network of broadcast nodes. Every node runs the handlers of \<open>Broadcast_Node\<close>; the
  network may lose, delay, reorder and duplicate messages, and hands a node any copy of
  any message that was broadcast (encryption, signatures and the hop count change a copy,
  its identifier, sender and vector clock do not). Identifiers are fresh, as
  \<open>uuid.uuid4()\<close> provides. The runs considered are those in which no hold-back timeout
  fires and no clock is synchronised from history.

  Shown: every node delivers, per sender, a gap-free prefix of what that sender broadcast,
  in order; and whatever a sender had delivered or sent before it broadcast a message is
  delivered before that message at every other node.
\<close>

section \<open>The system\<close>

record sys =
  sys_nodes :: "addr \<Rightarrow> node_run"
  sys_sent :: "string \<Rightarrow> message list"

definition wire_copy :: "message \<Rightarrow> message \<Rightarrow> bool" where
  "wire_copy m m' = (msg_id m' = msg_id m \<and> msg_sender m' = msg_sender m
     \<and> msg_vector_clock m' = msg_vector_clock m)"

definition sys_init :: "sys \<Rightarrow> bool" where
  "sys_init s = ((\<forall>hp. \<exists>enf cb r. sys_nodes s hp = ((new_node (fst hp) (snd hp) enf)\<lparr>n_callback := cb, n_running := r\<rparr>, []))
     \<and> (\<forall>q. sys_sent s q = []))"

inductive sys_step :: "(addr \<Rightarrow> node_env) \<Rightarrow> sys \<Rightarrow> sys \<Rightarrow> bool" for envs where
  sys_broadcast:
    "msg_sender m = addr_str hp \<Longrightarrow> \<forall>q. msg_id m \<notin> msg_id ` set (sys_sent s q)
     \<Longrightarrow> sys_nodes s hp = (n, lg) \<Longrightarrow> node_step (envs hp) (n, lg) (EvBroadcast m) = (n', lg')
     \<Longrightarrow> sys_step envs s (s\<lparr>sys_nodes := (sys_nodes s)(hp := (n', lg')),
           sys_sent := (sys_sent s)(addr_str hp := sys_sent s (addr_str hp) @ drop (length lg) lg')\<rparr>)"
| sys_receive:
    "m \<in> set (sys_sent s q) \<Longrightarrow> wire_copy m m' \<Longrightarrow> sys_nodes s hp = (n, lg)
     \<Longrightarrow> no_timeout (n, lg) (EvReceive ta td m')
     \<Longrightarrow> node_step (envs hp) (n, lg) (EvReceive ta td m') = (n', lg')
     \<Longrightarrow> sys_step envs s (s\<lparr>sys_nodes := (sys_nodes s)(hp := (n', lg'))\<rparr>)"
| sys_drain:
    "sys_nodes s hp = (n, lg) \<Longrightarrow> no_timeout (n, lg) (EvDrain now)
     \<Longrightarrow> node_step (envs hp) (n, lg) (EvDrain now) = (n', lg')
     \<Longrightarrow> sys_step envs s (s\<lparr>sys_nodes := (sys_nodes s)(hp := (n', lg'))\<rparr>)"

inductive sys_reach :: "(addr \<Rightarrow> node_env) \<Rightarrow> sys \<Rightarrow> bool" for envs where
  reach_init: "sys_init s \<Longrightarrow> sys_reach envs s"
| reach_step: "sys_reach envs s \<Longrightarrow> sys_step envs s t \<Longrightarrow> sys_reach envs t"

abbreviation sys_log :: "sys \<Rightarrow> addr \<Rightarrow> message list" where
  "sys_log s hp \<equiv> snd (sys_nodes s hp)"

section \<open>The invariant\<close>

text \<open>A node's own messages carry exactly the clock of what it had delivered.\<close>

fun own_exact :: "string \<Rightarrow> clock \<Rightarrow> message list \<Rightarrow> bool" where
  "own_exact a c [] = True"
| "own_exact a c (m # ms) =
     ((msg_sender m = a \<longrightarrow> clock_eq (msg_vector_clock m) (deliver c m)) \<and> own_exact a (deliver c m) ms)"

definition known :: "(string \<Rightarrow> message list) \<Rightarrow> message \<Rightarrow> bool" where
  "known sent m = (\<exists>m0 \<in> set (sent (msg_sender m)). wire_copy m0 m)"

definition sent_ok :: "(string \<Rightarrow> message list) \<Rightarrow> bool" where
  "sent_ok sent =
     ((\<forall>q i. i < length (sent q) \<longrightarrow> msg_sender (sent q ! i) = q \<and> stamped (sent q ! i)
         \<and> msg_seq (sent q ! i) = int i + 1)
      \<and> (\<forall>q r. \<forall>m \<in> set (sent q). \<forall>m' \<in> set (sent r). msg_id m = msg_id m' \<longrightarrow> m = m'))"

definition node_ok :: "(string \<Rightarrow> message list) \<Rightarrow> addr \<Rightarrow> node_run \<Rightarrow> bool" where
  "node_ok sent hp s =
     (n_address (fst s) = addr_str hp \<and> causal_inv [] s
      \<and> (\<forall>m \<in> set (snd s). known sent m) \<and> (\<forall>m \<in> set (held (fst s)). known sent m)
      \<and> own_exact (addr_str hp) [] (snd s)
      \<and> msg_id ` set (sent (addr_str hp)) \<subseteq> n_seen (fst s)
      \<and> (\<forall>m \<in> set (held (fst s)). msg_sender m \<noteq> addr_str hp)
      \<and> length (from_sender (addr_str hp) (snd s)) = length (sent (addr_str hp)))"

definition sys_inv :: "sys \<Rightarrow> bool" where
  "sys_inv s = (sent_ok (sys_sent s) \<and> (\<forall>hp. node_ok (sys_sent s) hp (sys_nodes s hp)))"

lemma own_exact_append:
  "own_exact a c (xs @ ys) = (own_exact a c xs \<and> own_exact a (replay c xs) ys)"
  by (induction xs arbitrary: c) auto

lemma own_exact_others: "\<forall>m \<in> set ms. msg_sender m \<noteq> a \<Longrightarrow> own_exact a c ms"
  by (induction ms arbitrary: c) auto

lemma sys_inv_init: "sys_init s \<Longrightarrow> sys_inv s"
proof -
  assume init: "sys_init s"
  then have sent: "sys_sent s = (\<lambda>_. [])" by (auto simp: sys_init_def)
  have "node_ok (\<lambda>_. []) hp (sys_nodes s hp)" for hp
  proof -
    from init obtain enf cb r where "sys_nodes s hp = ((new_node (fst hp) (snd hp) enf)\<lparr>n_callback := cb, n_running := r\<rparr>, [])"
      unfolding sys_init_def by blast
    then show ?thesis
      by (simp add: node_ok_def causal_inv_def new_node_def new_holdback_def n_address_def)
  qed
  then show ?thesis by (simp add: sys_inv_def sent sent_ok_def)
qed

section \<open>What a step does to a node\<close>

text \<open>Receiving or draining appends released messages, all of them held before or just
  received.\<close>

lemma receive_effect:
  assumes "node_step env (n, lg) (EvReceive ta td m) = (n', lg')"
  shows "n' = n \<and> lg' = lg \<or>
    msg_id m \<notin> n_seen n \<and> n_seen n \<subseteq> n_seen n' \<and>
    (\<exists>ms. lg' = lg @ ms \<and> set ms \<union> set (held n') = insert m (set (held n)))"
proof (cases "msg_id m \<in> n_seen n")
  case True
  then show ?thesis using assms by (simp add: receive_dup)
next
  case new: False
  show ?thesis
  proof (cases "is_ready (n_vc n) m")
    case True
    obtain vc' rel q' where d: "drain td (deliver (n_vc n) m) (n_hold n) = (vc', rel, q')"
      by (cases "drain td (deliver (n_vc n) m) (n_hold n)") auto
    from receive_ready[OF new True d] obtain f where "receive env ta td n m =
        (n\<lparr>n_seen := insert (msg_id m) (n_seen n), n_vc := vc', n_hold := q'\<rparr>, m # rel, f, True)"
      by blast
    with assms new arg_cong[OF drain_mset[OF d], of set_mset] show ?thesis by auto
  next
    case False
    obtain vc' rel q' where d: "drain td (n_vc n) (hb_add ta m (n_hold n)) = (vc', rel, q')"
      by (cases "drain td (n_vc n) (hb_add ta m (n_hold n))") auto
    from receive_held[OF new False d] obtain f where "receive env ta td n m =
        (n\<lparr>n_seen := insert (msg_id m) (n_seen n), n_vc := vc', n_hold := q'\<rparr>, rel, f, True)"
      by blast
    with assms new arg_cong[OF drain_mset[OF d], of set_mset] show ?thesis
      by (auto simp: hb_add_def)
  qed
qed

lemma drain_effect:
  assumes "node_step env (n, lg) (EvDrain now) = (n', lg')"
  shows "n_seen n' = n_seen n \<and> (\<exists>ms. lg' = lg @ ms \<and> set ms \<union> set (held n') = set (held n))"
proof -
  obtain vc' rel q' where d: "drain now (n_vc n) (n_hold n) = (vc', rel, q')"
    by (cases "drain now (n_vc n) (n_hold n)") auto
  from holdback_drain_eq[OF d] assms arg_cong[OF drain_mset[OF d], of set_mset] show ?thesis by auto
qed

lemma broadcast_effect:
  assumes "node_step env (n, lg) (EvBroadcast m) = (n', lg')"
  shows "(lg' = lg \<and> n_vc n' = n_vc n \<or>
      (\<exists>m'. lg' = lg @ [m'] \<and> msg_id m' = msg_id m \<and> msg_sender m' = msg_sender m
        \<and> msg_vector_clock m' = increment (n_vc n) (n_address n)))
    \<and> n_hold n' = n_hold n \<and> (lg' \<noteq> lg \<longrightarrow> msg_id m \<in> n_seen n') \<and> n_seen n \<subseteq> n_seen n'"
proof (cases "msg_id m \<in> n_seen n")
  case True
  then show ?thesis using assms by (simp add: do_broadcast_dup)
next
  case new: False
  obtain ok m1 where sg: "sign_outgoing env n m = (ok, m1)" by fastforce
  show ?thesis
  proof (cases ok)
    case True
    with sg have "sign_outgoing env n m = (True, m1)" by simp
    from do_broadcast_sent[OF new this] obtain f where "do_broadcast env n m =
        (n\<lparr>n_seen := insert (msg_id m) (n_seen n), n_vc := increment (n_vc n) (n_address n)\<rparr>,
         [m1\<lparr>msg_vector_clock := increment (n_vc n) (n_address n)\<rparr>], f, True)" by blast
    with assms sign_outgoing_fields[OF sg] show ?thesis by auto
  next
    case False
    with sg new assms show ?thesis by (auto simp: do_broadcast_unsigned)
  qed
qed

section \<open>The invariant is preserved\<close>

lemma known_mono: "known sent m \<Longrightarrow> known (sent(q := sent q @ ms)) m"
  by (auto simp: known_def)

lemma node_step_addr: "node_step env (n, lg) e = (n', lg') \<Longrightarrow> n_address n' = n_address n"
  by (metis fst_conv node_step_address)

text \<open>A node that appends messages of other senders stays consistent.\<close>

lemma node_ok_extend:
  assumes ok: "node_ok sent hp (n, lg)" and addr: "n_address n' = n_address n"
    and inv: "causal_inv [] (n', lg @ ms)" and seen: "n_seen n \<subseteq> n_seen n'"
    and new: "set ms \<union> set (held n') \<subseteq> X" and X: "\<forall>m \<in> X. known sent m \<and> msg_sender m \<noteq> addr_str hp"
  shows "node_ok sent hp (n', lg @ ms)"
proof -
  have "\<forall>m \<in> set ms. msg_sender m \<noteq> addr_str hp" using new X by auto
  then have "own_exact (addr_str hp) c ms" "from_sender (addr_str hp) ms = []" for c
    by (auto intro: own_exact_others simp: filter_empty_conv)
  moreover have "\<forall>m \<in> set ms. known sent m" "\<forall>m \<in> set (held n'). known sent m \<and> msg_sender m \<noteq> addr_str hp"
    using new X by blast+
  ultimately show ?thesis
    using ok addr inv seen unfolding node_ok_def by (auto simp: own_exact_append)
qed

lemma node_ok_receive:
  assumes sok: "sent_ok sent" and ok: "node_ok sent hp (n, lg)"
    and m: "m \<in> set (sent q)" and cp: "wire_copy m m'"
    and nt: "no_timeout (n, lg) (EvReceive ta td m')"
    and st: "node_step env (n, lg) (EvReceive ta td m') = (n', lg')"
  shows "node_ok sent hp (n', lg')"
proof -
  from m obtain i where i: "i < length (sent q)" "m = sent q ! i" by (auto simp: in_set_conv_nth)
  with sok have mq: "msg_sender m = q" "stamped m" by (auto simp: sent_ok_def)
  with cp m have kn: "known sent m'" and stm: "stamped m'" and snd: "msg_sender m' = q"
    by (auto simp: known_def wire_copy_def stamped_def)
  have cinv: "causal_inv [] (n', lg')"
    unfolding st[symmetric]
    by (rule causal_inv_receive) (use ok nt stm in \<open>simp_all only: node_ok_def no_timeout.simps\<close>)
  from receive_effect[OF st] consider "n' = n" "lg' = lg"
    | ms where "msg_id m' \<notin> n_seen n" "n_seen n \<subseteq> n_seen n'" "lg' = lg @ ms"
        "set ms \<union> set (held n') = insert m' (set (held n))" by blast
  then show ?thesis
  proof cases
    case 1
    then show ?thesis using ok by simp
  next
    case 2
    have "q \<noteq> addr_str hp"
      using ok m cp 2(1) by (auto simp: node_ok_def wire_copy_def)
    then have X: "\<forall>x \<in> insert m' (set (held n)). known sent x \<and> msg_sender x \<noteq> addr_str hp"
      using kn snd ok by (auto simp: node_ok_def)
    show ?thesis
      unfolding 2(3)
      by (rule node_ok_extend[OF ok node_step_addr[OF st] _ 2(2) eq_refl[OF 2(4)] X])
        (use cinv 2(3) in simp)
  qed
qed

lemma node_ok_drain:
  assumes ok: "node_ok sent hp (n, lg)" and nt: "no_timeout (n, lg) (EvDrain now)"
    and st: "node_step env (n, lg) (EvDrain now) = (n', lg')"
  shows "node_ok sent hp (n', lg')"
proof -
  have cinv: "causal_inv [] (n', lg')"
    unfolding st[symmetric]
    by (rule causal_inv_holdback_drain) (use ok nt in \<open>simp_all only: node_ok_def no_timeout.simps\<close>)
  from drain_effect[OF st] obtain ms where ms: "n_seen n' = n_seen n" "lg' = lg @ ms"
    "set ms \<union> set (held n') = set (held n)" by blast
  have X: "\<forall>x \<in> set (held n). known sent x \<and> msg_sender x \<noteq> addr_str hp"
    using ok by (auto simp: node_ok_def)
  show ?thesis
    unfolding ms(2)
    by (rule node_ok_extend[OF ok node_step_addr[OF st] _ _ eq_refl[OF ms(3)] X])
      (use cinv ms in auto)
qed

lemma sent_ok_extend:
  assumes sok: "sent_ok sent" and fresh: "\<forall>q. msg_id m \<notin> msg_id ` set (sent q)"
    and m: "msg_sender m = a" "stamped m" "msg_seq m = int (length (sent a)) + 1"
  shows "sent_ok (sent(a := sent a @ [m]))"
proof -
  let ?s = "sent(a := sent a @ [m])"
  have ne: "msg_id x \<noteq> msg_id m" if "x \<in> set (sent q)" for x q using fresh that by (metis imageI)
  from sok have old: "msg_sender (sent q ! i) = q \<and> stamped (sent q ! i) \<and> msg_seq (sent q ! i) = int i + 1"
    if "i < length (sent q)" for q i using that unfolding sent_ok_def by blast
  have "msg_sender (?s q ! i) = q \<and> stamped (?s q ! i) \<and> msg_seq (?s q ! i) = int i + 1"
    if "i < length (?s q)" for q i
    using that old[of i q] m by (cases "q = a \<and> i = length (sent a)") (auto simp: nth_append split: if_splits)
  moreover have "x = y" if "x \<in> set (?s q)" "y \<in> set (?s r)" "msg_id x = msg_id y" for x y q r
  proof -
    from that(1,2) consider "x = m" "y = m" | q' where "x = m" "y \<in> set (sent q')"
      | q' where "x \<in> set (sent q')" "y = m" | q' r' where "x \<in> set (sent q')" "y \<in> set (sent r')"
      by (auto split: if_splits)
    then show ?thesis using ne[of x] ne[of y] that(3) sok unfolding sent_ok_def by cases metis+
  qed
  ultimately show ?thesis unfolding sent_ok_def by blast
qed

lemma node_ok_other:
  assumes "node_ok sent hp s" "hp \<noteq> hq"
  shows "node_ok (sent(addr_str hq := sent (addr_str hq) @ ms)) hp s"
  using assms by (auto simp: node_ok_def intro: known_mono)

lemma node_ok_broadcast:
  assumes sok: "sent_ok sent" and ok: "node_ok sent hp (n, lg)"
    and m: "msg_sender m = addr_str hp" and fresh: "\<forall>q. msg_id m \<notin> msg_id ` set (sent q)"
    and st: "node_step env (n, lg) (EvBroadcast m) = (n', lg')"
  defines "sent' \<equiv> sent(addr_str hp := sent (addr_str hp) @ drop (length lg) lg')"
  shows "sent_ok sent' \<and> node_ok sent' hp (n', lg')"
proof -
  let ?a = "addr_str hp"
  from ok have addr: "n_address n = ?a" and inv: "causal_inv [] (n, lg)"
    and own: "own_exact ?a [] lg" by (auto simp: node_ok_def)
  have cinv: "causal_inv [] (n', lg')"
    unfolding st[symmetric] by (rule causal_inv_broadcast[OF inv]) (simp add: m addr)
  have addr': "n_address n' = ?a" using node_step_addr[OF st] addr by simp
  from broadcast_effect[OF st] consider (none) "lg' = lg" "n_hold n' = n_hold n" "n_seen n \<subseteq> n_seen n'"
    | (sent) m' where "lg' = lg @ [m']" "msg_id m' = msg_id m" "msg_sender m' = msg_sender m"
        "msg_vector_clock m' = increment (n_vc n) (n_address n)" "n_hold n' = n_hold n"
        "msg_id m \<in> n_seen n'" "n_seen n \<subseteq> n_seen n'" by auto
  then show ?thesis
  proof cases
    case none
    then have "sent' = sent" by (simp add: sent'_def)
    then show ?thesis using sok ok addr' cinv none by (auto simp: node_ok_def)
  next
    case (sent m')
    have sent': "sent' = sent(?a := sent ?a @ [m'])" by (simp add: sent'_def sent(1))
    from inv have wf: "wf_clock (n_vc n)" and eq: "clock_eq (n_vc n) (replay [] lg)"
      and run: "causal_run [] lg" and stl: "\<forall>x \<in> set lg. stamped x" by (auto simp: causal_inv_def)
    have snd': "msg_sender m' = ?a" using sent m by simp
    note os = own_stamp[OF wf snd' sent(4)[unfolded addr]]
    have len: "vc_get (n_vc n) ?a = int (length (sent ?a))"
      using eq causal_run_seqs(2)[OF _ run stl, of ?a] ok by (simp add: clock_eq_def node_ok_def)
    then have seq: "msg_seq m' = int (length (sent ?a)) + 1" using sent(4) addr snd' by simp
    have ex: "clock_eq (msg_vector_clock m') (deliver (replay [] lg) m')"
      using clock_eq_trans[OF clock_eq_sym[OF os(3)] clock_eq_deliver[OF os(1) eq]] sent(4) addr by simp
    have "known sent' m'" by (auto simp: known_def sent' snd' wire_copy_def)
    moreover have "known sent' x" if "known sent x" for x using that by (simp add: sent' known_mono)
    ultimately have "node_ok sent' hp (n', lg')"
      using ok addr' cinv sent snd' own ex
      by (auto simp: node_ok_def own_exact_append sent')
    moreover have "sent_ok sent'"
      unfolding sent' by (rule sent_ok_extend[OF sok _ snd' os(1) seq]) (use fresh sent(2) in simp)
    ultimately show ?thesis by simp
  qed
qed

lemma sys_inv_step:
  assumes "sys_step envs s t" "sys_inv s"
  shows "sys_inv t"
  using assms
proof (induction rule: sys_step.induct)
  case (sys_broadcast m hp s n lg n' lg')
  from sys_broadcast.prems have "node_ok (sys_sent s) hp (n, lg)" "sent_ok (sys_sent s)"
    using sys_broadcast.hyps(3) unfolding sys_inv_def by metis+
  from node_ok_broadcast[OF this(2,1) sys_broadcast.hyps(1,2,4)] sys_broadcast.prems show ?case
    by (simp add: sys_inv_def node_ok_other)
next
  case (sys_receive m s q m' hp n lg ta td n' lg')
  then have "node_ok (sys_sent s) hp (n, lg)" "sent_ok (sys_sent s)" unfolding sys_inv_def by metis+
  from node_ok_receive[OF this(2,1) sys_receive.hyps(1,2,4,5)] sys_receive.prems show ?case
    by (simp add: sys_inv_def)
next
  case (sys_drain s hp n lg now n' lg')
  then have "node_ok (sys_sent s) hp (n, lg)" unfolding sys_inv_def by metis
  from node_ok_drain[OF this sys_drain.hyps(2,3)] sys_drain.prems show ?case
    by (simp add: sys_inv_def)
qed

lemma sys_reach_inv: "sys_reach envs s \<Longrightarrow> sys_inv s"
  by (induction rule: sys_reach.induct) (auto intro: sys_inv_init sys_inv_step)

section \<open>Consequences\<close>

text \<open>What a causal log holds of one sender is the beginning of what that sender sent.\<close>

lemma sender_prefix:
  assumes sok: "sent_ok sent" and run: "causal_run [] xs"
    and st: "\<forall>m \<in> set xs. stamped m" and kn: "\<forall>m \<in> set xs. known sent m"
    and k_def: "k = length (from_sender r xs)"
  shows "k \<le> length (sent r)" and "map msg_id (from_sender r xs) = map msg_id (take k (sent r))"
proof -
  have nth: "i < length (sent r) \<and> msg_id (from_sender r xs ! i) = msg_id (sent r ! i)"
    if i: "i < k" for i
  proof -
    let ?m = "from_sender r xs ! i"
    have "?m \<in> set (from_sender r xs)" using i by (simp only: k_def nth_mem)
    then have m: "?m \<in> set xs" "msg_sender ?m = r" unfolding set_filter by blast+
    with kn obtain m0 where m0: "m0 \<in> set (sent r)" "wire_copy m0 ?m" by (auto simp: known_def)
    then obtain j where j: "j < length (sent r)" "m0 = sent r ! j" by (auto simp: in_set_conv_nth)
    have "map msg_seq (from_sender r xs) ! i = int i + 1"
      using causal_run_seqs(1)[OF _ run st, of r] i by (simp add: k_def)
    then have "msg_seq ?m = int i + 1" using i by (simp add: k_def)
    moreover have "msg_seq m0 = int j + 1" using sok j unfolding sent_ok_def by blast
    moreover have "msg_seq m0 = msg_seq ?m" using m0(2) by (simp add: wire_copy_def)
    ultimately have "i = j" by simp
    with j m0(2) show ?thesis by (simp add: wire_copy_def)
  qed
  show le: "k \<le> length (sent r)" using nth[of "k - 1"] by (cases k) auto
  show "map msg_id (from_sender r xs) = map msg_id (take k (sent r))"
    using nth le by (intro nth_equalityI) (auto simp: k_def)
qed

lemma sys_log_facts:
  assumes "sys_reach envs s"
  shows "sent_ok (sys_sent s)"
    and "causal_run [] (sys_log s hp)"
    and "\<forall>m \<in> set (sys_log s hp). stamped m" and "\<forall>m \<in> set (sys_log s hp). known (sys_sent s) m"
    and "own_exact (addr_str hp) [] (sys_log s hp)"
proof -
  have inv: "sent_ok (sys_sent s)" "node_ok (sys_sent s) hp (sys_nodes s hp)"
    using sys_reach_inv[OF assms] unfolding sys_inv_def by blast+
  then show "sent_ok (sys_sent s)" and "causal_run [] (sys_log s hp)"
    and "\<forall>m \<in> set (sys_log s hp). stamped m" and "\<forall>m \<in> set (sys_log s hp). known (sys_sent s) m"
    and "own_exact (addr_str hp) [] (sys_log s hp)"
    unfolding node_ok_def causal_inv_def by auto
qed

lemma known_same_id:
  assumes "sent_ok sent" "known sent m" "known sent m'" "msg_id m = msg_id m'"
  shows "msg_vector_clock m = msg_vector_clock m'" and "msg_sender m = msg_sender m'"
proof -
  from assms(2,3) obtain m0 m0' where "m0 \<in> set (sent (msg_sender m))" "wire_copy m0 m"
    "m0' \<in> set (sent (msg_sender m'))" "wire_copy m0' m'" by (auto simp: known_def)
  moreover from this assms(1,4) have "m0 = m0'" unfolding sent_ok_def wire_copy_def by metis
  ultimately show "msg_vector_clock m = msg_vector_clock m'" and "msg_sender m = msg_sender m'"
    by (auto simp: wire_copy_def)
qed

text \<open>A ready message finds in the log at least as many messages of every sender as its own
  sender had delivered.\<close>

lemma counts_le:
  assumes L: "causal_run [] (L @ [m])" "\<forall>x \<in> set (L @ [m]). stamped x"
    and own: "clock_eq (msg_vector_clock m) (deliver (replay [] L) m)"
    and A: "causal_run [] (A @ [m'])" "\<forall>x \<in> set (A @ [m']). stamped x"
    and eq: "msg_vector_clock m = msg_vector_clock m'" "msg_sender m = msg_sender m'"
  shows "length (from_sender r L) \<le> length (from_sender r A)"
proof -
  have r: "is_ready (replay [] L) m" "is_ready (replay [] A) m'"
    and c: "causal_run [] L" "causal_run [] A" using L A by (auto simp: causal_run_append)
  have st: "stamped m" "stamped m'" "\<forall>x \<in> set L. stamped x" "\<forall>x \<in> set A. stamped x"
    using L A by auto
  have cnt: "vc_get (replay [] L) r = int (length (from_sender r L))"
    "vc_get (replay [] A) r = int (length (from_sender r A))"
    using causal_run_seqs(2)[OF _ c(1) st(3), of r] causal_run_seqs(2)[OF _ c(2) st(4), of r] by auto
  have v: "vc_get (msg_vector_clock m) r =
      vc_get (replay [] L) r + (if r = msg_sender m then 1 else 0)"
    using own deliver_ready[OF _ st(1) r(1), of r] by (simp add: clock_eq_def)
  have "vc_get (msg_vector_clock m') r \<le> vc_get (replay [] A) r + (if r = msg_sender m' then 1 else 0)"
    using is_ready_iff[of "replay [] A" m'] r(2) st(2) by (auto simp: stamped_def)
  with v eq cnt show ?thesis by (simp split: if_splits)
qed

lemma causal_past_first:
  assumes reach: "sys_reach envs s"
    and q: "sys_log s hq = L @ m2 # R" "msg_sender m2 = addr_str hq"
    and p: "sys_log s hp = A @ m2' # B" "msg_id m2' = msg_id m2" and m1: "m1 \<in> set L"
  shows "msg_id m1 \<in> msg_id ` set A"
proof -
  note fq = sys_log_facts(1)[OF reach] sys_log_facts(2-5)[OF reach, of hq, unfolded q(1)]
    and fp = sys_log_facts(1)[OF reach] sys_log_facts(2-5)[OF reach, of hp, unfolded p(1)]
  have kn: "known (sys_sent s) m2" "known (sys_sent s) m2'" using fq(4) fp(4) by auto
  note same = known_same_id[OF fq(1) kn p(2)[symmetric]]
  have cL: "causal_run [] (L @ [m2])" "causal_run [] L" and cA: "causal_run [] (A @ [m2'])" "causal_run [] A"
    using fq(2) fp(2) by (auto simp: causal_run_append)
  have ex: "clock_eq (msg_vector_clock m2) (deliver (replay [] L) m2)"
    using fq(5) q(2) by (simp add: own_exact_append)
  let ?r = "msg_sender m1"
  have le: "length (from_sender ?r L) \<le> length (from_sender ?r A)"
    by (rule counts_le[OF cL(1) _ ex cA(1) _ same]) (use fq(3) fp(3) in auto)
  have pre: "map msg_id (from_sender ?r xs) = map msg_id (take (length (from_sender ?r xs)) (sys_sent s ?r))"
    if "xs = L \<or> xs = A" for xs
    by (rule sender_prefix(2)[OF fq(1) _ _ _ refl]) (use that cL(2) cA(2) fq(3,4) fp(3,4) in auto)
  have "msg_id m1 \<in> set (map msg_id (from_sender ?r L))" using m1 by auto
  also have "\<dots> \<subseteq> set (map msg_id (from_sender ?r A))"
    unfolding pre[OF disjI1[OF refl]] pre[OF disjI2[OF refl]]
    by (simp only: set_map) (rule image_mono, rule set_take_subset_set_take[OF le])
  finally show ?thesis by auto
qed

section \<open>Running the system\<close>

text \<open>The steps as functions, to build concrete runs.\<close>

definition run_broadcast :: "(addr \<Rightarrow> node_env) \<Rightarrow> addr \<Rightarrow> message \<Rightarrow> sys \<Rightarrow> sys" where
  "run_broadcast envs hp m s =
     (let r = node_step (envs hp) (sys_nodes s hp) (EvBroadcast m)
      in s\<lparr>sys_nodes := (sys_nodes s)(hp := r),
           sys_sent := (sys_sent s)(addr_str hp :=
             sys_sent s (addr_str hp) @ drop (length (sys_log s hp)) (snd r))\<rparr>)"

definition run_receive :: "(addr \<Rightarrow> node_env) \<Rightarrow> addr \<Rightarrow> time \<Rightarrow> message \<Rightarrow> sys \<Rightarrow> sys" where
  "run_receive envs hp now m s =
     s\<lparr>sys_nodes := (sys_nodes s)(hp := node_step (envs hp) (sys_nodes s hp) (EvReceive now now m))\<rparr>"

definition idle_sys :: sys where
  "idle_sys = \<lparr>sys_nodes = (\<lambda>hp. (new_node (fst hp) (snd hp) False, [])), sys_sent = (\<lambda>_. [])\<rparr>"

lemma sent_broadcast_other: "q \<noteq> addr_str hp \<Longrightarrow> sys_sent (run_broadcast envs hp m s) q = sys_sent s q"
  by (simp add: run_broadcast_def Let_def)

lemma sent_receive [simp]: "sys_sent (run_receive envs hp now m s) = sys_sent s"
  by (simp add: run_receive_def)

lemma reach_idle: "sys_reach envs idle_sys"
  by (rule reach_init) (auto simp: sys_init_def idle_sys_def new_node_def)

lemma reach_broadcast:
  assumes "sys_reach envs s" "msg_sender m = addr_str hp" "\<forall>q. msg_id m \<notin> msg_id ` set (sys_sent s q)"
  shows "sys_reach envs (run_broadcast envs hp m s)"
proof (rule reach_step[OF assms(1)])
  obtain n lg n' lg' where n: "sys_nodes s hp = (n, lg)"
    "node_step (envs hp) (n, lg) (EvBroadcast m) = (n', lg')" by (metis prod.collapse)
  then have "run_broadcast envs hp m s = s\<lparr>sys_nodes := (sys_nodes s)(hp := (n', lg')),
      sys_sent := (sys_sent s)(addr_str hp := sys_sent s (addr_str hp) @ drop (length lg) lg')\<rparr>"
    by (simp add: run_broadcast_def Let_def del: node_step.simps)
  with sys_broadcast[where envs = envs, OF assms(2,3) n] show "sys_step envs s (run_broadcast envs hp m s)" by simp
qed

lemma reach_receive:
  assumes "sys_reach envs s" "m \<in> set (sys_sent s q)" "no_timeout (sys_nodes s hp) (EvReceive now now m)"
  shows "sys_reach envs (run_receive envs hp now m s)"
proof (rule reach_step[OF assms(1)])
  obtain n lg n' lg' where n: "sys_nodes s hp = (n, lg)"
    "node_step (envs hp) (n, lg) (EvReceive now now m) = (n', lg')" by (metis prod.collapse)
  have "wire_copy m m" by (simp add: wire_copy_def)
  from sys_receive[where envs = envs, OF assms(2) this n(1) assms(3)[unfolded n(1)] n(2)] show "sys_step envs s (run_receive envs hp now m s)"
    using n by (simp add: run_receive_def del: node_step.simps)
qed

end
