(* ===== verification/Causal_Check.thy ===== *)
theory Causal_Check
  imports Vector_Clock
begin

text \<open>
  The offline checker of \<open>harness/causal_check.py\<close>: it replays one peer's delivery log
  and reports every breach of the causal delivery rule. The specification \<open>cbcast_log\<close>
  is the rule of the module's header, stated on functions from peers to counts; the checker
  is shown to report nothing exactly on the logs that satisfy it, and those logs are the
  causal sequences of the vector clock layer.

  \<open>delivered\<close> is a \<open>defaultdict(int)\<close>: reading a missing key inserts it with value 0,
  which shows in the final clock, so reads are modelled by \<open>dd_touch\<close>.
\<close>

section \<open>Records\<close>

record delivery =
  dv_seq :: int
  dv_id :: string
  dv_sender :: string
  dv_vc :: clock
  dv_ts_recv :: "time option"
  dv_ts_send :: "time option"

datatype violation_kind = SenderGap | SenderRegress | MissingDependency

record violation =
  vl_pod :: string
  vl_seq :: int
  vl_id :: string
  vl_sender :: string
  vl_kind :: violation_kind
  vl_detail :: string
  vl_held_ms :: "rat option"

record check_state =
  cs_delivered :: clock
  cs_violations :: "violation list"
  cs_seen :: "string set"
  cs_duplicates :: nat

record check_result =
  cr_pod :: string
  cr_delivered :: nat
  cr_unique :: nat
  cr_duplicates :: nat
  cr_violations :: "violation list"
  cr_final_clock :: clock

text \<open>\<open>round(x, 2)\<close>: to the nearest hundredth, ties to even.\<close>

definition round2 :: "rat \<Rightarrow> rat" where
  "round2 x =
     (let y = x * 100; f = \<lfloor>y\<rfloor>; d = y - of_int f;
          r = (if d < 1 / 2 then f else if d > 1 / 2 then f + 1 else if even f then f else f + 1)
      in of_int r / 100)"

section \<open>The checker\<close>

definition dd_touch :: "clock \<Rightarrow> string \<Rightarrow> clock" where
  "dd_touch c k = (if k \<in> set (dict_keys c) then c else dict_set k 0 c)"

definition held_ms :: "delivery \<Rightarrow> rat option" where
  "held_ms r =
     (case (dv_ts_recv r, dv_ts_send r) of
        (Some a, Some b) \<Rightarrow> Some (round2 ((a - b) * 1000))
      | _ \<Rightarrow> None)"

definition mk_violation :: "string \<Rightarrow> delivery \<Rightarrow> violation_kind \<Rightarrow> string \<Rightarrow> violation" where
  "mk_violation pod r kind detail =
     \<lparr>vl_pod = pod, vl_seq = dv_seq r, vl_id = dv_id r, vl_sender = dv_sender r, vl_kind = kind,
      vl_detail = detail, vl_held_ms = held_ms r\<rparr>"

text \<open>(1) own-sender sequencing.\<close>

definition check_sender :: "string \<Rightarrow> delivery \<Rightarrow> clock \<Rightarrow> clock \<times> violation list" where
  "check_sender pod r c0 =
     (let sender = dv_sender r;
          c = dd_touch c0 sender;
          expected = vc_get c sender + 1;
          got = vc_get (dv_vc r) sender
      in (c, if got \<noteq> expected then
               [mk_violation pod r (if got > expected then SenderGap else SenderRegress)
                  (''V['' @ sender @ '']='' @ int_str got @ '', expected '' @ int_str expected)]
             else []))"

text \<open>(2) dependencies from other senders.\<close>

fun check_deps :: "string \<Rightarrow> delivery \<Rightarrow> clock \<Rightarrow> clock \<Rightarrow> clock \<times> violation list" where
  "check_deps pod r c [] = (c, [])"
| "check_deps pod r c ((node, cnt) # vc) =
     (if node = dv_sender r then check_deps pod r c vc
      else
        let c1 = dd_touch c node;
            (c', vs) = check_deps pod r c1 vc
        in (c', if cnt > vc_get c1 node then
                  mk_violation pod r MissingDependency
                    (''needs '' @ node @ ''<='' @ int_str cnt @ '' but only '' @ int_str (vc_get c1 node)
                      @ '' delivered from '' @ node) # vs
                else vs))"

text \<open>Advance past the breach.\<close>

fun advance :: "clock \<Rightarrow> clock \<Rightarrow> clock" where
  "advance c [] = c"
| "advance c ((node, cnt) # vc) =
     (let c1 = dd_touch c node
      in advance (if cnt > vc_get c1 node then dict_set node cnt c1 else c1) vc)"

definition check_record :: "string \<Rightarrow> check_state \<Rightarrow> delivery \<Rightarrow> check_state" where
  "check_record pod st r =
     (let dups = (if dv_id r \<in> cs_seen st then cs_duplicates st + 1 else cs_duplicates st);
          (c1, v1) = check_sender pod r (cs_delivered st);
          (c2, v2) = check_deps pod r c1 (dv_vc r)
      in \<lparr>cs_delivered = advance c2 (dv_vc r),
          cs_violations = cs_violations st @ v1 @ v2,
          cs_seen = insert (dv_id r) (cs_seen st),
          cs_duplicates = dups\<rparr>)"

definition dict_update :: "clock \<Rightarrow> clock \<Rightarrow> clock" where
  "dict_update c base = foldl (\<lambda>c (k, v). dict_set k v c) c base"

definition check_peer_log :: "string \<Rightarrow> delivery list \<Rightarrow> clock \<Rightarrow> check_result" where
  "check_peer_log pod deliveries baseline =
     (let st = foldl (check_record pod)
                 \<lparr>cs_delivered = dict_update [] baseline, cs_violations = [], cs_seen = {},
                  cs_duplicates = 0\<rparr> deliveries
      in \<lparr>cr_pod = pod, cr_delivered = length deliveries, cr_unique = card (cs_seen st),
          cr_duplicates = cs_duplicates st, cr_violations = cs_violations st,
          cr_final_clock = cs_delivered st\<rparr>)"

section \<open>Latency statistics\<close>

definition percentile :: "rat list \<Rightarrow> rat \<Rightarrow> rat option" where
  "percentile values pct =
     (if values = [] then None
      else
        let ordered = sort values;
            rank = \<lceil>pct / 100 * of_nat (length ordered)\<rceil>;
            idx = min (max (rank - 1) 0) (int (length ordered) - 1)
        in Some (ordered ! nat idx))"

record latency_report =
  lr_count :: nat
  lr_p50 :: "rat option"
  lr_p95 :: "rat option"
  lr_p99 :: "rat option"
  lr_max :: "rat option"
  lr_mean :: "rat option"

definition latency_samples :: "delivery list \<Rightarrow> bool \<Rightarrow> string option \<Rightarrow> rat list" where
  "latency_samples deliveries remote_only pod =
     concat (map (\<lambda>r.
       (case (dv_ts_send r, dv_ts_recv r) of
          (Some ts, Some tr) \<Rightarrow>
            if remote_only \<and> pod \<noteq> None \<and> Some (dv_sender r) = pod then [] else [(tr - ts) * 1000]
        | _ \<Rightarrow> [])) deliveries)"

definition latency_stats :: "delivery list \<Rightarrow> bool \<Rightarrow> string option \<Rightarrow> latency_report" where
  "latency_stats deliveries remote_only pod =
     (let samples = latency_samples deliveries remote_only pod in
      if samples = [] then
        \<lparr>lr_count = 0, lr_p50 = None, lr_p95 = None, lr_p99 = None, lr_max = None, lr_mean = None\<rparr>
      else
        \<lparr>lr_count = length samples,
         lr_p50 = map_option round2 (percentile samples 50),
         lr_p95 = map_option round2 (percentile samples 95),
         lr_p99 = map_option round2 (percentile samples 99),
         lr_max = Some (round2 (Max (set samples))),
         lr_mean = Some (round2 (sum_list samples / of_nat (length samples)))\<rparr>)"

section \<open>The rule and the checker\<close>

text \<open>The causal delivery rule of the module header over the counts delivered so far.\<close>

fun cbcast_log :: "(string \<Rightarrow> int) \<Rightarrow> delivery list \<Rightarrow> bool" where
  "cbcast_log D [] \<longleftrightarrow> True"
| "cbcast_log D (r # rs) \<longleftrightarrow>
     vc_get (dv_vc r) (dv_sender r) = D (dv_sender r) + 1
   \<and> (\<forall>k. k \<noteq> dv_sender r \<longrightarrow> vc_get (dv_vc r) k \<le> D k)
   \<and> cbcast_log (\<lambda>k. max (D k) (vc_get (dv_vc r) k)) rs"

lemma vc_get_dd_touch [simp]: "vc_get (dd_touch c k) n = vc_get c n"
  by (auto simp: dd_touch_def get_or_not_key)

lemma wf_dict_dd_touch [simp]: "wf_dict c \<Longrightarrow> wf_dict (dd_touch c k)"
  by (simp add: dd_touch_def)

lemma check_deps_clock: "vc_get (fst (check_deps pod r c vc)) n = vc_get c n"
  by (induction pod r c vc rule: check_deps.induct) (auto simp: Let_def case_prod_beta)

lemma check_sender_clock: "vc_get (fst (check_sender pod r c)) n = vc_get c n"
  by (simp add: check_sender_def Let_def)

lemma check_sender_ok:
  "snd (check_sender pod r c) = [] \<longleftrightarrow> vc_get (dv_vc r) (dv_sender r) = vc_get c (dv_sender r) + 1"
  by (simp add: check_sender_def Let_def)

lemma check_deps_ok:
  "snd (check_deps pod r c vc) = [] \<longleftrightarrow>
     (\<forall>(node, cnt) \<in> set vc. node \<noteq> dv_sender r \<longrightarrow> cnt \<le> vc_get c node)"
  by (induction pod r c vc rule: check_deps.induct) (auto simp: Let_def case_prod_beta)

lemma deps_lookup:
  assumes "wf_clock vc" "\<forall>n. 0 \<le> D n"
  shows "(\<forall>(node, cnt) \<in> set vc. node \<noteq> s \<longrightarrow> cnt \<le> D node) \<longleftrightarrow> (\<forall>k. k \<noteq> s \<longrightarrow> vc_get vc k \<le> D k)"
proof (intro iffI allI impI)
  fix k assume a: "\<forall>(node, cnt) \<in> set vc. node \<noteq> s \<longrightarrow> cnt \<le> D node" and k: "k \<noteq> s"
  show "vc_get vc k \<le> D k"
  proof (cases "k \<in> set (dict_keys vc)")
    case True
    then obtain v where "(k, v) \<in> set vc" by auto
    with a k assms(1) show ?thesis by (auto simp: get_or_key wf_clockD)
  qed (use assms(2) in \<open>simp add: get_or_not_key\<close>)
qed (use assms(1) get_or_key[of vc] in \<open>auto simp: wf_clockD\<close>)

lemma vc_get_advance:
  assumes "wf_dict vc"
  shows "vc_get (advance c vc) n = (if n \<in> set (dict_keys vc) then max (vc_get c n) (vc_get vc n) else vc_get c n)"
  using assms
proof (induction c vc rule: advance.induct)
  case (2 c node cnt vc)
  then show ?case by (auto simp: Let_def get_or_not_key image_iff)
qed simp

lemma advance_max:
  assumes "wf_clock vc" "0 \<le> vc_get c n"
  shows "vc_get (advance c vc) n = max (vc_get c n) (vc_get vc n)"
  using assms by (auto simp: vc_get_advance wf_clockD get_or_not_key)

lemma check_record_delivered:
  assumes "wf_clock (dv_vc r)" "0 \<le> vc_get (cs_delivered st) n"
  shows "vc_get (cs_delivered (check_record pod st r)) n =
    max (vc_get (cs_delivered st) n) (vc_get (dv_vc r) n)"
  using assms
  by (simp add: check_record_def Let_def case_prod_beta advance_max check_deps_clock check_sender_clock)

lemma check_record_violations:
  assumes "wf_clock (dv_vc r)" "\<forall>n. 0 \<le> vc_get (cs_delivered st) n"
  shows "cs_violations (check_record pod st r) = [] \<longleftrightarrow> cs_violations st = []
    \<and> vc_get (dv_vc r) (dv_sender r) = vc_get (cs_delivered st) (dv_sender r) + 1
    \<and> (\<forall>k. k \<noteq> dv_sender r \<longrightarrow> vc_get (dv_vc r) k \<le> vc_get (cs_delivered st) k)"
proof -
  let ?c = "fst (check_sender pod r (cs_delivered st))"
  have "snd (check_deps pod r ?c (dv_vc r)) = [] \<longleftrightarrow>
      (\<forall>k. k \<noteq> dv_sender r \<longrightarrow> vc_get (dv_vc r) k \<le> vc_get (cs_delivered st) k)"
    unfolding check_deps_ok check_sender_clock by (rule deps_lookup[OF assms])
  then show ?thesis
    using check_sender_ok[of pod r "cs_delivered st"]
    by (auto simp: check_record_def Let_def case_prod_beta)
qed

lemma check_run_violations:
  assumes "\<forall>r \<in> set rs. wf_clock (dv_vc r)" "\<forall>n. 0 \<le> vc_get (cs_delivered st) n"
  shows "cs_violations (foldl (check_record pod) st rs) = [] \<longleftrightarrow>
    cs_violations st = [] \<and> cbcast_log (vc_get (cs_delivered st)) rs"
  using assms
proof (induction rs arbitrary: st)
  case (Cons r rs)
  let ?st = "check_record pod st r"
  have d: "vc_get (cs_delivered ?st) k = max (vc_get (cs_delivered st) k) (vc_get (dv_vc r) k)" for k
    using Cons.prems by (auto simp: check_record_delivered)
  have "\<forall>n. 0 \<le> vc_get (cs_delivered ?st) n" using Cons.prems by (simp add: d le_max_iff_disj)
  then have "cs_violations (foldl (check_record pod) ?st rs) = [] \<longleftrightarrow>
      cs_violations ?st = [] \<and> cbcast_log (vc_get (cs_delivered ?st)) rs"
    using Cons.prems by (intro Cons.IH) auto
  then show ?case
    using Cons.prems by (auto simp: check_record_violations d)
qed simp

lemma vc_get_dict_update:
  assumes "wf_dict base"
  shows "vc_get (dict_update c base) n =
    (if n \<in> set (dict_keys base) then vc_get base n else vc_get c n)"
  using assms
proof (induction base arbitrary: c)
  case (Cons p base)
  obtain k v where p: "p = (k, v)" by (cases p)
  with Cons.prems have "wf_dict base" "k \<notin> set (dict_keys base)" by auto
  with Cons.IH[of "dict_set k v c"] p show ?case
    by (auto simp: dict_update_def)
qed (simp add: dict_update_def)

lemma vc_get_baseline: "wf_clock base \<Longrightarrow> vc_get (dict_update [] base) n = vc_get base n"
  by (auto simp: vc_get_dict_update wf_clockD get_or_not_key)

lemma check_peer_log_iff:
  assumes "wf_clock base" "\<forall>r \<in> set rs. wf_clock (dv_vc r)"
  shows "cr_violations (check_peer_log pod rs base) = [] \<longleftrightarrow> cbcast_log (vc_get base) rs"
  using assms by (simp add: check_peer_log_def Let_def check_run_violations vc_get_baseline wf_clock_nonneg)

section \<open>The log of a node\<close>

text \<open>The record the deployment writes for a delivered message (keys not shortened).\<close>

definition delivery_of :: "int \<Rightarrow> time \<Rightarrow> message \<Rightarrow> delivery" where
  "delivery_of i now m =
     \<lparr>dv_seq = i, dv_id = msg_id m, dv_sender = msg_sender m, dv_vc = msg_vector_clock m,
      dv_ts_recv = Some now, dv_ts_send = Some (msg_timestamp m)\<rparr>"

fun log_records :: "int \<Rightarrow> (time \<times> message) list \<Rightarrow> delivery list" where
  "log_records i [] = []"
| "log_records i ((now, m) # ms) = delivery_of i now m # log_records (i + 1) ms"

lemma causal_run_cbcast:
  assumes "wf_clock c" "\<forall>m \<in> set (map snd tms). stamped m"
  shows "causal_run c (map snd tms) \<longleftrightarrow> cbcast_log (vc_get c) (log_records i tms)"
  using assms
proof (induction tms arbitrary: c i)
  case (Cons p tms)
  obtain t m where p: "p = (t, m)" by (cases p)
  from Cons.prems p have st: "stamped m" by simp
  have "vc_get (deliver c m) = (\<lambda>k. max (vc_get c k) (vc_get (msg_vector_clock m) k))"
    using st Cons.prems(1) by (auto simp: deliver_def stamped_def merge_pointwise_max)
  moreover have "causal_run (deliver c m) (map snd tms) \<longleftrightarrow>
      cbcast_log (vc_get (deliver c m)) (log_records (i + 1) tms)"
    using Cons.prems by (intro Cons.IH) auto
  ultimately show ?case
    using p st Cons.prems(1) by (simp add: delivery_of_def stamped_def is_ready_iff)
qed simp

lemma log_records_vc: "r \<in> set (log_records i tms) \<Longrightarrow> \<exists>m \<in> set (map snd tms). dv_vc r = msg_vector_clock m"
  by (induction i tms rule: log_records.induct) (auto simp: delivery_of_def)

section \<open>Percentiles\<close>

lemma percentile_Some: "values \<noteq> [] \<Longrightarrow> \<exists>p. percentile values pct = Some p"
  by (simp add: percentile_def Let_def)

text \<open>Nearest rank: at least \<open>pct\<close> per cent of the values are at most the percentile, for
  any \<open>pct\<close> up to 100.\<close>

lemma percentile_nearest_rank:
  assumes "percentile values pct = Some p" "pct \<le> 100"
  shows "p \<in> set values \<and> pct / 100 * of_nat (length values) \<le> of_nat (length (filter (\<lambda>x. x \<le> p) values))"
proof -
  let ?o = "sort values" and ?n = "length values"
  define rank where "rank = \<lceil>pct / 100 * of_nat ?n\<rceil>"
  define idx where "idx = min (max (rank - 1) 0) (int ?n - 1)"
  from assms(1) have ne: "values \<noteq> []" and p: "p = ?o ! nat idx"
    by (auto simp: percentile_def Let_def rank_def idx_def split: if_splits)
  from ne have "0 < ?n" by simp
  then have "0 \<le> idx" "idx \<le> int ?n - 1" by (simp_all add: idx_def)
  then have i: "nat idx < ?n" by linarith
  then have "p \<in> set ?o" using p by (metis length_sort nth_mem)
  then have mem: "p \<in> set values" by simp
  have "pct / 100 * of_nat ?n \<le> 1 * of_nat ?n" using assms(2) by (intro mult_right_mono) auto
  then have "rank \<le> int ?n" by (simp add: rank_def ceiling_le_iff)
  then have ri: "rank \<le> int (nat idx) + 1" by (auto simp: idx_def)
  have "set (take (Suc (nat idx)) ?o) \<subseteq> {x. x \<le> p}"
  proof
    fix x assume "x \<in> set (take (Suc (nat idx)) ?o)"
    then obtain j where "j \<le> nat idx" "x = ?o ! j" using i by (auto simp: in_set_conv_nth less_Suc_eq_le)
    then show "x \<in> {x. x \<le> p}" using i p by (auto intro!: sorted_nth_mono)
  qed
  then have "length (filter (\<lambda>x. x \<le> p) (take (Suc (nat idx)) ?o)) = Suc (nat idx)"
    using i by (subst filter_True) auto
  moreover have "length (filter (\<lambda>x. x \<le> p) ?o) =
      length (filter (\<lambda>x. x \<le> p) (take (Suc (nat idx)) ?o)) + length (filter (\<lambda>x. x \<le> p) (drop (Suc (nat idx)) ?o))"
    by (metis append_take_drop_id filter_append length_append)
  moreover have "length (filter (\<lambda>x. x \<le> p) ?o) = length (filter (\<lambda>x. x \<le> p) values)"
    by (metis mset_filter mset_sort size_mset)
  ultimately have len: "int (nat idx) + 1 \<le> int (length (filter (\<lambda>x. x \<le> p) values))" by simp
  have "pct / 100 * of_nat ?n \<le> of_int rank" by (simp add: rank_def)
  also have "\<dots> \<le> of_int (int (length (filter (\<lambda>x. x \<le> p) values)))"
    using ri len by (intro iffD2[OF of_int_le_iff]) linarith
  finally show ?thesis using mem by simp
qed

end
