(* ===== verification/Node_Transport.thy ===== *)
theory Node_Transport
  imports Broadcast_Node
begin

text \<open>
  What the transport half of \<open>BroadcastNode\<close> guarantees: the signature gate of
  \<open>_verify_incoming\<close>, the fan-out of \<open>_forward\<close>, the attempts and back-off of
  \<open>_send_with_retry\<close>, and the per-peer retry queue, which is a FIFO that loses nothing
  while it is flushed concurrently with new failures.
\<close>

section \<open>Attempts and back-off\<close>

lemma upt_attempts: "[1..<MAX_RETRIES + 1] = [1, 2, 3]"
  by (simp add: MAX_RETRIES_def upt_rec)

lemma send_attempts_cases:
  "send_attempts mid net [1..<MAX_RETRIES + 1] =
     (if ack_ok mid (net 1) then (True, [])
      else if ack_ok mid (net 2) then (True, [1/2])
      else (ack_ok mid (net 3), [1/2, 1]))"
  unfolding upt_attempts by (simp add: RETRY_BACKOFF_def MAX_RETRIES_def)

lemma send_attempts_success:
  "fst (send_attempts mid net [1..<MAX_RETRIES + 1]) \<longleftrightarrow> (\<exists>k \<in> {1, 2, 3}. ack_ok mid (net k))"
  unfolding send_attempts_cases by simp

lemma send_with_retry_cases:
  obtains (unprepared) "prepare_outgoing_for_peer env reg n m hp = None"
      "send_with_retry env reg n hp m qf net = (False, [], n)"
  | (acked) w sl where "prepare_outgoing_for_peer env reg n m hp = Some w"
      "\<exists>k \<in> {1, 2, 3}. ack_ok (msg_id m) (net k)"
      "send_with_retry env reg n hp m qf net = (True, sl, n)"
  | (failed) w sl where "prepare_outgoing_for_peer env reg n m hp = Some w"
      "\<forall>k \<in> {1, 2, 3}. \<not> ack_ok (msg_id m) (net k)"
      "send_with_retry env reg n hp m qf net =
         (False, sl, if qf then enqueue_retry (addr_str hp) [m] n else n)"
proof (cases "prepare_outgoing_for_peer env reg n m hp")
  case None
  then show ?thesis using unprepared by (simp add: send_with_retry_def)
next
  case (Some w)
  show ?thesis
  proof (cases "\<exists>k \<in> {1, 2, 3}. ack_ok (msg_id m) (net k)")
    case True
    then obtain sl where "send_attempts (msg_id m) net [1..<MAX_RETRIES + 1] = (True, sl)"
      using send_attempts_success[of "msg_id m" net] by (metis (full_types) prod.collapse)
    then show ?thesis using acked[OF Some True, of sl] Some by (simp add: send_with_retry_def)
  next
    case False
    then obtain sl where "send_attempts (msg_id m) net [1..<MAX_RETRIES + 1] = (False, sl)"
      using send_attempts_success[of "msg_id m" net] by (metis (full_types) prod.collapse)
    then show ?thesis using failed[of w sl] False Some by (simp add: send_with_retry_def)
  qed
qed

abbreviation queue_of :: "node \<Rightarrow> addr \<Rightarrow> message list" where
  "queue_of n hp \<equiv> get_or (n_retry n) (addr_str hp) []"

lemma queue_of_enqueue:
  "queue_of (enqueue_retry (addr_str hp) ms n) hq = (if hq = hp then queue_of n hp @ ms else queue_of n hq)"
  by (simp add: enqueue_retry_def)

lemma send_failure_queues:
  assumes "prepare_outgoing_for_peer env reg n m hp \<noteq> None"
    and "send_with_retry env reg n hp m True net = (ok, sl, n')"
  shows "queue_of n' hq = (if hq = hp \<and> \<not> ok then queue_of n hp @ [m] else queue_of n hq)"
  using assms
  by (cases rule: send_with_retry_cases[of env reg n m hp True net]) (auto simp: queue_of_enqueue)

section \<open>The retry queue\<close>

text \<open>A flush delivers a prefix of the queue and keeps the rest, in order.\<close>

lemma flush_messages_split:
  "flush_messages env reg n hp net i ms = (k, rest) \<Longrightarrow> k \<le> length ms \<and> rest = drop k ms"
proof (induction env reg n hp net i ms arbitrary: k rest rule: flush_messages.induct)
  case (2 env reg n hp net i m ms)
  then show ?case by (auto split: if_splits prod.splits)
qed simp

lemma flush_messages_acked:
  "flush_messages env reg n hp net i ms = (k, rest) \<Longrightarrow> j < k \<Longrightarrow>
     \<exists>a \<in> {1, 2, 3}. ack_ok (msg_id (ms ! j)) (net (i + j) a)"
proof (induction env reg n hp net i ms arbitrary: k rest j rule: flush_messages.induct)
  case (2 env reg n hp net i m ms)
  show ?case
  proof (cases "fst (send_with_retry env reg n hp m False (net i))")
    case True
    then have ok: "\<exists>a \<in> {1, 2, 3}. ack_ok (msg_id m) (net i a)"
      by (cases rule: send_with_retry_cases[of env reg n m hp False "net i"]) auto
    obtain k' rest' where f: "flush_messages env reg n hp net (Suc i) ms = (k', rest')" by fastforce
    show ?thesis
    proof (cases j)
      case 0
      then show ?thesis using ok by simp
    next
      case (Suc j')
      with "2.IH"[OF True f, of j'] "2.prems" True f show ?thesis by simp
    qed
  next
    case False
    then show ?thesis using "2.prems" by simp
  qed
qed simp

lemma flush_messages_all:
  assumes "\<And>m. m \<in> set ms \<Longrightarrow> prepare_outgoing_for_peer env reg n m hp \<noteq> None"
    and "\<And>j. j < length ms \<Longrightarrow> \<exists>a \<in> {1, 2, 3}. ack_ok (msg_id (ms ! j)) (net (i + j) a)"
  shows "flush_messages env reg n hp net i ms = (length ms, [])"
  using assms
proof (induction ms arbitrary: i)
  case (Cons m ms)
  have ok: "fst (send_with_retry env reg n hp m False (net i))"
    using Cons.prems(1)[of m] Cons.prems(2)[of 0]
    by (cases rule: send_with_retry_cases[of env reg n m hp False "net i"]) auto
  have "flush_messages env reg n hp net (Suc i) ms = (length ms, [])"
    using Cons.prems(1) Cons.prems(2)[of "Suc _"] by (intro Cons.IH) auto
  with ok show ?case by simp
qed simp

lemma flush_queue:
  assumes "flush_peer_retry_queue env reg n hp net arrived = (k, n')"
  shows "k \<le> length (queue_of n hp)"
    and "queue_of n' hq =
      (if hq = hp then drop k (queue_of n hp) @ arrived else queue_of n hq)"
    and "j < k \<Longrightarrow> \<exists>a \<in> {1, 2, 3}. ack_ok (msg_id (queue_of n hp ! j)) (net j a)"
proof -
  let ?q = "queue_of n hp"
  let ?popped = "n\<lparr>n_retry := dict_pop (addr_str hp) (n_retry n)\<rparr>"
  obtain k' rest where f: "flush_messages env reg ?popped hp net 0 ?q = (k', rest)" by fastforce
  note sp = flush_messages_split[OF f]
  have k: "k = k'"
    using assms f by (auto simp: flush_peer_retry_queue_def Let_def split: if_splits)
  show "k \<le> length ?q" using k sp by simp
  show "queue_of n' hq = (if hq = hp then drop k ?q @ arrived else queue_of n hq)"
    using assms f sp k
    by (auto simp: flush_peer_retry_queue_def Let_def queue_of_enqueue split: if_splits)
  show "j < k \<Longrightarrow> \<exists>a \<in> {1, 2, 3}. ack_ok (msg_id (?q ! j)) (net j a)"
    using flush_messages_acked[OF f, of j] k by simp
qed

lemma flush_queue_all:
  assumes "\<And>m. m \<in> set (queue_of n hp) \<Longrightarrow>
      prepare_outgoing_for_peer env reg (n\<lparr>n_retry := dict_pop (addr_str hp) (n_retry n)\<rparr>) m hp \<noteq> None"
    and "\<And>j. j < length (queue_of n hp) \<Longrightarrow>
      \<exists>a \<in> {1, 2, 3}. ack_ok (msg_id (queue_of n hp ! j)) (net j a)"
  shows "fst (flush_peer_retry_queue env reg n hp net arrived) = length (queue_of n hp)"
  using flush_messages_all[where ms = "queue_of n hp" and hp = hp and net = net and i = 0
      and n = "n\<lparr>n_retry := dict_pop (addr_str hp) (n_retry n)\<rparr>", OF assms(1)] assms(2)
  by (simp add: flush_peer_retry_queue_def Let_def)

text \<open>The background task finds the peer of every non-empty queue, when the queue's keys are
  the addresses \<open>_send_with_retry\<close> stores them under.\<close>

definition retry_keys_ok :: "node \<Rightarrow> bool" where
  "retry_keys_ok n = (wf_dict (n_retry n) \<and> (\<forall>k \<in> set (dict_keys (n_retry n)). \<exists>hp. k = addr_str hp))"

lemma retry_keys_enqueue: "retry_keys_ok n \<Longrightarrow> retry_keys_ok (enqueue_retry (addr_str hp) ms n)"
  by (auto simp: retry_keys_ok_def enqueue_retry_def simp del: set_map)

lemma retry_pending_eq:
  assumes "retry_keys_ok n"
  shows "set (retry_pending n) = Some ` {hp. queue_of n hp \<noteq> []}"
proof -
  let ?parse = "\<lambda>k. case rsplit1 (CHR '':'') k of
      None \<Rightarrow> None | Some (host, port_str) \<Rightarrow> map_option (\<lambda>port. (host, port)) (py_int port_str)"
  have parse: "?parse (addr_str hp) = Some hp" for hp
    by (cases hp) (simp add: rsplit1_addr_str)
  have pend: "set (retry_pending n) = ?parse ` {k. \<exists>v. (k, v) \<in> set (n_retry n) \<and> v \<noteq> []}"
    by (force simp: retry_pending_def)
  have "{k. \<exists>v. (k, v) \<in> set (n_retry n) \<and> v \<noteq> []} = addr_str ` {hp. queue_of n hp \<noteq> []}"
  proof (intro set_eqI iffI)
    fix k assume "k \<in> {k. \<exists>v. (k, v) \<in> set (n_retry n) \<and> v \<noteq> []}"
    then obtain v where v: "(k, v) \<in> set (n_retry n)" "v \<noteq> []" by auto
    then obtain hp where "k = addr_str hp" using assms by (force simp: retry_keys_ok_def)
    moreover have "get_or (n_retry n) k [] = v"
      using v assms by (simp add: retry_keys_ok_def get_or_key)
    ultimately show "k \<in> addr_str ` {hp. queue_of n hp \<noteq> []}" using v by auto
  next
    fix k assume "k \<in> addr_str ` {hp. queue_of n hp \<noteq> []}"
    then obtain hp where hp: "k = addr_str hp" "queue_of n hp \<noteq> []" by auto
    then obtain v where "map_of (n_retry n) k = Some v" "v \<noteq> []"
      by (auto simp: get_or_def split: option.splits)
    then show "k \<in> {k. \<exists>v. (k, v) \<in> set (n_retry n) \<and> v \<noteq> []}" by (auto dest: map_of_SomeD)
  qed
  then show ?thesis unfolding pend by (simp add: image_image parse)
qed

section \<open>The signature gate\<close>

text \<open>The sender address a message claims, as \<open>_verify_incoming\<close> reads it.\<close>

definition claimed_sender :: "message \<Rightarrow> addr option" where
  "claimed_sender m = (case rsplit1 (CHR '':'') (msg_sender m) of
     None \<Rightarrow> None | Some (h, p) \<Rightarrow> map_option (\<lambda>port. (h, port)) (py_int p))"

lemma claimed_sender_addr [simp]: "msg_sender m = addr_str hp \<Longrightarrow> claimed_sender m = Some hp"
  by (cases hp) (simp add: claimed_sender_def rsplit1_addr_str)

definition hooked :: "node_env \<Rightarrow> message \<Rightarrow> registry_view \<Rightarrow> registry_view" where
  "hooked env m reg = (case env_hook env of None \<Rightarrow> reg | Some h \<Rightarrow> h m reg)"

lemma verify_incoming_lenient:
  "\<not> n_enforce n \<Longrightarrow> \<not> has_any_peer_key reg \<Longrightarrow> fst (verify_incoming env reg n m)"
  by (simp add: verify_incoming_def split: option.split)

lemma verify_incoming_iff:
  assumes "env_sec env = Some s" "n_enforce n \<or> has_any_peer_key reg"
  shows "fst (verify_incoming env reg n m) \<longleftrightarrow>
    msg_signature m \<noteq> [] \<and> rv_pub_key reg \<noteq> None \<and>
    (\<exists>hp. claimed_sender m = Some hp \<and> view_key (hooked env m reg) hp \<noteq> [] \<and>
       sec_verify s (n_keys (register_peer_key env (hooked env m reg) hp n)) m)"
proof (cases "rsplit1 (CHR '':'') (msg_sender m)")
  case None
  then show ?thesis using assms by (simp add: verify_incoming_def claimed_sender_def)
next
  case (Some hpstr)
  obtain h ps where hps: "hpstr = (h, ps)" by (cases hpstr)
  show ?thesis
  proof (cases "py_int ps")
    case None
    then show ?thesis using assms Some hps by (simp add: verify_incoming_def claimed_sender_def)
  next
    case port: (Some port)
    show ?thesis
      using assms Some hps port
      by (auto simp: verify_incoming_def claimed_sender_def hooked_def Let_def)
  qed
qed

lemma register_peer_key_lookup:
  assumes "env_sec env = Some s" "view_key reg hp \<noteq> []" "sec_loads_pem s (view_key reg hp)"
  shows "map_of (n_keys (register_peer_key env reg hp n)) (addr_str hp) = Some (view_key reg hp)"
  using assms
  by (auto simp: register_peer_key_def view_key_def map_of_dict_set split: option.splits)

section \<open>Forwarding\<close>

lemma receive_forward:
  "receive env ta td n m = (n', ms, Some f, b) \<Longrightarrow>
     f = m\<lparr>msg_ttl := msg_ttl m - 1\<rparr> \<and> 0 \<le> msg_ttl f \<and> msg_id m \<notin> n_seen n
     \<and> (\<forall>s. env_sec env = Some s \<longrightarrow> \<not> sec_is_encrypted s (msg_content m))"
  by (auto simp: receive_def deduplicate_def Let_def split: if_splits prod.splits option.splits)

lemma forward_targets:
  "map fst (forward reg n m) = peers_excluding (n_address n) (msg_sender m) (rv_peers reg)"
  by (simp add: forward_def comp_def)

text \<open>The copy sent to a peer differs from the template only in content and signature.\<close>

lemma prepare_fields:
  assumes "prepare_outgoing_for_peer env reg n m hp = Some w"
  shows "msg_id w = msg_id m \<and> msg_sender w = msg_sender m \<and> msg_vector_clock w = msg_vector_clock m
    \<and> msg_ttl w = msg_ttl m \<and> msg_timestamp w = msg_timestamp m"
proof -
  obtain b w1 where e: "encrypt_for_peer env reg m hp = (b, w1)" by fastforce
  obtain b2 w2 where s: "sign_outgoing env n w1 = (b2, w2)" by fastforce
  have "msg_id w1 = msg_id m \<and> msg_sender w1 = msg_sender m \<and> msg_vector_clock w1 = msg_vector_clock m
      \<and> msg_ttl w1 = msg_ttl m \<and> msg_timestamp w1 = msg_timestamp m"
    using e by (auto simp: encrypt_for_peer_def split: option.splits if_splits)
  with sign_outgoing_fields[OF s] e s assms show ?thesis
    by (auto simp: prepare_outgoing_for_peer_def split: bool.splits)
qed

lemma prepare_lenient: "\<not> n_enforce n \<Longrightarrow> prepare_outgoing_for_peer env reg n m hp \<noteq> None"
proof -
  assume "\<not> n_enforce n"
  then have "fst (sign_outgoing env n w)" for w by (rule sign_outgoing_lenient)
  moreover obtain w1 where "encrypt_for_peer env reg m hp = (True, w1)"
    unfolding encrypt_for_peer_def by (cases "env_sec env") (fastforce split: option.split)+
  ultimately show ?thesis
    by (auto simp: prepare_outgoing_for_peer_def split: prod.splits bool.splits)
     (metis fst_conv)
qed

text \<open>Every copy is signed by the node that sends it, also when it only relays.\<close>

lemma prepare_signature:
  assumes "env_sec env = Some s" "encrypt_for_peer env reg m hp = (True, w1)" "sec_sign s w1 = Some sig"
  shows "prepare_outgoing_for_peer env reg n m hp = Some (w1\<lparr>msg_signature := sig\<rparr>)"
  using assms by (simp add: prepare_outgoing_for_peer_def sign_outgoing_def)

end
