(* ===== verification/Json_Base64.thy ===== *)
theory Json_Base64
  imports PeerChat_Prelude
begin

text \<open>
  The two pieces of the Python library the wire and checkpoint formats rest on: the values
  \<open>json\<close> reads and writes (a \<open>dict\<close> keeps its insertion order) with their text, and
  \<open>base64.b64encode\<close>/\<open>b64decode\<close>. Byte strings are \<open>string\<close>s, one character per
  byte. Decoding follows \<open>binascii.a2b_base64\<close> in its default, lenient mode:
  characters outside the alphabet are skipped, a complete padding ends the input, and an
  incomplete quantum at the end is an error (\<open>None\<close>).

  Shown: decoding undoes encoding for every byte string.
\<close>

section \<open>JSON values\<close>

datatype json =
    JNull
  | JBool bool
  | JInt int
  | JFloat rat
  | JStr string
  | JList "json list"
  | JObj "(string \<times> json) list"

text \<open>\<open>d[k]\<close> (\<open>None\<close> is \<open>KeyError\<close>) and \<open>d.get(k)\<close>.\<close>

fun jget :: "json \<Rightarrow> string \<Rightarrow> json option" where
  "jget (JObj kvs) k = map_of kvs k"
| "jget _ k = None"

text \<open>Reading a field at its declared type. A value of another JSON type is outside the
  model and read as an error.\<close>

fun as_int :: "json \<Rightarrow> int option" where
  "as_int (JInt i) = Some i"
| "as_int _ = None"

fun as_float :: "json \<Rightarrow> rat option" where
  "as_float (JFloat x) = Some x"
| "as_float (JInt i) = Some (of_int i)"
| "as_float _ = None"

fun as_str :: "json \<Rightarrow> string option" where
  "as_str (JStr s) = Some s"
| "as_str _ = None"

fun as_opt_str :: "json \<Rightarrow> string option option" where
  "as_opt_str (JStr s) = Some (Some s)"
| "as_opt_str JNull = Some None"
| "as_opt_str _ = None"

fun as_list :: "json \<Rightarrow> json list option" where
  "as_list (JList xs) = Some xs"
| "as_list _ = None"

fun as_obj :: "json \<Rightarrow> (string \<times> json) list option" where
  "as_obj (JObj xs) = Some xs"
| "as_obj _ = None"

definition opt_str :: "string option \<Rightarrow> json" where
  "opt_str x = (case x of None \<Rightarrow> JNull | Some s \<Rightarrow> JStr s)"

lemma as_opt_str_opt_str [simp]: "as_opt_str (opt_str x) = Some x"
  by (cases x) (simp_all add: opt_str_def)

text \<open>\<open>[f(x) for x in xs]\<close> where \<open>f\<close> may raise.\<close>

fun map_opt :: "('a \<Rightarrow> 'b option) \<Rightarrow> 'a list \<Rightarrow> 'b list option" where
  "map_opt f [] = Some []"
| "map_opt f (x # xs) =
     (case f x of None \<Rightarrow> None
      | Some y \<Rightarrow> (case map_opt f xs of None \<Rightarrow> None | Some ys \<Rightarrow> Some (y # ys)))"

lemma map_opt_map: "(\<And>x. x \<in> set xs \<Longrightarrow> f (g x) = Some (h x)) \<Longrightarrow> map_opt f (map g xs) = Some (map h xs)"
  by (induction xs) auto

text \<open>\<open>bool(x)\<close>.\<close>

fun truthy :: "json \<Rightarrow> bool" where
  "truthy JNull = False"
| "truthy (JBool b) = b"
| "truthy (JInt i) = (i \<noteq> 0)"
| "truthy (JFloat x) = (x \<noteq> 0)"
| "truthy (JStr s) = (s \<noteq> [])"
| "truthy (JList xs) = (xs \<noteq> [])"
| "truthy (JObj kvs) = (kvs \<noteq> [])"

text \<open>\<open>json.dumps\<close> with the separators \<open>comma\<close> and \<open>colon\<close>. Strings are
  escaped as with \<open>ensure_ascii\<close>; how a float is printed is an argument.\<close>

definition hex_digit :: "nat \<Rightarrow> char" where
  "hex_digit d = ''0123456789abcdef'' ! d"

definition json_escape :: "char \<Rightarrow> string" where
  "json_escape c =
     (let n = (of_char c :: nat) in
      if n = 34 then [char_of (92::nat), c]
      else if n = 92 then [c, c]
      else if n = 10 then [char_of (92::nat), CHR ''n'']
      else if n = 13 then [char_of (92::nat), CHR ''r'']
      else if n = 9 then [char_of (92::nat), CHR ''t'']
      else if n = 12 then [char_of (92::nat), CHR ''f'']
      else if n = 8 then [char_of (92::nat), CHR ''b'']
      else if 32 \<le> n \<and> n \<le> 126 then [c]
      else [char_of (92::nat), CHR ''u'', CHR ''0'', CHR ''0'', hex_digit (n div 16), hex_digit (n mod 16)])"

definition json_quote :: "string \<Rightarrow> string" where
  "json_quote s = char_of (34::nat) # concat (map json_escape s) @ [char_of (34::nat)]"

fun join_with :: "string \<Rightarrow> string list \<Rightarrow> string" where
  "join_with sep [] = []"
| "join_with sep [x] = x"
| "join_with sep (x # xs) = x @ sep @ join_with sep xs"

fun json_dumps :: "(rat \<Rightarrow> string) \<Rightarrow> string \<Rightarrow> string \<Rightarrow> json \<Rightarrow> string" where
  "json_dumps fr comma colon JNull = ''null''"
| "json_dumps fr comma colon (JBool b) = (if b then ''true'' else ''false'')"
| "json_dumps fr comma colon (JInt i) = int_str i"
| "json_dumps fr comma colon (JFloat x) = fr x"
| "json_dumps fr comma colon (JStr s) = json_quote s"
| "json_dumps fr comma colon (JList xs) =
     ''['' @ join_with comma (map (json_dumps fr comma colon) xs) @ '']''"
| "json_dumps fr comma colon (JObj kvs) =
     ''{'' @ join_with comma (map (\<lambda>(k, v). json_quote k @ colon @ json_dumps fr comma colon v) kvs) @ ''}''"

section \<open>Base64\<close>

definition b64_alphabet :: string where
  "b64_alphabet = ''ABCDEFGHIJKLMNOPQRSTUVWXYZabcdefghijklmnopqrstuvwxyz0123456789+/''"

definition b64_char :: "nat \<Rightarrow> char" where
  "b64_char i = b64_alphabet ! i"

fun index_of :: "'a \<Rightarrow> 'a list \<Rightarrow> nat option" where
  "index_of x [] = None"
| "index_of x (y # ys) = (if x = y then Some 0 else map_option Suc (index_of x ys))"

definition b64_val :: "char \<Rightarrow> nat option" where
  "b64_val c = index_of c b64_alphabet"

abbreviation byte :: "char \<Rightarrow> nat" where
  "byte c \<equiv> of_char c"

fun b64encode :: "string \<Rightarrow> string" where
  "b64encode [] = []"
| "b64encode [a] = [b64_char (byte a div 4), b64_char (byte a mod 4 * 16), CHR ''='', CHR ''='']"
| "b64encode [a, b] =
     [b64_char (byte a div 4), b64_char (byte a mod 4 * 16 + byte b div 16),
      b64_char (byte b mod 16 * 4), CHR ''='']"
| "b64encode (a # b # c # bs) =
     [b64_char (byte a div 4), b64_char (byte a mod 4 * 16 + byte b div 16),
      b64_char (byte b mod 16 * 4 + byte c div 64), b64_char (byte c mod 64)] @ b64encode bs"

definition out_byte :: "nat \<Rightarrow> string option \<Rightarrow> string option" where
  "out_byte v r = map_option ((#) (char_of v)) r"

text \<open>\<open>quad\<close> is the position in the current group of four, \<open>left\<close> the bits carried over,
  \<open>pads\<close> the number of padding characters just read.\<close>

fun a2b :: "nat \<Rightarrow> nat \<Rightarrow> nat \<Rightarrow> string \<Rightarrow> string option" where
  "a2b quad left pads [] = (if quad = 0 then Some [] else None)"
| "a2b quad left pads (c # cs) =
     (if c = CHR ''='' then
        if 2 \<le> quad then
          if 4 \<le> quad + (pads + 1) then Some [] else a2b quad left (pads + 1) cs
        else a2b quad left pads cs
      else
        (case b64_val c of
           None \<Rightarrow> a2b quad left pads cs
         | Some v \<Rightarrow>
             if quad = 0 then a2b 1 v 0 cs
             else if quad = 1 then out_byte (left * 4 + v div 16) (a2b 2 (v mod 16) 0 cs)
             else if quad = 2 then out_byte (left * 16 + v div 4) (a2b 3 (v mod 4) 0 cs)
             else out_byte (left * 64 + v) (a2b 0 0 0 cs)))"

definition b64decode :: "string \<Rightarrow> string option" where
  "b64decode s = (if list_ex (\<lambda>c. 128 \<le> byte c) s then None else a2b 0 0 0 s)"

lemma b64_alphabet_ok:
  "list_all (\<lambda>i. b64_val (b64_char i) = Some i \<and> b64_char i \<noteq> CHR ''='' \<and> byte (b64_char i) < 128) [0..<64]"
  by code_simp

lemma b64_char_facts:
  assumes "i < 64"
  shows "b64_val (b64_char i) = Some i" and "b64_char i \<noteq> CHR ''=''" and "byte (b64_char i) < 128"
  using b64_alphabet_ok assms by (auto simp: list_all_iff)

lemma byte_lt: "byte c < 256"
  by (rule nat_of_char_less_256)

lemma a2b_step:
  assumes "i < 64"
  shows "a2b 0 l p (b64_char i # cs) = a2b 1 i 0 cs"
    and "a2b (Suc 0) l p (b64_char i # cs) = out_byte (l * 4 + i div 16) (a2b 2 (i mod 16) 0 cs)"
    and "a2b 2 l p (b64_char i # cs) = out_byte (l * 16 + i div 4) (a2b 3 (i mod 4) 0 cs)"
    and "a2b 3 l p (b64_char i # cs) = out_byte (l * 64 + i) (a2b 0 0 0 cs)"
  using b64_char_facts[OF assms] by simp_all

lemma out_byte_Some [simp]: "out_byte (byte c) (Some s) = Some (c # s)"
  by (simp add: out_byte_def)

lemma byte_parts:
  "byte a div 4 < 64" "byte a mod 4 * 16 < 64" "byte b mod 16 * 4 < 64"
  "byte a mod 4 * 16 + byte b div 16 < 64" "byte b mod 16 * 4 + byte c div 64 < 64" "byte c mod 64 < 64"
proof -
  show "byte a div 4 < 64" "byte c mod 64 < 64" by (auto simp: div_less_iff_less_mult)
  have "byte a mod 4 < 4" "byte b mod 16 < 16" by auto
  then show "byte a mod 4 * 16 < 64" "byte b mod 16 * 4 < 64" by linarith+
  have "byte a mod 4 < 4" "byte b div 16 < 16" "byte b mod 16 < 16" "byte c div 64 < 4"
    by (auto simp: div_less_iff_less_mult)
  then show "byte a mod 4 * 16 + byte b div 16 < 64" "byte b mod 16 * 4 + byte c div 64 < 64"
    by linarith+
qed

lemma byte_top:
  "byte b div 16 div 16 = 0" "byte b div 16 mod 16 = byte b div 16"
  "byte c div 64 div 4 = 0" "byte c div 64 mod 4 = byte c div 64"
  by (simp_all add: div_less_iff_less_mult flip: div_mult2_eq)

lemma a2b_encode: "a2b 0 0 0 (b64encode bs) = Some bs"
  by (induction bs rule: b64encode.induct)
    (simp_all add: a2b_step byte_parts byte_top div_mult_mod_eq del: a2b.simps(2),
     simp_all)

lemma b64encode_ascii: "c \<in> set (b64encode bs) \<Longrightarrow> byte c < 128"
  by (induction bs rule: b64encode.induct) (auto simp: b64_char_facts byte_parts)

lemma b64_roundtrip: "b64decode (b64encode bs) = Some bs"
  using b64encode_ascii by (fastforce simp: b64decode_def a2b_encode list_ex_iff not_le)

lemma b64encode_Nil_iff [simp]: "b64encode bs = [] \<longleftrightarrow> bs = []"
  by (cases bs rule: b64encode.cases) auto

end
