(* ===== verification/Membership_Models.thy ===== *)
theory Membership_Models
  imports Json_Base64 "HOL-Library.Monad_Syntax"
begin

text \<open>
  The data of \<open>peer_discovery/membership/models.py\<close>: member states, event types, events,
  member records, and their dictionary forms. \<open>to_dict\<close>/\<open>from_dict\<close> are translated
  key by key; \<open>from_dict\<close> returns \<open>None\<close> where the source raises \<open>KeyError\<close> or
  \<open>ValueError\<close>.

  Shown: reading back what was written gives the same record, except that an empty public
  key comes back as no key.
\<close>

section \<open>Enumerations\<close>

datatype member_state = JOINING | BACKFILLING | ACTIVE | SUSPECTED | DISCONNECTED | LEAVING | LEFT

datatype event_type =
    JOIN_REQUESTED
  | JOIN_ACCEPTED
  | JOIN_REJECTED
  | LEAVE_REQUESTED
  | LEAVE_CONFIRMED
  | HEARTBEAT
  | DISCONNECT_SUSPECTED
  | DISCONNECT_TIMEOUT
  | RECONNECTED
  | HISTORY_BACKFILL_STARTED
  | HISTORY_BACKFILL_COMPLETE

fun state_value :: "member_state \<Rightarrow> string" where
  "state_value JOINING = ''JOINING''"
| "state_value BACKFILLING = ''BACKFILLING''"
| "state_value ACTIVE = ''ACTIVE''"
| "state_value SUSPECTED = ''SUSPECTED''"
| "state_value DISCONNECTED = ''DISCONNECTED''"
| "state_value LEAVING = ''LEAVING''"
| "state_value LEFT = ''LEFT''"

fun event_value :: "event_type \<Rightarrow> string" where
  "event_value JOIN_REQUESTED = ''JOIN_REQUESTED''"
| "event_value JOIN_ACCEPTED = ''JOIN_ACCEPTED''"
| "event_value JOIN_REJECTED = ''JOIN_REJECTED''"
| "event_value LEAVE_REQUESTED = ''LEAVE_REQUESTED''"
| "event_value LEAVE_CONFIRMED = ''LEAVE_CONFIRMED''"
| "event_value HEARTBEAT = ''HEARTBEAT''"
| "event_value DISCONNECT_SUSPECTED = ''DISCONNECT_SUSPECTED''"
| "event_value DISCONNECT_TIMEOUT = ''DISCONNECT_TIMEOUT''"
| "event_value RECONNECTED = ''RECONNECTED''"
| "event_value HISTORY_BACKFILL_STARTED = ''HISTORY_BACKFILL_STARTED''"
| "event_value HISTORY_BACKFILL_COMPLETE = ''HISTORY_BACKFILL_COMPLETE''"

text \<open>\<open>MemberState(s)\<close> and \<open>EventType(s)\<close>: the member with that value, or
  \<open>ValueError\<close>.\<close>

definition all_states :: "member_state list" where
  "all_states = [JOINING, BACKFILLING, ACTIVE, SUSPECTED, DISCONNECTED, LEAVING, LEFT]"

definition all_events :: "event_type list" where
  "all_events = [JOIN_REQUESTED, JOIN_ACCEPTED, JOIN_REJECTED, LEAVE_REQUESTED, LEAVE_CONFIRMED,
     HEARTBEAT, DISCONNECT_SUSPECTED, DISCONNECT_TIMEOUT, RECONNECTED, HISTORY_BACKFILL_STARTED,
     HISTORY_BACKFILL_COMPLETE]"

definition state_of :: "string \<Rightarrow> member_state option" where
  "state_of s = List.find (\<lambda>x. state_value x = s) all_states"

definition event_of :: "string \<Rightarrow> event_type option" where
  "event_of s = List.find (\<lambda>x. event_value x = s) all_events"

lemma state_of_value [simp]: "state_of (state_value x) = Some x"
  by (cases x) (simp_all add: state_of_def all_states_def)

lemma event_of_value [simp]: "event_of (event_value x) = Some x"
  by (cases x) (simp_all add: event_of_def all_events_def)

section \<open>Records\<close>

record membership_event =
  ev_seq_no :: int
  ev_room_id :: string
  ev_user_id :: string
  ev_type :: event_type
  ev_timestamp :: time
  ev_version :: int
  ev_source :: string
  ev_term :: int
  ev_trace_id :: "string option"
  ev_display_name :: string
  ev_originator :: "string option"
  ev_public_key :: "string option"

record member_info =
  mi_user_id :: string
  mi_display_name :: string
  mi_state :: member_state
  mi_joined_at :: time
  mi_last_heartbeat :: time
  mi_version :: int
  mi_public_key :: "string option"

record snapshot_data =
  sd_room_id :: string
  sd_version :: int
  sd_members :: "(string, member_info) dict"
  sd_active_count :: nat
  sd_as_of :: int

record join_result =
  jr_accepted :: bool
  jr_seq_no :: int
  jr_version :: int
  jr_active_members :: "member_info list"
  jr_reason :: "string option"

record membership_delta =
  md_type :: string
  md_user_id :: string
  md_event :: "membership_event option"

section \<open>Dictionary forms\<close>

definition pk_entry :: "string option \<Rightarrow> (string \<times> json) list" where
  "pk_entry pk = (case pk of None \<Rightarrow> [] | Some k \<Rightarrow> [(''public_key_b64'', JStr (b64encode k))])"

definition event_to_dict :: "membership_event \<Rightarrow> json" where
  "event_to_dict e = JObj
     ([(''seq_no'', JInt (ev_seq_no e)), (''room_id'', JStr (ev_room_id e)),
       (''user_id'', JStr (ev_user_id e)), (''event_type'', JStr (event_value (ev_type e))),
       (''timestamp'', JFloat (ev_timestamp e)), (''membership_version'', JInt (ev_version e)),
       (''source'', JStr (ev_source e)), (''term'', JInt (ev_term e)),
       (''trace_id'', opt_str (ev_trace_id e)), (''display_name'', JStr (ev_display_name e)),
       (''originator'', opt_str (ev_originator e))] @ pk_entry (ev_public_key e))"

text \<open>\<open>base64.b64decode(pk_b64) if pk_b64 else None\<close>: an absent, null or empty value is no
  key.\<close>

definition read_pk :: "json \<Rightarrow> string option option" where
  "read_pk d = (case jget d ''public_key_b64'' of
      None \<Rightarrow> Some None
    | Some JNull \<Rightarrow> Some None
    | Some (JStr s) \<Rightarrow> if s = [] then Some None else map_option Some (b64decode s)
    | Some _ \<Rightarrow> None)"

definition read_opt :: "json \<Rightarrow> string \<Rightarrow> string option option" where
  "read_opt d k = (case jget d k of None \<Rightarrow> Some None | Some v \<Rightarrow> as_opt_str v)"

definition event_from_dict :: "json \<Rightarrow> membership_event option" where
  "event_from_dict d = do {
     pk \<leftarrow> read_pk d;
     seq \<leftarrow> jget d ''seq_no'' \<bind> as_int;
     room \<leftarrow> jget d ''room_id'' \<bind> as_str;
     user \<leftarrow> jget d ''user_id'' \<bind> as_str;
     ty \<leftarrow> jget d ''event_type'' \<bind> as_str \<bind> event_of;
     ts \<leftarrow> jget d ''timestamp'' \<bind> as_float;
     ver \<leftarrow> jget d ''membership_version'' \<bind> as_int;
     src \<leftarrow> jget d ''source'' \<bind> as_str;
     term \<leftarrow> jget d ''term'' \<bind> as_int;
     trace \<leftarrow> read_opt d ''trace_id'';
     name \<leftarrow> (case jget d ''display_name'' of None \<Rightarrow> Some [] | Some v \<Rightarrow> as_str v);
     orig \<leftarrow> read_opt d ''originator'';
     Some \<lparr>ev_seq_no = seq, ev_room_id = room, ev_user_id = user, ev_type = ty, ev_timestamp = ts,
           ev_version = ver, ev_source = src, ev_term = term, ev_trace_id = trace,
           ev_display_name = name, ev_originator = orig, ev_public_key = pk\<rparr>
   }"

definition member_to_dict :: "member_info \<Rightarrow> json" where
  "member_to_dict m = JObj
     ([(''user_id'', JStr (mi_user_id m)), (''display_name'', JStr (mi_display_name m)),
       (''state'', JStr (state_value (mi_state m))), (''joined_at'', JFloat (mi_joined_at m)),
       (''last_heartbeat'', JFloat (mi_last_heartbeat m)), (''membership_version'', JInt (mi_version m))]
      @ pk_entry (mi_public_key m))"

definition member_from_dict :: "json \<Rightarrow> member_info option" where
  "member_from_dict d = do {
     pk \<leftarrow> read_pk d;
     user \<leftarrow> jget d ''user_id'' \<bind> as_str;
     name \<leftarrow> jget d ''display_name'' \<bind> as_str;
     st \<leftarrow> jget d ''state'' \<bind> as_str \<bind> state_of;
     joined \<leftarrow> jget d ''joined_at'' \<bind> as_float;
     hb \<leftarrow> jget d ''last_heartbeat'' \<bind> as_float;
     ver \<leftarrow> jget d ''membership_version'' \<bind> as_int;
     Some \<lparr>mi_user_id = user, mi_display_name = name, mi_state = st, mi_joined_at = joined,
           mi_last_heartbeat = hb, mi_version = ver, mi_public_key = pk\<rparr>
   }"

section \<open>Round trips\<close>

text \<open>The empty key is not distinguished from no key.\<close>

definition norm_pk :: "string option \<Rightarrow> string option" where
  "norm_pk pk = (if pk = Some [] then None else pk)"

lemma norm_pk_id [simp]: "pk \<noteq> Some [] \<Longrightarrow> norm_pk pk = pk"
  by (simp add: norm_pk_def)

lemma read_pk_entry:
  assumes "''public_key_b64'' \<notin> set (dict_keys kvs)"
  shows "read_pk (JObj (kvs @ pk_entry pk)) = Some (norm_pk pk)"
proof -
  have "map_of kvs ''public_key_b64'' = None" using assms by (simp add: map_of_eq_None_iff)
  then show ?thesis
    by (cases pk) (simp_all add: read_pk_def pk_entry_def norm_pk_def b64_roundtrip map_add_def)
qed

lemma event_dict_roundtrip:
  "event_from_dict (event_to_dict e) = Some (e\<lparr>ev_public_key := norm_pk (ev_public_key e)\<rparr>)"
proof -
  have pk: "read_pk (event_to_dict e) = Some (norm_pk (ev_public_key e))"
    unfolding event_to_dict_def by (rule read_pk_entry) simp
  then show ?thesis
    unfolding event_from_dict_def pk by (simp add: event_to_dict_def read_opt_def)
qed

lemma member_dict_roundtrip:
  "member_from_dict (member_to_dict m) = Some (m\<lparr>mi_public_key := norm_pk (mi_public_key m)\<rparr>)"
proof -
  have pk: "read_pk (member_to_dict m) = Some (norm_pk (mi_public_key m))"
    unfolding member_to_dict_def by (rule read_pk_entry) simp
  then show ?thesis
    unfolding member_from_dict_def pk by (simp add: member_to_dict_def)
qed

lemma event_roundtrip_keyed:
  "ev_public_key e \<noteq> Some [] \<Longrightarrow> event_from_dict (event_to_dict e) = Some e"
  by (simp add: event_dict_roundtrip)

lemma member_roundtrip_keyed:
  "mi_public_key m \<noteq> Some [] \<Longrightarrow> member_from_dict (member_to_dict m) = Some m"
  by (simp add: member_dict_roundtrip)

end
