(* ===== verification/Event_Log.thy ===== *)
theory Event_Log
  imports Membership_Models
begin

text \<open>
  \<open>peer_discovery/membership/event_log.py\<close>: the append-only log of a room. The lock makes
  every method atomic; a method that mutates returns the new log, and \<open>StaleTermError\<close>
  is the left injection. \<open>time.time()\<close> is the argument \<open>now\<close>.

  Shown: whatever sequence of appends (local or remote) and term changes is made, sequence
  numbers are consecutive, versions equal sequence numbers, terms never decrease along the
  log, a stale term changes nothing, reading since a sequence number returns exactly the
  suffix, and writing the log out and reading it back preserves it.
\<close>

datatype mem_error = StaleTermError int int

record event_log =
  el_room :: string
  el_log :: "membership_event list"
  el_next :: int
  el_term :: int

definition new_log :: "string \<Rightarrow> event_log" where
  "new_log room = \<lparr>el_room = room, el_log = [], el_next = 1, el_term = 1\<rparr>"

definition log_append ::
  "time \<Rightarrow> event_type \<Rightarrow> string \<Rightarrow> string \<Rightarrow> int \<Rightarrow> string \<Rightarrow> string option \<Rightarrow> string option
     \<Rightarrow> event_log \<Rightarrow> mem_error + (membership_event \<times> event_log)" where
  "log_append now event_type user_id source term display_name trace_id public_key l =
     (if term < el_term l then Inl (StaleTermError term (el_term l))
      else
        let cur = (if term > el_term l then term else el_term l);
            event = \<lparr>ev_seq_no = el_next l, ev_room_id = el_room l, ev_user_id = user_id,
                     ev_type = event_type, ev_timestamp = now, ev_version = el_next l,
                     ev_source = source, ev_term = cur, ev_trace_id = trace_id,
                     ev_display_name = display_name, ev_originator = None,
                     ev_public_key = public_key\<rparr>
        in Inr (event, l\<lparr>el_term := cur, el_log := el_log l @ [event], el_next := el_next l + 1\<rparr>))"

definition append_remote :: "membership_event \<Rightarrow> event_log \<Rightarrow> membership_event \<times> event_log" where
  "append_remote event l =
     (let cur = (if ev_term event > el_term l then ev_term event else el_term l);
          local_event = \<lparr>ev_seq_no = el_next l, ev_room_id = el_room l, ev_user_id = ev_user_id event,
                     ev_type = ev_type event, ev_timestamp = ev_timestamp event, ev_version = el_next l,
                     ev_source = ''remote'', ev_term = cur, ev_trace_id = ev_trace_id event,
                     ev_display_name = ev_display_name event, ev_originator = ev_originator event,
                     ev_public_key = ev_public_key event\<rparr>
      in (local_event, l\<lparr>el_term := cur, el_log := el_log l @ [local_event], el_next := el_next l + 1\<rparr>))"

definition get_events_since :: "int \<Rightarrow> event_log \<Rightarrow> membership_event list" where
  "get_events_since seq_no l = filter (\<lambda>e. ev_seq_no e > seq_no) (el_log l)"

definition get_latest_seq_no :: "event_log \<Rightarrow> int" where
  "get_latest_seq_no l = el_next l - 1"

definition advance_term :: "int \<Rightarrow> event_log \<Rightarrow> mem_error + event_log" where
  "advance_term new_term l =
     (if new_term < el_term l then Inl (StaleTermError new_term (el_term l))
      else Inr (l\<lparr>el_term := new_term\<rparr>))"

definition log_serialize :: "event_log \<Rightarrow> json list" where
  "log_serialize l = map event_to_dict (el_log l)"

definition serialize_since :: "int \<Rightarrow> event_log \<Rightarrow> json list" where
  "serialize_since seq_no l = map event_to_dict (filter (\<lambda>e. ev_seq_no e > seq_no) (el_log l))"

definition log_deserialize :: "string \<Rightarrow> json list \<Rightarrow> event_log option" where
  "log_deserialize room data =
     map_option (\<lambda>evs.
       let events = sort_key ev_seq_no evs in
       if events = [] then new_log room
       else (new_log room)\<lparr>el_log := events, el_next := ev_seq_no (last events) + 1,
              el_term := Max (set (map ev_term events))\<rparr>)
     (map_opt event_from_dict data)"

section \<open>The invariant\<close>

definition log_wf :: "event_log \<Rightarrow> bool" where
  "log_wf l = (map ev_seq_no (el_log l) = [el_next l - int (length (el_log l)) .. el_next l - 1]
     \<and> int (length (el_log l)) < el_next l
     \<and> (\<forall>e \<in> set (el_log l). ev_version e = ev_seq_no e)
     \<and> sorted (map ev_term (el_log l)) \<and> (\<forall>e \<in> set (el_log l). ev_term e \<le> el_term l))"

lemma log_wf_new [simp]: "log_wf (new_log room)"
  by (simp add: log_wf_def new_log_def)

lemma log_wf_snoc:
  assumes "log_wf l" "ev_seq_no e = el_next l" "ev_version e = el_next l" "ev_term e = t" "el_term l \<le> t"
  shows "log_wf (l\<lparr>el_term := t, el_log := el_log l @ [e], el_next := el_next l + 1\<rparr>)"
proof -
  let ?a = "el_next l - int (length (el_log l))"
  have "[?a .. el_next l] = [?a .. el_next l - 1] @ [el_next l]"
    by (rule upto_rec2) simp
  with assms show ?thesis by (auto simp: log_wf_def sorted_append intro: order_trans)
qed

lemma log_append_cases:
  obtains (stale) "term < el_term l"
      "log_append now et u src term nm tr pk l = Inl (StaleTermError term (el_term l))"
  | (ok) e where "el_term l \<le> term"
      "log_append now et u src term nm tr pk l =
         Inr (e, l\<lparr>el_term := term, el_log := el_log l @ [e], el_next := el_next l + 1\<rparr>)"
      "e = \<lparr>ev_seq_no = el_next l, ev_room_id = el_room l, ev_user_id = u, ev_type = et,
            ev_timestamp = now, ev_version = el_next l, ev_source = src, ev_term = term,
            ev_trace_id = tr, ev_display_name = nm, ev_originator = None, ev_public_key = pk\<rparr>"
proof (cases "term < el_term l")
  case True
  then show ?thesis using stale by (simp add: log_append_def)
next
  case False
  then have "(if term > el_term l then term else el_term l) = term" by simp
  with False show ?thesis using ok by (simp add: log_append_def Let_def)
qed

lemma log_append_wf:
  "log_wf l \<Longrightarrow> log_append now et u src term nm tr pk l = Inr (e, l') \<Longrightarrow> log_wf l'"
  by (cases rule: log_append_cases[of "term" l now et u src nm tr pk]) (auto intro: log_wf_snoc)

lemma append_remote_wf: "log_wf l \<Longrightarrow> log_wf (snd (append_remote e l))"
  unfolding append_remote_def Let_def snd_conv by (rule log_wf_snoc) auto

lemma append_remote_log:
  "append_remote e l = (e', l') \<Longrightarrow> el_log l' = el_log l @ [e'] \<and> ev_seq_no e' = el_next l
     \<and> ev_version e' = el_next l \<and> ev_type e' = ev_type e \<and> ev_user_id e' = ev_user_id e
     \<and> el_next l' = el_next l + 1 \<and> ev_timestamp e' = ev_timestamp e
     \<and> ev_display_name e' = ev_display_name e \<and> ev_public_key e' = ev_public_key e
     \<and> el_room l' = el_room l"
  by (auto simp: append_remote_def Let_def)

lemma advance_term_wf: "log_wf l \<Longrightarrow> advance_term t l = Inr l' \<Longrightarrow> log_wf l'"
  by (fastforce simp: advance_term_def log_wf_def split: if_splits)

text \<open>The operations as a transition system; a raised \<open>StaleTermError\<close> leaves the log as it
  was.\<close>

datatype log_op =
    Append time event_type string string int string "string option" "string option"
  | AppendRemote membership_event
  | AdvanceTerm int

fun log_step :: "event_log \<Rightarrow> log_op \<Rightarrow> event_log" where
  "log_step l (Append now et u src term nm tr pk) =
     (case log_append now et u src term nm tr pk l of Inl _ \<Rightarrow> l | Inr (_, l') \<Rightarrow> l')"
| "log_step l (AppendRemote e) = snd (append_remote e l)"
| "log_step l (AdvanceTerm t) = (case advance_term t l of Inl _ \<Rightarrow> l | Inr l' \<Rightarrow> l')"

lemma log_wf_step: "log_wf l \<Longrightarrow> log_wf (log_step l op)"
  by (cases op) (auto intro: log_append_wf append_remote_wf advance_term_wf split: sum.split)

interpretation log_inv: inv_system log_step log_wf "\<lambda>_. True"
  by unfold_locales (rule log_wf_step)

text \<open>Nothing that was written is changed, and the term never goes back.\<close>

lemma log_step_extends: "\<exists>es. el_log (log_step l op) = el_log l @ es \<and> length es \<le> 1 \<and> el_term l \<le> el_term (log_step l op)"
  by (cases op) (auto simp: log_append_def append_remote_def advance_term_def Let_def)

lemma log_steps_extend: "\<exists>es. el_log (foldl log_step l ops) = el_log l @ es \<and> el_term l \<le> el_term (foldl log_step l ops)"
proof (induction ops arbitrary: l)
  case (Cons op ops)
  obtain es where "el_log (log_step l op) = el_log l @ es" "el_term l \<le> el_term (log_step l op)"
    using log_step_extends by blast
  moreover obtain fs where "el_log (foldl log_step (log_step l op) ops) = el_log (log_step l op) @ fs"
    "el_term (log_step l op) \<le> el_term (foldl log_step (log_step l op) ops)" using Cons.IH by blast
  ultimately show ?case by auto
qed simp

text \<open>A fresh log numbers its events from 1.\<close>

lemma log_step_offset: "el_next (log_step l op) - int (length (el_log (log_step l op))) = el_next l - int (length (el_log l))"
  by (cases op) (auto simp: log_append_def append_remote_def advance_term_def Let_def)

lemma log_steps_offset:
  "el_next (foldl log_step l ops) - int (length (el_log (foldl log_step l ops))) = el_next l - int (length (el_log l))"
  by (induction ops arbitrary: l) (simp_all add: log_step_offset)

section \<open>Reading the log\<close>

lemma log_wf_sorted: "log_wf l \<Longrightarrow> sorted_wrt (<) (map ev_seq_no (el_log l))"
  by (simp add: log_wf_def)

lemma log_wf_seq_bounds: "log_wf l \<Longrightarrow> e \<in> set (el_log l) \<Longrightarrow> 0 < ev_seq_no e \<and> ev_seq_no e < el_next l"
proof -
  assume wf: "log_wf l" and e: "e \<in> set (el_log l)"
  then have "ev_seq_no e \<in> set [el_next l - int (length (el_log l)) .. el_next l - 1]"
    by (metis image_eqI list.set_map log_wf_def)
  with wf show ?thesis by (auto simp: log_wf_def)
qed

lemma filter_since:
  assumes "sorted_wrt (<) (map ev_seq_no (xs @ ys))"
    and "\<forall>e \<in> set xs. ev_seq_no e \<le> s" "\<forall>e \<in> set ys. s < ev_seq_no e"
  shows "filter (\<lambda>e. ev_seq_no e > s) (xs @ ys) = ys"
  using assms(2,3) by (auto simp: filter_id_conv filter_empty_conv not_less)

text \<open>Reading since a sequence number that occurs in the log returns exactly what was
  appended after it.\<close>

lemma events_since_split:
  assumes "log_wf l" "el_log l = xs @ e # ys"
  shows "get_events_since (ev_seq_no e) l = ys"
proof -
  have s: "sorted_wrt (<) (map ev_seq_no ((xs @ [e]) @ ys))" using log_wf_sorted[OF assms(1)] assms(2) by simp
  then have "\<forall>x \<in> set (xs @ [e]). ev_seq_no x \<le> ev_seq_no e" "\<forall>x \<in> set ys. ev_seq_no e < ev_seq_no x"
    by (auto simp: sorted_wrt_append)
  from filter_since[OF s this] show ?thesis by (simp add: get_events_since_def assms(2))
qed

lemma events_since_zero: "log_wf l \<Longrightarrow> get_events_since 0 l = el_log l"
  using log_wf_seq_bounds by (auto simp: get_events_since_def filter_id_conv)

section \<open>Serialisation\<close>

definition norm_event :: "membership_event \<Rightarrow> membership_event" where
  "norm_event e = e\<lparr>ev_public_key := norm_pk (ev_public_key e)\<rparr>"

lemma norm_event_simps [simp]:
  "ev_seq_no (norm_event e) = ev_seq_no e" "ev_type (norm_event e) = ev_type e"
  "ev_user_id (norm_event e) = ev_user_id e" "ev_version (norm_event e) = ev_version e"
  "ev_term (norm_event e) = ev_term e" "ev_timestamp (norm_event e) = ev_timestamp e"
  by (simp_all add: norm_event_def)

lemma decode_events: "map_opt event_from_dict (map event_to_dict es) = Some (map norm_event es)"
  by (rule map_opt_map) (simp add: event_dict_roundtrip norm_event_def)

lemma sort_events: "sorted_wrt (<) (map ev_seq_no es) \<Longrightarrow> sort_key ev_seq_no es = es"
  by (rule sort_key_id_if_sorted) (simp add: strict_sorted_iff)

lemma log_roundtrip:
  assumes "log_wf l"
  shows "log_deserialize (el_room l) (log_serialize l) =
    Some (if el_log l = [] then new_log (el_room l)
      else l\<lparr>el_log := map norm_event (el_log l), el_term := Max (set (map ev_term (el_log l)))\<rparr>)"
proof -
  have s: "sort_key ev_seq_no (map norm_event (el_log l)) = map norm_event (el_log l)"
    using log_wf_sorted[OF assms] by (intro sort_events) (simp add: comp_def)
  have last: "ev_seq_no (last (map norm_event (el_log l))) + 1 = el_next l" if ne: "el_log l \<noteq> []"
  proof -
    have "ev_seq_no (last (el_log l)) = last (map ev_seq_no (el_log l))" using ne by (simp add: last_map)
    also have "\<dots> = last [el_next l - int (length (el_log l)) .. el_next l - 1]"
      using assms by (simp only: log_wf_def)
    also have "\<dots> = el_next l - 1"
      using ne by (subst upto_rec2) auto
    finally show ?thesis using ne by (simp add: last_map)
  qed
  have terms: "map ev_term (map norm_event (el_log l)) = map ev_term (el_log l)" by simp
  show ?thesis
    using last by (cases "el_log l = []")
      (simp_all add: log_deserialize_def log_serialize_def decode_events s terms new_log_def Let_def
        image_image)
qed

end
