(* ===== verification/Membership_Snapshot.thy ===== *)
theory Membership_Snapshot
  imports Event_Log "HOL-Library.Sublist"
begin

text \<open>
  \<open>peer_discovery/membership/snapshot.py\<close>: the member table derived from the log, with the
  guard of every event type. An event whose guard fails is logged and skipped: the method
  returns \<open>None\<close> and nothing changes, not even \<open>as_of_seq_no\<close>.

  The abstract specification is the life cycle of one member, \<open>next_state\<close>. Shown: the
  table refines it user by user, so member states depend only on each user's own events and
  not on how the events of different users interleave; an active member has been accepted,
  has started and has completed its backfill; replaying the tail of a log on a saved
  snapshot gives the snapshot of the whole log; serialisation round-trips.
\<close>

record snap =
  sn_room :: string
  sn_members :: "(string, member_info) dict"
  sn_version :: int
  sn_as_of :: int

definition new_snap :: "string \<Rightarrow> snap" where
  "new_snap room = \<lparr>sn_room = room, sn_members = [], sn_version = 0, sn_as_of = 0\<rparr>"

text \<open>\<open>_ALLOWED_FROM_STATES\<close>; \<open>None\<close> is no precondition.\<close>

fun allowed_from :: "event_type \<Rightarrow> member_state list option" where
  "allowed_from JOIN_REQUESTED = None"
| "allowed_from JOIN_ACCEPTED = Some [DISCONNECTED, LEFT]"
| "allowed_from JOIN_REJECTED = None"
| "allowed_from HISTORY_BACKFILL_STARTED = Some [JOINING]"
| "allowed_from HISTORY_BACKFILL_COMPLETE = Some [BACKFILLING]"
| "allowed_from LEAVE_REQUESTED = Some [ACTIVE]"
| "allowed_from LEAVE_CONFIRMED = Some [LEAVING]"
| "allowed_from HEARTBEAT = None"
| "allowed_from DISCONNECT_SUSPECTED = Some [ACTIVE]"
| "allowed_from DISCONNECT_TIMEOUT = Some [SUSPECTED, BACKFILLING]"
| "allowed_from RECONNECTED = Some [SUSPECTED]"

definition is_transition_valid :: "event_type \<Rightarrow> member_state option \<Rightarrow> bool" where
  "is_transition_valid et cur =
     (if et = JOIN_ACCEPTED then cur \<in> {None, Some DISCONNECTED, Some LEFT}
      else if et = HEARTBEAT then cur \<noteq> None
      else (case allowed_from et of
              None \<Rightarrow> True
            | Some ss \<Rightarrow> (case cur of None \<Rightarrow> False | Some st \<Rightarrow> st \<in> set ss)))"

definition mk_delta :: "string \<Rightarrow> membership_event \<Rightarrow> membership_delta" where
  "mk_delta ty e = \<lparr>md_type = ty, md_user_id = ev_user_id e, md_event = Some e\<rparr>"

text \<open>\<open>_dispatch\<close>: the new entry of the member, if it changes, and the delta. The guards
  ensure that an event that updates \<open>current\<close> finds one.\<close>

definition dispatch_event ::
  "membership_event \<Rightarrow> member_info option \<Rightarrow> member_info option \<times> membership_delta option" where
  "dispatch_event e current =
     (case ev_type e of
        JOIN_REQUESTED \<Rightarrow> (None, None)
      | JOIN_REJECTED \<Rightarrow> (None, None)
      | JOIN_ACCEPTED \<Rightarrow>
          (Some \<lparr>mi_user_id = ev_user_id e, mi_display_name = ev_display_name e, mi_state = JOINING,
                 mi_joined_at = ev_timestamp e, mi_last_heartbeat = ev_timestamp e,
                 mi_version = ev_version e, mi_public_key = ev_public_key e\<rparr>,
           Some (mk_delta ''joined'' e))
      | HISTORY_BACKFILL_STARTED \<Rightarrow>
          (map_option (\<lambda>m. m\<lparr>mi_state := BACKFILLING, mi_version := ev_version e\<rparr>) current, None)
      | HISTORY_BACKFILL_COMPLETE \<Rightarrow>
          (map_option (\<lambda>m. m\<lparr>mi_state := ACTIVE, mi_version := ev_version e\<rparr>) current,
           Some (mk_delta ''active'' e))
      | LEAVE_REQUESTED \<Rightarrow>
          (map_option (\<lambda>m. m\<lparr>mi_state := LEAVING, mi_version := ev_version e\<rparr>) current, None)
      | LEAVE_CONFIRMED \<Rightarrow>
          (map_option (\<lambda>m. m\<lparr>mi_state := LEFT, mi_version := ev_version e\<rparr>) current,
           Some (mk_delta ''left'' e))
      | HEARTBEAT \<Rightarrow>
          (map_option (\<lambda>m. m\<lparr>mi_last_heartbeat := ev_timestamp e\<rparr>) current, None)
      | DISCONNECT_SUSPECTED \<Rightarrow>
          (map_option (\<lambda>m. m\<lparr>mi_state := SUSPECTED, mi_version := ev_version e\<rparr>) current,
           Some (mk_delta ''suspected'' e))
      | DISCONNECT_TIMEOUT \<Rightarrow>
          (map_option (\<lambda>m. m\<lparr>mi_state := DISCONNECTED, mi_version := ev_version e\<rparr>) current,
           Some (mk_delta ''disconnected'' e))
      | RECONNECTED \<Rightarrow>
          (map_option (\<lambda>m. m\<lparr>mi_state := ACTIVE, mi_last_heartbeat := ev_timestamp e,
                             mi_version := ev_version e\<rparr>) current,
           Some (mk_delta ''reconnected'' e)))"

definition apply_event :: "snap \<Rightarrow> membership_event \<Rightarrow> snap \<times> membership_delta option" where
  "apply_event s e =
     (if ev_seq_no e \<le> sn_as_of s then (s, None)
      else
        let current = map_of (sn_members s) (ev_user_id e) in
        if \<not> is_transition_valid (ev_type e) (map_option mi_state current) then (s, None)
        else
          let (entry, delta) = dispatch_event e current;
              members = (case entry of None \<Rightarrow> sn_members s
                         | Some m \<Rightarrow> dict_set (ev_user_id e) m (sn_members s))
          in (s\<lparr>sn_members := members, sn_version := ev_version e, sn_as_of := ev_seq_no e\<rparr>, delta))"

definition get_active_members :: "snap \<Rightarrow> member_info list" where
  "get_active_members s = filter (\<lambda>m. mi_state m = ACTIVE) (dict_values (sn_members s))"

definition get_member :: "string \<Rightarrow> snap \<Rightarrow> member_info option" where
  "get_member u s = map_of (sn_members s) u"

definition get_snapshot :: "snap \<Rightarrow> snapshot_data" where
  "get_snapshot s = \<lparr>sd_room_id = sn_room s, sd_version = sn_version s, sd_members = sn_members s,
     sd_active_count = length (filter (\<lambda>m. mi_state m = ACTIVE) (dict_values (sn_members s))),
     sd_as_of = sn_as_of s\<rparr>"

definition snap_serialize :: "snap \<Rightarrow> json" where
  "snap_serialize s = JObj [(''room_id'', JStr (sn_room s)), (''version'', JInt (sn_version s)),
     (''as_of_seq_no'', JInt (sn_as_of s)),
     (''members'', JObj (map (\<lambda>(u, m). (u, member_to_dict m)) (sn_members s)))]"

definition snap_deserialize :: "json \<Rightarrow> snap option" where
  "snap_deserialize d = do {
     room \<leftarrow> jget d ''room_id'' \<bind> as_str;
     ver \<leftarrow> jget d ''version'' \<bind> as_int;
     asof \<leftarrow> jget d ''as_of_seq_no'' \<bind> as_int;
     ms \<leftarrow> jget d ''members'' \<bind> as_obj;
     members \<leftarrow> map_opt (\<lambda>(u, m). map_option (\<lambda>mi. (u, mi)) (member_from_dict m)) ms;
     Some \<lparr>sn_room = room, sn_members = members, sn_version = ver, sn_as_of = asof\<rparr>
   }"

section \<open>The life cycle of one member\<close>

text \<open>The edges of the life cycle; every other event leaves the member where it is.\<close>

definition lifecycle :: "((member_state option \<times> event_type) \<times> member_state) list" where
  "lifecycle =
     [((None, JOIN_ACCEPTED), JOINING),
      ((Some DISCONNECTED, JOIN_ACCEPTED), JOINING),
      ((Some LEFT, JOIN_ACCEPTED), JOINING),
      ((Some JOINING, HISTORY_BACKFILL_STARTED), BACKFILLING),
      ((Some BACKFILLING, HISTORY_BACKFILL_COMPLETE), ACTIVE),
      ((Some BACKFILLING, DISCONNECT_TIMEOUT), DISCONNECTED),
      ((Some ACTIVE, LEAVE_REQUESTED), LEAVING),
      ((Some ACTIVE, DISCONNECT_SUSPECTED), SUSPECTED),
      ((Some SUSPECTED, DISCONNECT_TIMEOUT), DISCONNECTED),
      ((Some SUSPECTED, RECONNECTED), ACTIVE),
      ((Some LEAVING, LEAVE_CONFIRMED), LEFT)]"

definition next_state :: "member_state option \<Rightarrow> event_type \<Rightarrow> member_state option" where
  "next_state st t = (case map_of lifecycle (st, t) of None \<Rightarrow> st | Some st' \<Rightarrow> Some st')"

lemmas next_state_eval = next_state_def lifecycle_def

abbreviation member_st :: "snap \<Rightarrow> string \<Rightarrow> member_state option" where
  "member_st s u \<equiv> map_option mi_state (map_of (sn_members s) u)"

abbreviation snap_step :: "snap \<Rightarrow> membership_event \<Rightarrow> snap" where
  "snap_step s e \<equiv> fst (apply_event s e)"

abbreviation materialize :: "snap \<Rightarrow> membership_event list \<Rightarrow> snap" where
  "materialize \<equiv> foldl snap_step"

lemma invalid_next_state: "\<not> is_transition_valid et st \<Longrightarrow> next_state st et = st"
  by (cases et) (auto simp: is_transition_valid_def next_state_eval split: option.splits)

lemma apply_event_stale: "ev_seq_no e \<le> sn_as_of s \<Longrightarrow> apply_event s e = (s, None)"
  by (simp add: apply_event_def)

lemma apply_event_invalid:
  "\<not> is_transition_valid (ev_type e) (member_st s (ev_user_id e)) \<Longrightarrow> apply_event s e = (s, None)"
  by (simp add: apply_event_def)

lemma apply_event_valid:
  assumes "sn_as_of s < ev_seq_no e" "is_transition_valid (ev_type e) (member_st s (ev_user_id e))"
    "dispatch_event e (map_of (sn_members s) (ev_user_id e)) = (entry, delta)"
  shows "apply_event s e = (s\<lparr>sn_members := (case entry of None \<Rightarrow> sn_members s
      | Some m \<Rightarrow> dict_set (ev_user_id e) m (sn_members s)),
     sn_version := ev_version e, sn_as_of := ev_seq_no e\<rparr>, delta)"
  using assms by (simp add: apply_event_def)

text \<open>The entry \<open>_dispatch\<close> writes is in the state of the life cycle; where it writes none,
  the state does not change.\<close>

lemma dispatch_state:
  assumes "is_transition_valid (ev_type e) (map_option mi_state cur)"
    and "dispatch_event e cur = (entry, delta)"
  shows "(case entry of None \<Rightarrow> map_option mi_state cur | Some m \<Rightarrow> Some (mi_state m)) =
    next_state (map_option mi_state cur) (ev_type e)"
proof (cases "ev_type e")
  case JOIN_ACCEPTED
  then show ?thesis using assms
    by (auto simp: dispatch_event_def is_transition_valid_def next_state_eval)
qed (use assms in \<open>cases cur; auto simp: dispatch_event_def is_transition_valid_def next_state_eval\<close>)+

text \<open>The refinement: one event moves its user along the life cycle and nobody else.\<close>

lemma snap_step_state:
  assumes "sn_as_of s < ev_seq_no e"
  shows "member_st (snap_step s e) u =
    (if u = ev_user_id e then next_state (member_st s u) (ev_type e) else member_st s u)"
proof (cases "is_transition_valid (ev_type e) (member_st s (ev_user_id e))")
  case False
  then show ?thesis by (simp add: apply_event_invalid invalid_next_state)
next
  case True
  obtain entry delta where d: "dispatch_event e (map_of (sn_members s) (ev_user_id e)) = (entry, delta)"
    by fastforce
  from dispatch_state[OF True d] apply_event_valid[OF assms True d] show ?thesis
    by (auto simp: map_of_dict_set split: option.splits)
qed

lemma snap_step_other:
  "u \<noteq> ev_user_id e \<Longrightarrow> map_of (sn_members (snap_step s e)) u = map_of (sn_members s) u"
  by (auto simp: apply_event_def Let_def map_of_dict_set split: prod.splits option.splits)

lemma snap_step_as_of:
  "sn_as_of (snap_step s e) = sn_as_of s \<and> snap_step s e = s \<or>
   sn_as_of (snap_step s e) = ev_seq_no e \<and> sn_version (snap_step s e) = ev_version e
     \<and> sn_as_of s < ev_seq_no e"
  by (auto simp: apply_event_def Let_def split: prod.splits)

lemma snap_step_room [simp]: "sn_room (snap_step s e) = sn_room s"
  by (auto simp: apply_event_def Let_def split: prod.splits)

lemma materialize_room [simp]: "sn_room (materialize s es) = sn_room s"
  by (induction es arbitrary: s) auto

lemma snap_step_wf: "wf_dict (sn_members s) \<Longrightarrow> wf_dict (sn_members (snap_step s e))"
  by (auto simp: apply_event_def Let_def split: prod.splits option.splits)

lemma snap_step_keys:
  "set (dict_keys (sn_members (snap_step s e))) \<subseteq> insert (ev_user_id e) (set (dict_keys (sn_members s)))"
  by (auto simp: apply_event_def Let_def simp del: set_map split: prod.splits option.splits)

lemma materialize_as_of_le: "sn_as_of s \<le> sn_as_of (materialize s es)"
proof (induction es arbitrary: s)
  case (Cons e es)
  have "sn_as_of s \<le> sn_as_of (snap_step s e)" using snap_step_as_of[of s e] by auto
  also have "\<dots> \<le> sn_as_of (materialize (snap_step s e) es)" by (rule Cons.IH)
  finally show ?case by simp
qed simp

lemma materialize_as_of: "sn_as_of (materialize s es) \<in> insert (sn_as_of s) (ev_seq_no ` set es)"
proof (induction es arbitrary: s)
  case (Cons e es)
  have "sn_as_of (snap_step s e) \<in> {sn_as_of s, ev_seq_no e}" using snap_step_as_of[of s e] by auto
  with Cons.IH[of "snap_step s e"] show ?case by auto
qed simp

section \<open>The table refines the life cycles\<close>

abbreviation user_events :: "string \<Rightarrow> membership_event list \<Rightarrow> event_type list" where
  "user_events u es \<equiv> map ev_type (filter (\<lambda>e. ev_user_id e = u) es)"

lemma materialize_states:
  assumes "sorted_wrt (<) (map ev_seq_no es)" "\<forall>e \<in> set es. sn_as_of s < ev_seq_no e"
  shows "member_st (materialize s es) u = foldl next_state (member_st s u) (user_events u es)"
  using assms
proof (induction es arbitrary: s)
  case (Cons e es)
  then have e: "sn_as_of s < ev_seq_no e" by simp
  have "\<forall>x \<in> set es. sn_as_of (snap_step s e) < ev_seq_no x"
    using Cons.prems snap_step_as_of[of s e] by auto
  with Cons snap_step_state[OF e, of u] show ?case by auto
qed simp

text \<open>What a member's state says about the events that led to it.\<close>

fun stage :: "member_state option \<Rightarrow> event_type list" where
  "stage None = []"
| "stage (Some JOINING) = [JOIN_ACCEPTED]"
| "stage (Some BACKFILLING) = [JOIN_ACCEPTED, HISTORY_BACKFILL_STARTED]"
| "stage (Some DISCONNECTED) = [JOIN_ACCEPTED, HISTORY_BACKFILL_STARTED]"
| "stage (Some _) = [JOIN_ACCEPTED, HISTORY_BACKFILL_STARTED, HISTORY_BACKFILL_COMPLETE]"

lemma stage_step: "subseq (stage (next_state st t)) (stage st @ [t])"
proof (cases "map_of lifecycle (st, t)")
  case None
  then show ?thesis by (auto simp: next_state_def)
next
  case (Some st')
  then have "((st, t), st') \<in> set lifecycle" by (rule map_of_SomeD)
  then have "subseq (stage (Some st')) (stage st @ [t])" unfolding lifecycle_def by auto
  with Some show ?thesis by (simp add: next_state_def)
qed

lemma stage_history: "subseq (stage (foldl next_state None ts)) ts"
proof (induction ts rule: rev_induct)
  case (snoc t ts)
  have "subseq (stage (foldl next_state None (ts @ [t]))) (stage (foldl next_state None ts) @ [t])"
    using stage_step by simp
  also have "subseq (stage (foldl next_state None ts) @ [t]) (ts @ [t])"
    using snoc by (intro list_emb_append_mono) auto
  finally show ?case .
qed simp

section \<open>Recovering from a saved snapshot\<close>

lemma skipped_again:
  assumes "sorted_wrt (<) (map ev_seq_no xs)" "\<forall>e \<in> set xs. sn_as_of s < ev_seq_no e"
    and "e \<in> set xs" "sn_as_of (materialize s xs) < ev_seq_no e"
  shows "snap_step (materialize s xs) e = materialize s xs"
  using assms
proof (induction xs arbitrary: e rule: rev_induct)
  case (snoc x xs)
  let ?m = "materialize s xs"
  from snap_step_as_of[of ?m x] consider (skip) "snap_step ?m x = ?m"
    | (taken) "sn_as_of (snap_step ?m x) = ev_seq_no x" by blast
  then show ?case
  proof cases
    case skip
    with snoc show ?thesis by (cases "e = x") (auto simp: sorted_wrt_append)
  next
    case taken
    have "ev_seq_no e \<le> ev_seq_no x" using snoc.prems(1,3) by (auto simp: sorted_wrt_append)
    with taken snoc.prems(4) show ?thesis by simp
  qed
qed simp

lemma materialize_fixed: "\<forall>e \<in> set es. snap_step s e = s \<Longrightarrow> materialize s es = s"
  by (induction es) auto

lemma materialize_tail:
  assumes s: "sorted_wrt (<) (map ev_seq_no (xs @ ys))" and a: "\<forall>e \<in> set (xs @ ys). sn_as_of s < ev_seq_no e"
  shows "materialize (materialize s xs) (filter (\<lambda>e. ev_seq_no e > sn_as_of (materialize s xs)) (xs @ ys)) =
    materialize s (xs @ ys)"
proof -
  let ?m = "materialize s xs"
  have "materialize ?m (filter (\<lambda>e. ev_seq_no e > sn_as_of ?m) xs) = ?m"
    using skipped_again[of xs s] s a by (intro materialize_fixed) (auto simp: sorted_wrt_append)
  moreover have "filter (\<lambda>e. ev_seq_no e > sn_as_of ?m) ys = ys"
    using s a materialize_as_of[of s xs] by (auto simp: filter_id_conv sorted_wrt_append)
  ultimately show ?thesis by simp
qed

section \<open>Serialisation\<close>

definition norm_member :: "member_info \<Rightarrow> member_info" where
  "norm_member m = m\<lparr>mi_public_key := norm_pk (mi_public_key m)\<rparr>"

definition norm_snap :: "snap \<Rightarrow> snap" where
  "norm_snap s = s\<lparr>sn_members := map (\<lambda>(u, m). (u, norm_member m)) (sn_members s)\<rparr>"

lemma snap_roundtrip: "snap_deserialize (snap_serialize s) = Some (norm_snap s)"
proof -
  have "map_opt (\<lambda>(u, m). map_option (\<lambda>mi. (u, mi)) (member_from_dict m))
      (map (\<lambda>(u, m). (u, member_to_dict m)) (sn_members s)) =
     Some (map (\<lambda>(u, m). (u, norm_member m)) (sn_members s))"
    by (rule map_opt_map) (auto simp: member_dict_roundtrip norm_member_def)
  then show ?thesis by (simp add: snap_deserialize_def snap_serialize_def norm_snap_def)
qed

lemma active_iff:
  "wf_dict (sn_members s) \<Longrightarrow> u \<in> set (dict_keys (filter (\<lambda>(_, m). mi_state m = ACTIVE) (sn_members s)))
     \<longleftrightarrow> member_st s u = Some ACTIVE"
  by (force dest: map_of_SomeD)

end
