(* ===== verification/Durability.thy ===== *)
theory Durability
  imports Membership_Snapshot
begin

text \<open>
  \<open>peer_discovery/membership/durability.py\<close>: checkpoints of a room in a directory. The
  directory is a dictionary from file names to contents; a content that does not parse as
  JSON is \<open>None\<close>. A checkpoint is written to a temporary file and moved in place
  (\<open>os.replace\<close>), so a reader sees the old or the new file: one update here.

  Shown: a checkpoint of a consistent log and snapshot is read back as the snapshot and the
  tail of the log; pruning keeps the newest two checkpoints of the room and every other
  file; a corrupt newest checkpoint falls back to the one before it.
\<close>

type_synonym disk = "(string, json option) dict"

record durability =
  du_disk :: disk
  du_interval :: int

definition KEEP_LAST :: nat where "KEEP_LAST = 2"

definition checkpoint_name :: "string \<Rightarrow> int \<Rightarrow> string" where
  "checkpoint_name room latest = ''checkpoint_'' @ room @ ''_'' @ int_str latest @ ''.json''"

text \<open>The pattern \<open>^checkpoint_(.+)_(\d+)\.json$\<close>: the greedy group ends at the last
  underscore, since digits follow it.\<close>

definition checkpoint_match :: "string \<Rightarrow> (string \<times> int) option" where
  "checkpoint_match name = do {
     r \<leftarrow> strip_prefix ''checkpoint_'' name;
     body \<leftarrow> strip_suffix ''.json'' r;
     (room, ds) \<leftarrow> rsplit1 (CHR ''_'') body;
     if room \<noteq> [] \<and> ds \<noteq> [] \<and> list_all is_digit ds then map_option (\<lambda>n. (room, int n)) (py_nat ds)
     else None
   }"

definition list_checkpoints :: "string \<Rightarrow> disk \<Rightarrow> (int \<times> string) list" where
  "list_checkpoints room disk =
     sort_key (\<lambda>t. - fst t)
       (List.map_filter (\<lambda>name. case checkpoint_match name of
            None \<Rightarrow> None
          | Some (file_room, seq) \<Rightarrow> if file_room \<noteq> room then None else Some (seq, name))
        (dict_keys disk))"

definition prune :: "string \<Rightarrow> disk \<Rightarrow> disk" where
  "prune room disk = foldl (\<lambda>d (_, name). dict_pop name d) disk (drop KEEP_LAST (list_checkpoints room disk))"

definition payload :: "event_log \<Rightarrow> snap \<Rightarrow> json" where
  "payload l s = JObj
     [(''room_id'', JStr (el_room l)), (''as_of_seq_no'', JInt (sn_as_of s)),
      (''snapshot'', snap_serialize s), (''log_tail'', JList (serialize_since (sn_as_of s) l)),
      (''current_term'', JInt (el_term l)), (''next_seq_no'', JInt (get_latest_seq_no l + 1))]"

definition write_checkpoint :: "event_log \<Rightarrow> snap \<Rightarrow> durability \<Rightarrow> durability" where
  "write_checkpoint l s d =
     (let room = el_room l;
          disk = dict_set (checkpoint_name room (get_latest_seq_no l)) (Some (payload l s)) (du_disk d)
      in d\<lparr>du_disk := prune room disk\<rparr>)"

definition maybe_checkpoint :: "event_log \<Rightarrow> snap \<Rightarrow> durability \<Rightarrow> bool \<times> durability" where
  "maybe_checkpoint l s d =
     (let latest = get_latest_seq_no l in
      if latest > 0 \<and> latest mod du_interval d = 0 then (True, write_checkpoint l s d) else (False, d))"

definition force_checkpoint :: "event_log \<Rightarrow> snap \<Rightarrow> durability \<Rightarrow> durability" where
  "force_checkpoint l s d = write_checkpoint l s d"

definition reconstruct :: "string \<Rightarrow> json \<Rightarrow> (event_log \<times> snap) option" where
  "reconstruct room p = do {
     snap \<leftarrow> jget p ''snapshot'' \<bind> snap_deserialize;
     evs \<leftarrow> jget p ''log_tail'' \<bind> as_list \<bind> map_opt event_from_dict;
     nx \<leftarrow> jget p ''next_seq_no'' \<bind> as_int;
     tm \<leftarrow> jget p ''current_term'' \<bind> as_int;
     let tail = sort_key ev_seq_no evs;
         l = (new_log room)\<lparr>el_log := tail, el_next := nx, el_term := tm\<rparr>;
         snap' = foldl (\<lambda>s e. if ev_seq_no e > sn_as_of s then snap_step s e else s) snap tail
     in Some (l, snap')
   }"

fun recover_first :: "string \<Rightarrow> disk \<Rightarrow> (int \<times> string) list \<Rightarrow> (event_log \<times> snap) option" where
  "recover_first room disk [] = None"
| "recover_first room disk ((_, name) # rest) =
     (case map_of disk name of
        Some (Some p) \<Rightarrow>
          (case reconstruct room p of Some r \<Rightarrow> Some r | None \<Rightarrow> recover_first room disk rest)
      | _ \<Rightarrow> recover_first room disk rest)"

definition dur_recover :: "string \<Rightarrow> durability \<Rightarrow> (event_log \<times> snap) option" where
  "dur_recover room d = recover_first room (du_disk d) (list_checkpoints room (du_disk d))"

section \<open>File names\<close>

lemma underscore_not_digit: "\<not> is_digit (CHR ''_'')"
  by (simp add: is_digit_def)

lemma checkpoint_match_name:
  assumes "room \<noteq> []" "0 \<le> n"
  shows "checkpoint_match (checkpoint_name room n) = Some (room, n)"
proof -
  have ds: "int_str n = nat_str (nat n)" using assms(2) by (simp add: int_str_def)
  have "CHR ''_'' \<notin> set (nat_str (nat n))" using nat_str_digits underscore_not_digit by blast
  then have r: "rsplit1 (CHR ''_'') (room @ CHR ''_'' # nat_str (nat n)) = Some (room, nat_str (nat n))"
    by (rule rsplit1_last)
  have p: "strip_prefix ''checkpoint_'' (checkpoint_name room n) = Some ((room @ CHR ''_'' # nat_str (nat n)) @ ''.json'')"
    unfolding checkpoint_name_def ds by (subst strip_prefix_append) simp
  show ?thesis
    unfolding checkpoint_match_def p Option.bind.bind_lunit strip_suffix_append r using assms
    by (simp add: py_nat_nat_str list_all_iff nat_str_digits)
qed

section \<open>Reading a checkpoint back\<close>

text \<open>A log and a snapshot are in step: the events the snapshot has not consumed are ones it
  skips.\<close>

definition synced :: "event_log \<Rightarrow> snap \<Rightarrow> bool" where
  "synced l s = (log_wf l \<and> wf_dict (sn_members s) \<and> sn_as_of s < el_next l \<and> 0 \<le> sn_as_of s
     \<and> sn_version s = sn_as_of s
     \<and> (\<forall>e \<in> set (el_log l). sn_as_of s < ev_seq_no e \<longrightarrow> snap_step s e = s))"

lemma dict_map_set:
  "map (\<lambda>(u, m). (u, f m)) (dict_set k v d) = dict_set k (f v) (map (\<lambda>(u, m). (u, f m)) d)"
  by (induction d) auto

lemma map_of_norm:
  "map_of (map (\<lambda>(u, m). (u, f m)) d) k = map_option f (map_of d k)"
  by (induction d) auto

lemma norm_member_state [simp]: "mi_state (norm_member m) = mi_state m"
  by (simp add: norm_member_def)

lemma dispatch_norm:
  "fst (dispatch_event (norm_event e) (map_option norm_member cur)) =
     map_option norm_member (fst (dispatch_event e cur))"
  by (cases "ev_type e"; cases cur)
    (auto simp: dispatch_event_def norm_event_def norm_member_def)

lemma snap_step_norm: "snap_step (norm_snap s) (norm_event e) = norm_snap (snap_step s e)"
proof -
  let ?cur = "map_of (sn_members s) (ev_user_id e)"
  have cur: "map_of (sn_members (norm_snap s)) (ev_user_id e) = map_option norm_member ?cur"
    by (simp add: norm_snap_def map_of_norm)
  have st: "map_option mi_state (map_option norm_member ?cur) = map_option mi_state ?cur"
    by (cases ?cur) auto
  obtain entry delta where d: "dispatch_event e ?cur = (entry, delta)" by fastforce
  obtain delta' where d': "dispatch_event (norm_event e) (map_option norm_member ?cur) =
      (map_option norm_member entry, delta')"
    using dispatch_norm[of e ?cur] d by (metis fst_conv prod.collapse)
  have as_of: "sn_as_of (norm_snap s) = sn_as_of s" by (simp add: norm_snap_def)
  show ?thesis
    using d d' cur st as_of
    by (cases entry) (auto simp: apply_event_def Let_def norm_snap_def dict_map_set)
qed

lemma foldl_fixed: "\<forall>e \<in> set es. f s e = s \<Longrightarrow> foldl f s es = s"
  by (induction es) auto

lemma reconstruct_payload:
  assumes "synced l s"
  shows "reconstruct (el_room l) (payload l s) =
    Some (l\<lparr>el_log := map norm_event (get_events_since (sn_as_of s) l)\<rparr>, norm_snap s)"
proof -
  let ?tail = "get_events_since (sn_as_of s) l"
  let ?f = "\<lambda>s e. if ev_seq_no e > sn_as_of s then snap_step s e else s"
  have "sorted_wrt (<) (map ev_seq_no (el_log l))" using assms by (simp add: synced_def log_wf_sorted)
  then have "sorted_wrt (\<lambda>x y. ev_seq_no x < ev_seq_no y) ?tail"
    by (simp add: get_events_since_def sorted_wrt_map sorted_wrt_filter)
  then have srt: "sort_key ev_seq_no (map norm_event ?tail) = map norm_event ?tail"
    by (intro sort_events) (simp add: sorted_wrt_map)
  have "snap_step s e = s" if "e \<in> set ?tail" for e
    using that assms by (auto simp: synced_def get_events_since_def)
  then have "foldl ?f (norm_snap s) (map norm_event ?tail) = norm_snap s"
    by (intro foldl_fixed) (auto simp: snap_step_norm)
  then show ?thesis
    by (simp add: reconstruct_def payload_def snap_roundtrip serialize_since_def decode_events
        get_events_since_def[symmetric] srt get_latest_seq_no_def new_log_def)
qed

section \<open>Pruning\<close>

definition room_files :: "string \<Rightarrow> string list \<Rightarrow> (int \<times> string) list" where
  "room_files room names = List.map_filter (\<lambda>name. case checkpoint_match name of
            None \<Rightarrow> None
          | Some (file_room, seq) \<Rightarrow> if file_room \<noteq> room then None else Some (seq, name)) names"

lemma list_checkpoints_eq:
  "list_checkpoints room disk = sort_key (\<lambda>t. - fst t) (room_files room (dict_keys disk))"
  by (simp add: list_checkpoints_def room_files_def)

lemma room_files_simps [simp]:
  "room_files room [] = []"
  "room_files room (n # ns) = (case checkpoint_match n of
     Some (r, seq) \<Rightarrow> if r = room then (seq, n) # room_files room ns else room_files room ns
   | None \<Rightarrow> room_files room ns)"
  by (auto simp: room_files_def List.map_filter_def split: option.split)

lemma room_files_append [simp]: "room_files room (xs @ ys) = room_files room xs @ room_files room ys"
  by (induction xs) (auto split: option.split)

lemma set_room_files: "(seq, n) \<in> set (room_files room ns) \<longleftrightarrow> n \<in> set ns \<and> checkpoint_match n = Some (room, seq)"
  by (induction ns) (auto split: option.splits)

lemma distinct_room_files: "distinct ns \<Longrightarrow> distinct (room_files room ns)"
  by (induction ns) (auto simp: set_room_files split: option.splits)

lemma room_files_filter:
  "room_files room (filter P ns) = filter (\<lambda>t. P (snd t)) (room_files room ns)"
  by (induction ns) (auto split: option.splits)

lemma foldl_pop_keys:
  "dict_keys (foldl (\<lambda>d (_, name). dict_pop name d) disk fs) = filter (\<lambda>n. n \<notin> snd ` set fs) (dict_keys disk)"
proof (induction fs arbitrary: disk)
  case (Cons f fs)
  then show ?case
    by (cases f) (auto simp: delete_keys removeAll_filter_not_eq intro: filter_cong)
qed simp

lemma map_of_foldl_pop:
  "map_of (foldl (\<lambda>d (_, name). dict_pop name d) disk fs) n = (if n \<in> snd ` set fs then None else map_of disk n)"
  by (induction fs arbitrary: disk) (auto simp: map_of_dict_pop)

lemma filter_take: "distinct xs \<Longrightarrow> filter (\<lambda>x. x \<notin> set (drop n xs)) xs = take n xs"
proof -
  assume d: "distinct xs"
  then have "distinct (take n xs @ drop n xs)" by simp
  then have "set (take n xs) \<inter> set (drop n xs) = {}" unfolding distinct_append by blast
  then have "filter (\<lambda>x. x \<notin> set (drop n xs)) (take n xs @ drop n xs) = take n xs"
    unfolding filter_append by (auto simp: filter_id_conv filter_empty_conv)
  then show ?thesis by simp
qed

lemma list_checkpoints_distinct:
  "wf_dict disk \<Longrightarrow> distinct (list_checkpoints room disk)"
  by (simp add: list_checkpoints_eq distinct_room_files)

lemma checkpoint_inj:
  "t \<in> set (list_checkpoints room disk) \<Longrightarrow> t' \<in> set (list_checkpoints room disk) \<Longrightarrow> snd t = snd t' \<Longrightarrow> t = t'"
  by (cases t; cases t') (auto simp: list_checkpoints_eq set_room_files)

lemma list_checkpoints_prune:
  assumes "wf_dict disk"
  shows "list_checkpoints room (prune room disk) = take KEEP_LAST (list_checkpoints room disk)"
proof -
  let ?L = "list_checkpoints room disk" and ?D = "drop KEEP_LAST (list_checkpoints room disk)"
  have "list_checkpoints room (prune room disk) =
      sort_key (\<lambda>t. - fst t) (filter (\<lambda>t. snd t \<notin> snd ` set ?D) (room_files room (dict_keys disk)))"
    by (subst list_checkpoints_eq) (simp only: prune_def foldl_pop_keys room_files_filter)
  also have "\<dots> = filter (\<lambda>t. snd t \<notin> snd ` set ?D) ?L"
    by (simp add: list_checkpoints_eq filter_sort)
  also have "\<dots> = filter (\<lambda>t. t \<notin> set ?D) ?L"
  proof (rule filter_cong[OF refl])
    fix t assume t: "t \<in> set ?L"
    show "snd t \<notin> snd ` set ?D \<longleftrightarrow> t \<notin> set ?D"
      using checkpoint_inj[OF t in_set_dropD] by blast
  qed
  also have "\<dots> = take KEEP_LAST ?L" by (rule filter_take[OF list_checkpoints_distinct[OF assms]])
  finally show ?thesis .
qed

lemma prune_keeps_other:
  "n \<notin> snd ` set (drop KEEP_LAST (list_checkpoints room disk)) \<Longrightarrow> map_of (prune room disk) n = map_of disk n"
  by (simp add: prune_def map_of_foldl_pop)

lemma prune_other_file:
  "checkpoint_match n = None \<or> fst (the (checkpoint_match n)) \<noteq> room \<Longrightarrow>
     map_of (prune room disk) n = map_of disk n"
  by (rule prune_keeps_other) (auto dest!: in_set_dropD simp: list_checkpoints_eq set_room_files)

lemma wf_dict_prune: "wf_dict disk \<Longrightarrow> wf_dict (prune room disk)"
  by (simp add: prune_def foldl_pop_keys)

section \<open>Writing and recovering\<close>

abbreviation newest_before :: "string \<Rightarrow> int \<Rightarrow> disk \<Rightarrow> bool" where
  "newest_before room n disk \<equiv> \<forall>t \<in> set (list_checkpoints room disk). fst t < n"

lemma sort_snoc_min:
  assumes "\<forall>y \<in> set xs. f x < (f y :: int)"
  shows "sort_key f (xs @ [x]) = x # sort_key f xs"
proof (rule properties_for_sort_key)
  show "mset (x # sort_key f xs) = mset (xs @ [x])" by simp
  show "sorted (map f (x # sort_key f xs))" using assms by auto
  fix k assume "k \<in> set (x # sort_key f xs)"
  then show "filter (\<lambda>y. f k = f y) (x # sort_key f xs) = filter (\<lambda>y. f k = f y) (xs @ [x])"
  proof (cases "k = x")
    case True
    then have "filter (\<lambda>y. f k = f y) xs = []" "filter (\<lambda>y. f k = f y) (sort_key f xs) = []"
      using assms by (fastforce simp: filter_empty_conv)+
    then show ?thesis using True by simp
  next
    case False
    then have "f x \<noteq> f k" using assms \<open>k \<in> _\<close> by auto
    then show ?thesis using sort_key_stable[of f "f k" xs] by (simp add: eq_commute[of "f k"])
  qed
qed

lemma list_checkpoints_new:
  assumes "room \<noteq> []" "0 \<le> n" "newest_before room n disk"
  shows "list_checkpoints room (dict_set (checkpoint_name room n) v disk) =
    (n, checkpoint_name room n) # list_checkpoints room disk"
proof -
  note m = checkpoint_match_name[OF assms(1,2)]
  have "checkpoint_name room n \<notin> set (dict_keys disk)"
  proof
    assume "checkpoint_name room n \<in> set (dict_keys disk)"
    then have "(n, checkpoint_name room n) \<in> set (list_checkpoints room disk)"
      by (simp add: list_checkpoints_eq set_room_files m)
    with assms(3) show False by force
  qed
  then have "room_files room (dict_keys (dict_set (checkpoint_name room n) v disk)) =
      room_files room (dict_keys disk) @ [(n, checkpoint_name room n)]"
    by (simp add: keys_update_new m)
  then show ?thesis
    unfolding list_checkpoints_eq
    using assms(3) by (simp only:) (rule sort_snoc_min, auto simp: list_checkpoints_eq)
qed

lemma write_checkpoint_files:
  assumes "log_wf l" "el_room l \<noteq> []" "wf_dict (du_disk d)"
    and "newest_before (el_room l) (get_latest_seq_no l) (du_disk d)"
  shows "list_checkpoints (el_room l) (du_disk (write_checkpoint l s d)) =
      (get_latest_seq_no l, checkpoint_name (el_room l) (get_latest_seq_no l))
        # take 1 (list_checkpoints (el_room l) (du_disk d))"
    and "map_of (du_disk (write_checkpoint l s d)) (checkpoint_name (el_room l) (get_latest_seq_no l)) =
      Some (Some (payload l s))"
    and "f \<in> snd ` set (take 1 (list_checkpoints (el_room l) (du_disk d))) \<Longrightarrow>
      map_of (du_disk (write_checkpoint l s d)) f = map_of (du_disk d) f"
proof -
  let ?n = "get_latest_seq_no l" and ?room = "el_room l"
  let ?name = "checkpoint_name ?room ?n"
  let ?disk = "dict_set ?name (Some (payload l s)) (du_disk d)"
  have n: "0 \<le> ?n" using assms(1) by (auto simp: get_latest_seq_no_def log_wf_def)
  note new = list_checkpoints_new[OF assms(2) n assms(4), of "Some (payload l s)"]
  have wf: "wf_dict ?disk" using assms(3) by (rule wf_dict_set)
  have du: "du_disk (write_checkpoint l s d) = prune ?room ?disk"
    by (simp add: write_checkpoint_def Let_def)
  show "list_checkpoints ?room (du_disk (write_checkpoint l s d)) =
      (?n, ?name) # take 1 (list_checkpoints ?room (du_disk d))"
    unfolding du list_checkpoints_prune[OF wf] new by (simp add: KEEP_LAST_def)
  have dist: "distinct (map snd (list_checkpoints ?room ?disk))"
    using list_checkpoints_distinct[OF wf, of ?room] checkpoint_inj[of _ ?room ?disk]
    by (auto simp: distinct_map inj_on_def)
  have kept: "f \<notin> snd ` set (drop KEEP_LAST (list_checkpoints ?room ?disk))"
    if "f \<in> snd ` set (take KEEP_LAST (list_checkpoints ?room ?disk))" for f
    using that dist append_take_drop_id[of KEEP_LAST "list_checkpoints ?room ?disk"]
    by (metis disjoint_iff distinct_append map_append set_map)
  show "map_of (du_disk (write_checkpoint l s d)) ?name = Some (Some (payload l s))"
    unfolding du by (subst prune_keeps_other[OF kept]) (auto simp: new KEEP_LAST_def map_of_dict_set)
  assume f: "f \<in> snd ` set (take 1 (list_checkpoints ?room (du_disk d)))"
  then obtain k where k: "(k, f) \<in> set (list_checkpoints ?room (du_disk d))" by (auto dest!: in_set_takeD)
  have "f \<noteq> ?name"
  proof
    assume "f = ?name"
    with k checkpoint_match_name[OF assms(2) n] have "k = ?n" by (auto simp: list_checkpoints_eq set_room_files)
    with k assms(4) show False by force
  qed
  moreover have "f \<in> snd ` set (take KEEP_LAST (list_checkpoints ?room ?disk))"
    using f by (auto simp: new KEEP_LAST_def numeral_2_eq_2)
  ultimately show "map_of (du_disk (write_checkpoint l s d)) f = map_of (du_disk d) f"
    unfolding du by (subst prune_keeps_other[OF kept]) (auto simp: map_of_dict_set)
qed

lemma write_recover:
  assumes "synced l s" "el_room l \<noteq> []" "wf_dict (du_disk d)"
    and "newest_before (el_room l) (get_latest_seq_no l) (du_disk d)"
  shows "dur_recover (el_room l) (write_checkpoint l s d) =
    Some (l\<lparr>el_log := map norm_event (get_events_since (sn_as_of s) l)\<rparr>, norm_snap s)"
proof -
  have "log_wf l" using assms(1) by (simp add: synced_def)
  from write_checkpoint_files(1,2)[OF this assms(2-4)] reconstruct_payload[OF assms(1)] show ?thesis
    by (simp add: dur_recover_def)
qed

text \<open>A checkpoint that was damaged on disk: the one before it is used.\<close>

lemma keys_update_old: "k \<in> set (dict_keys d) \<Longrightarrow> dict_keys (dict_set k v d) = dict_keys d"
  by (induction d) auto

lemma wf_write: "wf_dict (du_disk d) \<Longrightarrow> wf_dict (du_disk (write_checkpoint l s d))"
  by (simp add: write_checkpoint_def Let_def wf_dict_prune)

definition corrupt :: "string \<Rightarrow> durability \<Rightarrow> durability" where
  "corrupt name d = d\<lparr>du_disk := dict_set name None (du_disk d)\<rparr>"

lemma fallback_recover:
  assumes s1: "synced l1 s1" and s2: "synced l2 s2" and room: "el_room l1 = room" "el_room l2 = room" "room \<noteq> []"
    and wf: "wf_dict (du_disk d)" and new: "newest_before room (get_latest_seq_no l1) (du_disk d)"
    and later: "get_latest_seq_no l1 < get_latest_seq_no l2"
  shows "dur_recover room (corrupt (checkpoint_name room (get_latest_seq_no l2))
      (write_checkpoint l2 s2 (write_checkpoint l1 s1 d))) =
    Some (l1\<lparr>el_log := map norm_event (get_events_since (sn_as_of s1) l1)\<rparr>, norm_snap s1)"
proof -
  let ?n1 = "get_latest_seq_no l1" and ?n2 = "get_latest_seq_no l2"
  let ?d1 = "write_checkpoint l1 s1 d"
  let ?d2 = "write_checkpoint l2 s2 ?d1"
  have lw: "log_wf l1" "log_wf l2" using s1 s2 by (auto simp: synced_def)
  note w1 = write_checkpoint_files[OF lw(1) room(3)[folded room(1)] wf, unfolded room(1), OF new]
  have before: "newest_before room ?n2 (du_disk ?d1)"
    unfolding w1(1) using new later by (auto dest!: in_set_takeD)
  note w2 = write_checkpoint_files[OF lw(2) room(3)[folded room(2)] wf_write[OF wf], unfolded room(2), OF before]
  have n1: "map_of (du_disk ?d2) (checkpoint_name room ?n1) = Some (Some (payload l1 s1))"
    using w2(3)[of "checkpoint_name room ?n1"] w1(1,2) by simp
  have ne: "checkpoint_name room ?n1 \<noteq> checkpoint_name room ?n2"
    using checkpoint_match_name[OF room(3), of ?n1] checkpoint_match_name[OF room(3), of ?n2] later lw
    by (auto simp: get_latest_seq_no_def log_wf_def)
  have "checkpoint_name room ?n2 \<in> set (dict_keys (du_disk ?d2))"
    using map_of_in_keys[OF w2(2)] .
  then have "list_checkpoints room (du_disk (corrupt (checkpoint_name room ?n2) ?d2)) =
      [(?n2, checkpoint_name room ?n2), (?n1, checkpoint_name room ?n1)]"
    using w2(1) w1(1) by (simp add: corrupt_def list_checkpoints_eq keys_update_old)
  then show ?thesis
    using n1 ne reconstruct_payload[OF s1] room(1)
    by (simp add: dur_recover_def corrupt_def map_of_dict_set)
qed

text \<open>The tail of a log that is in step with its snapshot is itself such a log, so recovery
  can be repeated.\<close>

lemma filter_upto: "filter (\<lambda>x. k < x) [a..b] = [max a (k + 1)..b]"
  by (rule sorted_distinct_set_unique) (auto intro: sorted_filter[where f = id, simplified])

lemma log_wf_tail:
  assumes "log_wf l" "0 \<le> k"
  shows "log_wf (l\<lparr>el_log := map norm_event (get_events_since k l)\<rparr>)"
proof -
  let ?t = "get_events_since k l" and ?a = "el_next l - int (length (el_log l))"
  have "map ev_seq_no ?t = filter (\<lambda>x. k < x) (map ev_seq_no (el_log l))"
    by (simp add: get_events_since_def filter_map comp_def)
  also have "\<dots> = [max ?a (k + 1)..el_next l - 1]"
    using assms(1) by (simp only: log_wf_def filter_upto)
  finally have m: "map ev_seq_no ?t = [max ?a (k + 1)..el_next l - 1]" .
  have len: "length ?t = nat (el_next l - max ?a (k + 1))" using arg_cong[OF m, of length] by simp
  have "[max ?a (k + 1)..el_next l - 1] = [el_next l - int (length ?t)..el_next l - 1]"
    by (cases "max ?a (k + 1) \<le> el_next l - 1") (simp_all add: len)
  moreover have "int (length ?t) < el_next l"
    using len assms by (auto simp: log_wf_def)
  moreover have "sorted (map ev_term ?t)"
    using assms(1) by (auto simp: log_wf_def get_events_since_def sorted_filter)
  ultimately show ?thesis
    using m assms(1) by (auto simp: log_wf_def comp_def get_events_since_def)
qed

lemma synced_tail:
  assumes "synced l s"
  shows "synced (l\<lparr>el_log := map norm_event (get_events_since (sn_as_of s) l)\<rparr>) (norm_snap s)"
proof -
  have "snap_step (norm_snap s) (norm_event e) = norm_snap s" if "e \<in> set (get_events_since (sn_as_of s) l)" for e
    using that assms by (auto simp: snap_step_norm synced_def get_events_since_def)
  moreover have "dict_keys (sn_members (norm_snap s)) = dict_keys (sn_members s)"
    by (auto simp: norm_snap_def)
  ultimately show ?thesis
    using assms log_wf_tail[of l "sn_as_of s"] by (auto simp: synced_def norm_snap_def simp del: map_map)
qed

end
