(* ===== verification/Duplicate_Guard.thy ===== *)
theory Duplicate_Guard
  imports PeerChat_Prelude
begin

text \<open>
  \<open>peer_discovery/membership/duplicate_guard.py\<close>: a sliding window over the last
  \<open>window_size\<close> distinct \<open>(user_id, event_type)\<close> pairs. The \<open>OrderedDict\<close> is a
  dictionary in insertion order; a hit neither refreshes nor moves its entry. The stored
  time is never read, so entries leave the window only when newer ones push them out.

  Shown: the guard is a check-and-mark filter, never holds more than the window, and
  answers ``duplicate'' for a key until \<open>window_size\<close> other keys have been marked after it.
\<close>

record guard =
  g_recent :: "(string \<times> string, time) dict"
  g_window :: nat

definition new_guard :: "nat \<Rightarrow> guard" where
  "new_guard window_size = \<lparr>g_recent = [], g_window = window_size\<rparr>"

definition is_duplicate :: "time \<Rightarrow> string \<Rightarrow> string \<Rightarrow> guard \<Rightarrow> bool \<times> guard" where
  "is_duplicate now user_id event_type g =
     (let key = (user_id, event_type) in
      if key \<in> set (dict_keys (g_recent g)) then (True, g)
      else
        let r = dict_set key now (g_recent g) in
        (False, g\<lparr>g_recent := (if length r > g_window g then tl r else r)\<rparr>))"

definition guard_clear :: "guard \<Rightarrow> guard" where
  "guard_clear g = g\<lparr>g_recent := []\<rparr>"

section \<open>The window\<close>

definition guard_wf :: "guard \<Rightarrow> bool" where
  "guard_wf g = (wf_dict (g_recent g) \<and> length (g_recent g) \<le> g_window g \<and> 0 < g_window g)"

definition guard_check :: "time \<Rightarrow> string \<times> string \<Rightarrow> guard \<Rightarrow> bool \<times> guard" where
  "guard_check now k g = (let (d, g') = is_duplicate now (fst k) (snd k) g in (\<not> d, g'))"

abbreviation guard_keys :: "guard \<Rightarrow> (string \<times> string) list" where
  "guard_keys g \<equiv> dict_keys (g_recent g)"

lemma is_duplicate_hit: "(u, t) \<in> set (guard_keys g) \<Longrightarrow> is_duplicate now u t g = (True, g)"
  by (simp add: is_duplicate_def)

lemma is_duplicate_miss:
  assumes "(u, t) \<notin> set (guard_keys g)"
  shows "is_duplicate now u t g = (False, g\<lparr>g_recent :=
    (if length (g_recent g) < g_window g then g_recent g @ [((u, t), now)]
     else tl (g_recent g @ [((u, t), now)]))\<rparr>)"
  using assms by (auto simp: is_duplicate_def Let_def keys_update_new)

lemma tl_keys: "set (dict_keys (tl d)) \<subseteq> set (dict_keys d)"
  by (cases d) auto

lemma guard_keys_miss:
  assumes "k \<notin> set (guard_keys g)"
  shows "guard_keys (snd (guard_check now k g)) =
    (if length (g_recent g) < g_window g then guard_keys g @ [k] else tl (guard_keys g @ [k]))"
proof (cases k)
  case (Pair u t)
  with assms show ?thesis
    by (simp add: guard_check_def is_duplicate_miss map_tl)
qed

lemma guard_keys_hit: "k \<in> set (guard_keys g) \<Longrightarrow> guard_check now k g = (False, g)"
  by (cases k) (simp add: guard_check_def is_duplicate_hit)

lemma guard_check_fresh: "fst (guard_check now k g) \<longleftrightarrow> k \<notin> set (guard_keys g)"
  by (cases k) (auto simp: guard_check_def is_duplicate_def Let_def)

lemma guard_window [simp]: "g_window (snd (guard_check now k g)) = g_window g"
  by (cases k) (auto simp: guard_check_def is_duplicate_def Let_def)

lemma guard_wf_check: "guard_wf g \<Longrightarrow> guard_wf (snd (guard_check now k g))"
proof (cases "k \<in> set (guard_keys g)")
  case True
  then show "guard_wf g \<Longrightarrow> ?thesis" by (simp only: guard_keys_hit snd_conv)
next
  case False
  assume wf: "guard_wf g"
  note ks = guard_keys_miss[OF False, of now]
  have "distinct (guard_keys (snd (guard_check now k g)))"
    unfolding ks using wf False by (auto simp: guard_wf_def intro: distinct_tl simp del: set_map)
  moreover have "length (guard_keys (snd (guard_check now k g))) \<le> g_window g"
    unfolding ks using wf by (auto simp: guard_wf_def)
  ultimately show ?thesis using wf by (simp add: guard_wf_def)
qed

interpretation guard_filter: dedup_filter "guard_check now" "\<lambda>g. set (guard_keys g)" guard_wf for now
proof
  fix k g
  show "fst (guard_check now k g) \<longleftrightarrow> k \<notin> set (guard_keys g)" by (rule guard_check_fresh)
  show "guard_wf g \<Longrightarrow> guard_wf (snd (guard_check now k g))" by (rule guard_wf_check)
  show "set (guard_keys (snd (guard_check now k g))) \<subseteq> insert k (set (guard_keys g))"
  proof (cases "k \<in> set (guard_keys g)")
    case False
    show ?thesis unfolding guard_keys_miss[OF False]
      by (cases "guard_keys g") (auto simp del: set_map)
  qed (simp add: guard_keys_hit subset_insertI)
  assume wf: "guard_wf g"
  show "k \<in> set (guard_keys (snd (guard_check now k g)))"
  proof (cases "k \<in> set (guard_keys g)")
    case False
    have "g_recent g \<noteq> [] \<or> length (g_recent g) < g_window g" using wf by (auto simp: guard_wf_def)
    then show ?thesis unfolding guard_keys_miss[OF False] by (cases "guard_keys g") auto
  qed (simp add: guard_keys_hit)
qed

text \<open>A run of checks; the number of keys marked during it.\<close>

fun guard_run :: "time \<Rightarrow> guard \<Rightarrow> (string \<times> string) list \<Rightarrow> guard" where
  "guard_run now g [] = g"
| "guard_run now g (k # ks) = guard_run now (snd (guard_check now k g)) ks"

text \<open>A key in the window leaves it only after as many new keys as the window has places
  behind it.\<close>

lemma guard_remembers:
  assumes "guard_wf g" "guard_keys g = xs @ k # ys"
    and "length ys + length (accepted (guard_check now) g ks) < g_window g"
  shows "k \<in> set (guard_keys (guard_run now g ks))"
  using assms
proof (induction ks arbitrary: g xs ys)
  case (Cons j ks)
  let ?g = "snd (guard_check now j g)"
  show ?case
  proof (cases "j \<in> set (guard_keys g)")
    case True
    with Cons show ?thesis by (simp add: guard_keys_hit)
  next
    case False
    have wf: "guard_wf ?g" by (rule guard_wf_check[OF Cons.prems(1)])
    have acc: "length ys + Suc (length (accepted (guard_check now) ?g ks)) < g_window g"
      using Cons.prems(3) False by (simp add: guard_check_fresh)
    have "\<exists>xs'. guard_keys ?g = xs' @ k # ys @ [j]"
    proof (cases "length (g_recent g) < g_window g \<or> xs \<noteq> []")
      case True
      then show ?thesis
        unfolding guard_keys_miss[OF False] Cons.prems(2) by (cases xs) auto
    next
      case full: False
      have "length (guard_keys g) = Suc (length ys)" using Cons.prems(2) full by simp
      with full acc show ?thesis by simp
    qed
    then obtain xs' where xs': "guard_keys ?g = xs' @ k # ys @ [j]" by blast
    have "k \<in> set (guard_keys (guard_run now ?g ks))"
      by (rule Cons.IH[OF wf xs']) (use acc in simp)
    then show ?thesis by simp
  qed
qed simp

end
