(* ===== verification/Presence.thy ===== *)
theory Presence
  imports PeerChat_Prelude
begin

text \<open>
  \<open>peer_discovery/membership/presence.py\<close>: heartbeat-driven failure detection. The
  callback \<open>on_state_change\<close> is represented by the list of signals a method emits, in
  order; \<open>self._time()\<close> is the argument \<open>now\<close>. \<open>check_entry\<close> is the body of the
  loop of \<open>check_liveness\<close>, which the coordinator interleaves with its own callback.

  Shown: the detector is accurate (a member is reported suspected, or timed out, only after
  it has really been silent for the configured time), complete (a silent member is suspected
  and then timed out by two late enough checks), and a heartbeat clears a suspicion.
\<close>

datatype presence_state = ALIVE_P | SUSPECTED_P

record presence_entry =
  pe_user_id :: string
  pe_last_heartbeat :: time
  pe_state :: presence_state
  pe_suspected_at :: "time option"

record presence =
  pr_interval :: time
  pr_missed :: nat
  pr_dead :: time
  pr_members :: "(string, presence_entry) dict"

definition new_presence :: presence where
  "new_presence = \<lparr>pr_interval = 5, pr_missed = 3, pr_dead = 15, pr_members = []\<rparr>"

definition register_member :: "time \<Rightarrow> string \<Rightarrow> presence \<Rightarrow> presence" where
  "register_member now u p = p\<lparr>pr_members := dict_set u
     \<lparr>pe_user_id = u, pe_last_heartbeat = now, pe_state = ALIVE_P, pe_suspected_at = None\<rparr> (pr_members p)\<rparr>"

definition unregister_member :: "string \<Rightarrow> presence \<Rightarrow> presence" where
  "unregister_member u p = p\<lparr>pr_members := dict_pop u (pr_members p)\<rparr>"

type_synonym signal = "string \<times> string"

definition record_heartbeat :: "time \<Rightarrow> string \<Rightarrow> presence \<Rightarrow> presence \<times> signal list" where
  "record_heartbeat now u p =
     (case map_of (pr_members p) u of
        None \<Rightarrow> (p, [])
      | Some entry \<Rightarrow>
          let entry1 = entry\<lparr>pe_last_heartbeat := now\<rparr> in
          if pe_state entry1 = SUSPECTED_P then
            (p\<lparr>pr_members := dict_set u (entry1\<lparr>pe_state := ALIVE_P, pe_suspected_at := None\<rparr>) (pr_members p)\<rparr>,
             [(u, ''reconnected'')])
          else (p\<lparr>pr_members := dict_set u entry1 (pr_members p)\<rparr>, []))"

definition suspect_threshold :: "presence \<Rightarrow> time" where
  "suspect_threshold p = pr_interval p * of_nat (pr_missed p)"

definition check_entry :: "presence \<Rightarrow> time \<Rightarrow> presence_entry \<Rightarrow> presence_entry \<times> string option" where
  "check_entry p now entry =
     (case pe_state entry of
        ALIVE_P \<Rightarrow>
          if now - pe_last_heartbeat entry > suspect_threshold p
          then (entry\<lparr>pe_state := SUSPECTED_P, pe_suspected_at := Some now\<rparr>, Some ''suspected'')
          else (entry, None)
      | SUSPECTED_P \<Rightarrow>
          (case pe_suspected_at entry of
             None \<Rightarrow> (entry, None)
           | Some t \<Rightarrow> if now - t > pr_dead p then (entry, Some ''timeout'') else (entry, None)))"

definition check_liveness :: "time \<Rightarrow> presence \<Rightarrow> presence \<times> signal list" where
  "check_liveness now p =
     (p\<lparr>pr_members := map (\<lambda>(u, e). (u, fst (check_entry p now e))) (pr_members p)\<rparr>,
      List.map_filter (\<lambda>(u, e). map_option (\<lambda>s. (u, s)) (snd (check_entry p now e))) (pr_members p))"

section \<open>The invariant\<close>

text \<open>A suspected member was silent for more than the threshold when it became suspected,
  and has not been heard since.\<close>

definition entry_ok :: "presence \<Rightarrow> presence_entry \<Rightarrow> bool" where
  "entry_ok p e = ((pe_state e = ALIVE_P \<longrightarrow> pe_suspected_at e = None) \<and>
     (pe_state e = SUSPECTED_P \<longrightarrow>
        (\<exists>t. pe_suspected_at e = Some t \<and> t - pe_last_heartbeat e > suspect_threshold p)))"

lemma entry_ok_members [simp]: "entry_ok (p\<lparr>pr_members := ms\<rparr>) e = entry_ok p e"
  by (simp add: entry_ok_def suspect_threshold_def)

definition presence_inv :: "presence \<Rightarrow> bool" where
  "presence_inv p = (wf_dict (pr_members p) \<and> (\<forall>(u, e) \<in> set (pr_members p). entry_ok p e))"

lemma presence_inv_new [simp]: "presence_inv new_presence"
  by (simp add: presence_inv_def new_presence_def)

lemma presence_inv_set:
  assumes "presence_inv p" "entry_ok p e"
  shows "presence_inv (p\<lparr>pr_members := dict_set u e (pr_members p)\<rparr>)"
proof -
  have "\<forall>x \<in> set (dict_set u e (pr_members p)). entry_ok p (snd x)"
    using assms subsetD[OF dict_set_set_subset[of u e "pr_members p"]]
    by (fastforce simp: presence_inv_def)
  then show ?thesis using assms(1) by (auto simp: presence_inv_def)
qed

lemma presence_inv_register: "presence_inv p \<Longrightarrow> presence_inv (register_member now u p)"
  unfolding register_member_def by (rule presence_inv_set) (simp_all add: entry_ok_def)

lemma presence_inv_unregister: "presence_inv p \<Longrightarrow> presence_inv (unregister_member u p)"
  using dict_pop_set_subset[of u "pr_members p"]
  by (auto simp: presence_inv_def unregister_member_def)

lemma presence_inv_heartbeat:
  assumes "presence_inv p"
  shows "presence_inv (fst (record_heartbeat now u p))"
proof (cases "map_of (pr_members p) u")
  case None
  then show ?thesis using assms by (simp add: record_heartbeat_def)
next
  case (Some e)
  then have "entry_ok p e" using assms map_of_SomeD[OF Some] by (auto simp: presence_inv_def)
  then show ?thesis
    using Some assms
    by (auto simp: record_heartbeat_def Let_def entry_ok_def intro!: presence_inv_set
        split: presence_state.splits)
qed

lemma check_entry_ok: "entry_ok p e \<Longrightarrow> entry_ok p (fst (check_entry p now e))"
  by (auto simp: entry_ok_def check_entry_def split: presence_state.splits option.splits)

lemma check_entry_heartbeat [simp]:
  "pe_last_heartbeat (fst (check_entry p now e)) = pe_last_heartbeat e"
  by (auto simp: check_entry_def split: presence_state.splits option.splits)

lemma presence_inv_check: "presence_inv p \<Longrightarrow> presence_inv (fst (check_liveness now p))"
proof -
  assume inv: "presence_inv p"
  then show ?thesis
    by (auto simp: presence_inv_def check_liveness_def comp_def case_prod_beta intro: check_entry_ok)
qed

datatype presence_op = Register string | Unregister string | Beat string | Check

fun presence_step :: "presence \<times> signal list \<Rightarrow> time \<times> presence_op \<Rightarrow> presence \<times> signal list" where
  "presence_step (p, out) (now, Register u) = (register_member now u p, out)"
| "presence_step (p, out) (now, Unregister u) = (unregister_member u p, out)"
| "presence_step (p, out) (now, Beat u) = (case record_heartbeat now u p of (p', s) \<Rightarrow> (p', out @ s))"
| "presence_step (p, out) (now, Check) = (case check_liveness now p of (p', s) \<Rightarrow> (p', out @ s))"

interpretation presence_run: inv_system presence_step "\<lambda>s. presence_inv (fst s)" "\<lambda>_. True"
proof
  fix s :: "presence \<times> signal list" and e assume "presence_inv (fst s)"
  then show "presence_inv (fst (presence_step s e))"
    by (cases "(s, e)" rule: presence_step.cases)
      (auto simp: presence_inv_register presence_inv_unregister case_prod_beta
        intro: presence_inv_heartbeat presence_inv_check)
qed

section \<open>Accuracy and completeness\<close>

lemma signal_source:
  assumes "(u, s) \<in> set (snd (check_liveness now p))"
  obtains e where "(u, e) \<in> set (pr_members p)" "snd (check_entry p now e) = Some s"
  using assms by (auto simp: check_liveness_def List.map_filter_def)

lemma accurate_suspicion:
  assumes "(u, ''suspected'') \<in> set (snd (check_liveness now p))" "wf_dict (pr_members p)"
  shows "\<exists>e. map_of (pr_members p) u = Some e \<and> pe_state e = ALIVE_P
    \<and> now - pe_last_heartbeat e > suspect_threshold p"
proof -
  from assms(1) obtain e where e: "(u, e) \<in> set (pr_members p)" "snd (check_entry p now e) = Some ''suspected''"
    by (rule signal_source)
  then have "pe_state e = ALIVE_P \<and> now - pe_last_heartbeat e > suspect_threshold p"
    by (auto simp: check_entry_def split: presence_state.splits option.splits if_splits)
  with e assms(2) show ?thesis by auto
qed

lemma accurate_timeout:
  assumes "(u, ''timeout'') \<in> set (snd (check_liveness now p))" "presence_inv p"
  shows "\<exists>e. map_of (pr_members p) u = Some e
    \<and> now - pe_last_heartbeat e > suspect_threshold p + pr_dead p"
proof -
  from assms(1) obtain e where e: "(u, e) \<in> set (pr_members p)" "snd (check_entry p now e) = Some ''timeout''"
    by (rule signal_source)
  then obtain t where "pe_state e = SUSPECTED_P" "pe_suspected_at e = Some t" "now - t > pr_dead p"
    by (auto simp: check_entry_def split: presence_state.splits option.splits if_splits)
  moreover have "entry_ok p e" using e assms(2) by (auto simp: presence_inv_def)
  ultimately have "now - pe_last_heartbeat e > suspect_threshold p + pr_dead p"
    by (auto simp: entry_ok_def)
  with e assms(2) show ?thesis by (auto simp: presence_inv_def)
qed

lemma map_of_check:
  "map_of (pr_members (fst (check_liveness now p))) u =
     map_option (\<lambda>e. fst (check_entry p now e)) (map_of (pr_members p) u)"
proof -
  have "map_of (map (\<lambda>(u, e). (u, fst (check_entry p now e))) d) u =
      map_option (\<lambda>e. fst (check_entry p now e)) (map_of d u)" for d
    by (induction d) auto
  then show ?thesis by (simp add: check_liveness_def)
qed

lemma check_params [simp]:
  "suspect_threshold (fst (check_liveness now p)) = suspect_threshold p"
  "pr_dead (fst (check_liveness now p)) = pr_dead p"
  by (simp_all add: check_liveness_def suspect_threshold_def)

lemma run_params:
  "suspect_threshold (fst (foldl presence_step s ops)) = suspect_threshold (fst s)
   \<and> pr_dead (fst (foldl presence_step s ops)) = pr_dead (fst s)"
proof (induction ops arbitrary: s)
  case (Cons op ops)
  have "suspect_threshold (fst (presence_step s op)) = suspect_threshold (fst s)
      \<and> pr_dead (fst (presence_step s op)) = pr_dead (fst s)"
    by (cases "(s, op)" rule: presence_step.cases)
      (auto simp: register_member_def unregister_member_def record_heartbeat_def check_liveness_def
        suspect_threshold_def Let_def split: option.split)
  then show ?case using Cons by simp
qed simp

lemma signal_of:
  "map_of (pr_members p) u = Some e \<Longrightarrow> snd (check_entry p now e) = Some s
     \<Longrightarrow> (u, s) \<in> set (snd (check_liveness now p))"
  by (force simp: check_liveness_def List.map_filter_def dest: map_of_SomeD)

lemma complete_detection:
  assumes "map_of (pr_members p) u = Some e" "pe_state e = ALIVE_P"
    and "t1 - pe_last_heartbeat e > suspect_threshold p" "t2 - t1 > pr_dead p"
  shows "(u, ''suspected'') \<in> set (snd (check_liveness t1 p))"
    and "(u, ''timeout'') \<in> set (snd (check_liveness t2 (fst (check_liveness t1 p))))"
proof -
  have c1: "check_entry p t1 e = (e\<lparr>pe_state := SUSPECTED_P, pe_suspected_at := Some t1\<rparr>, Some ''suspected'')"
    using assms(2,3) by (simp add: check_entry_def)
  then show "(u, ''suspected'') \<in> set (snd (check_liveness t1 p))"
    using signal_of[OF assms(1), of t1] by simp
  have m: "map_of (pr_members (fst (check_liveness t1 p))) u =
      Some (e\<lparr>pe_state := SUSPECTED_P, pe_suspected_at := Some t1\<rparr>)"
    by (simp add: map_of_check assms(1) c1)
  show "(u, ''timeout'') \<in> set (snd (check_liveness t2 (fst (check_liveness t1 p))))"
    by (rule signal_of[OF m]) (simp add: check_entry_def assms(4))
qed

lemma heartbeat_clears:
  assumes "map_of (pr_members p) u = Some e" "pe_state e = SUSPECTED_P"
  shows "record_heartbeat now u p =
    (p\<lparr>pr_members := dict_set u (e\<lparr>pe_last_heartbeat := now, pe_state := ALIVE_P, pe_suspected_at := None\<rparr>)
        (pr_members p)\<rparr>, [(u, ''reconnected'')])"
  using assms by (simp add: record_heartbeat_def)

end
