(* ===== verification/Membership_Observers.thy ===== *)
theory Membership_Observers
  imports Membership_Models
begin

text \<open>
  The two passive helpers of the coordinator: \<open>membership_integration/notifier.py\<close>
  (subscriptions and synchronous fan-out) and \<open>membership_integration/tracer.py\<close> (join
  traces). A callback invocation is recorded as the subscriber it goes to with the event and
  delta it is given; a callback that raises is logged and does not stop the fan-out, so
  every subscriber is called. Handles and trace identifiers come from \<open>uuid4().hex\<close> and
  are arguments.
\<close>

section \<open>EventNotifier\<close>

type_synonym notice = "string \<times> membership_event \<times> membership_delta"

type_synonym notifier = "(string, int) dict"

definition nt_subscribe :: "string \<Rightarrow> int \<Rightarrow> notifier \<Rightarrow> notifier" where
  "nt_subscribe handle from_version nt = dict_set handle from_version nt"

definition nt_unsubscribe :: "string \<Rightarrow> notifier \<Rightarrow> notifier" where
  "nt_unsubscribe handle nt = dict_pop handle nt"

definition nt_dispatch :: "membership_event \<Rightarrow> membership_delta option \<Rightarrow> notifier \<Rightarrow> notice list" where
  "nt_dispatch event delta nt =
     (case delta of None \<Rightarrow> [] | Some d \<Rightarrow> map (\<lambda>h. (h, event, d)) (dict_keys nt))"

definition deliver_catchup ::
  "string \<Rightarrow> (membership_event \<times> membership_delta) list \<Rightarrow> notifier \<Rightarrow> notice list" where
  "deliver_catchup handle evs nt =
     (if handle \<notin> set (dict_keys nt) then [] else map (\<lambda>(e, d). (handle, e, d)) evs)"

definition subscriber_count :: "notifier \<Rightarrow> nat" where
  "subscriber_count nt = length nt"

abbreviation notices_of :: "string \<Rightarrow> notice list \<Rightarrow> (membership_event \<times> membership_delta) list" where
  "notices_of h out \<equiv> map snd (filter (\<lambda>n. fst n = h) out)"

lemma dispatch_once:
  assumes "wf_dict nt"
  shows "notices_of h (nt_dispatch e (Some d) nt) = (if h \<in> set (dict_keys nt) then [(e, d)] else [])"
  using assms by (induction nt) (auto simp: nt_dispatch_def)

lemma dispatch_none [simp]: "nt_dispatch e None nt = []"
  by (simp add: nt_dispatch_def)

section \<open>JoinLifecycleTracer\<close>

record span =
  sp_name :: string
  sp_timestamp :: time

record trace_record =
  tr_trace_id :: string
  tr_user_id :: string
  tr_started_at :: time
  tr_spans :: "span list"
  tr_completed_at :: "time option"
  tr_total_ms :: "time option"

record tracer =
  tc_active :: "(string, trace_record) dict"
  tc_completed :: "trace_record list"

definition new_tracer :: tracer where
  "new_tracer = \<lparr>tc_active = [], tc_completed = []\<rparr>"

definition start_join_trace :: "string \<Rightarrow> time \<Rightarrow> string \<Rightarrow> tracer \<Rightarrow> tracer" where
  "start_join_trace trace_id now user_id t =
     t\<lparr>tc_active := dict_set trace_id
         \<lparr>tr_trace_id = trace_id, tr_user_id = user_id, tr_started_at = now,
          tr_spans = [\<lparr>sp_name = ''join_requested'', sp_timestamp = now\<rparr>],
          tr_completed_at = None, tr_total_ms = None\<rparr> (tc_active t)\<rparr>"

definition record_span :: "string \<Rightarrow> string \<Rightarrow> time \<Rightarrow> tracer \<Rightarrow> tracer" where
  "record_span trace_id span_name now t =
     (case map_of (tc_active t) trace_id of
        None \<Rightarrow> t
      | Some tr \<Rightarrow> t\<lparr>tc_active := dict_set trace_id
          (tr\<lparr>tr_spans := tr_spans tr @ [\<lparr>sp_name = span_name, sp_timestamp = now\<rparr>]\<rparr>) (tc_active t)\<rparr>)"

definition complete_trace :: "string \<Rightarrow> time \<Rightarrow> tracer \<Rightarrow> tracer" where
  "complete_trace trace_id now t =
     (case map_of (tc_active t) trace_id of
        None \<Rightarrow> t
      | Some tr \<Rightarrow>
          t\<lparr>tc_active := dict_pop trace_id (tc_active t),
            tc_completed := tc_completed t @
              [tr\<lparr>tr_completed_at := Some now, tr_total_ms := Some ((now - tr_started_at tr) * 1000)\<rparr>]\<rparr>)"

definition get_slow_joins :: "time \<Rightarrow> tracer \<Rightarrow> trace_record list" where
  "get_slow_joins threshold_ms t =
     filter (\<lambda>tr. case tr_total_ms tr of None \<Rightarrow> False | Some d \<Rightarrow> d \<noteq> 0 \<and> d \<ge> threshold_ms)
       (tc_completed t)"

text \<open>\<open>xs[-limit:]\<close>; \<open>limit = 0\<close> is \<open>xs[0:]\<close>, the whole list.\<close>

definition get_recent_traces :: "nat \<Rightarrow> tracer \<Rightarrow> trace_record list" where
  "get_recent_traces limit t =
     (if limit = 0 then tc_completed t else drop (length (tc_completed t) - limit) (tc_completed t))"

text \<open>A join that runs through the coordinator's four calls is recorded once, with its spans
  in order and its duration.\<close>

lemma full_trace:
  assumes "tid \<notin> set (dict_keys (tc_active t))"
  shows "complete_trace tid t4 (record_span tid ''backfill_complete'' t3
      (record_span tid ''join_accepted'' t2 (start_join_trace tid t1 u t))) =
    t\<lparr>tc_completed := tc_completed t @
      [\<lparr>tr_trace_id = tid, tr_user_id = u, tr_started_at = t1,
        tr_spans = [\<lparr>sp_name = ''join_requested'', sp_timestamp = t1\<rparr>,
          \<lparr>sp_name = ''join_accepted'', sp_timestamp = t2\<rparr>,
          \<lparr>sp_name = ''backfill_complete'', sp_timestamp = t3\<rparr>],
        tr_completed_at = Some t4, tr_total_ms = Some ((t4 - t1) * 1000)\<rparr>]\<rparr>"
proof -
  have "dict_pop tid (dict_set tid v d) = d" if "tid \<notin> set (dict_keys d)" for v :: trace_record and d
    using that by (induction d) auto
  moreover have "dict_set tid v (dict_set tid w d) = dict_set tid v d" for v w :: trace_record and d
    by (induction d) auto
  ultimately show ?thesis
    using assms by (simp add: start_join_trace_def record_span_def complete_trace_def map_of_dict_set)
qed

end
