(* ===== verification/Membership_Coordinator.thy ===== *)
theory Membership_Coordinator
  imports Durability Duplicate_Guard Presence Membership_Observers
begin

text \<open>
  \<open>peer_discovery/membership_integration/coordinator.py\<close>: the single writer of a room. Its
  state is the record \<open>coord\<close>; a handler returns the new state together with its result
  or the \<open>StaleTermError\<close> that escapes it, in the state reached when it escapes.
  Invocations of subscriber callbacks are appended to \<open>c_out\<close>. The join validator and the
  history handler are callbacks registered by other components: the validator is a function
  of the request, the history handler a transformer of the coordinator's state (it may call
  back into it). All clock readings within one call are one value \<open>now\<close>.
\<close>

section \<open>State\<close>

record join_context =
  jc_room_id :: string
  jc_source_address :: "string option"
  jc_public_key :: "string option"
  jc_arrived_at :: time

text \<open>What a validator returned: an object without an \<open>accepted\<close> attribute, or a verdict.\<close>

datatype verdict = NoVerdict | Verdict bool "string option"

record coord =
  c_room :: string
  c_local :: "string option"
  c_log :: event_log
  c_snap :: snap
  c_subs :: notifier
  c_guard :: guard
  c_dur :: durability
  c_presence :: presence
  c_tracer :: "tracer option"
  c_traces :: "(string, string) dict"
  c_out :: "notice list"

type_synonym validator = "string \<Rightarrow> string \<Rightarrow> join_context \<Rightarrow> verdict"

type_synonym history_handler = "string \<Rightarrow> membership_event \<Rightarrow> coord \<Rightarrow> coord"

definition BACKFILL_TIMEOUT_S :: time where "BACKFILL_TIMEOUT_S = 30"

definition new_coord :: "string \<Rightarrow> string option \<Rightarrow> bool \<Rightarrow> disk \<Rightarrow> coord" where
  "new_coord room_id local_user_id enable_tracing disk =
     \<lparr>c_room = room_id, c_local = local_user_id, c_log = new_log room_id, c_snap = new_snap room_id,
      c_subs = [], c_guard = new_guard 100, c_dur = \<lparr>du_disk = disk, du_interval = 100\<rparr>,
      c_presence = new_presence, c_tracer = (if enable_tracing then Some new_tracer else None),
      c_traces = [], c_out = []\<rparr>"

section \<open>The steps the handlers share\<close>

text \<open>\<open>self._log.append(..., term=1)\<close> followed by \<open>self._snapshot.apply_event(event)\<close>.\<close>

definition append_apply ::
  "time \<Rightarrow> event_type \<Rightarrow> string \<Rightarrow> string \<Rightarrow> string \<Rightarrow> string option \<Rightarrow> string option \<Rightarrow> coord
     \<Rightarrow> mem_error + (membership_event \<times> membership_delta option \<times> coord)" where
  "append_apply now et u source display_name trace_id public_key c =
     (case log_append now et u source 1 display_name trace_id public_key (c_log c) of
        Inl err \<Rightarrow> Inl err
      | Inr (e, l) \<Rightarrow>
          let (s, delta) = apply_event (c_snap c) e in Inr (e, delta, c\<lparr>c_log := l, c_snap := s\<rparr>))"

definition notify :: "membership_event \<Rightarrow> membership_delta option \<Rightarrow> coord \<Rightarrow> coord" where
  "notify e delta c = c\<lparr>c_out := c_out c @ nt_dispatch e delta (c_subs c)\<rparr>"

definition checkpoint :: "coord \<Rightarrow> coord" where
  "checkpoint c = c\<lparr>c_dur := snd (maybe_checkpoint (c_log c) (c_snap c) (c_dur c))\<rparr>"

definition presence_register :: "time \<Rightarrow> string \<Rightarrow> coord \<Rightarrow> coord" where
  "presence_register now u c = c\<lparr>c_presence := register_member now u (c_presence c)\<rparr>"

definition presence_unregister :: "string \<Rightarrow> coord \<Rightarrow> coord" where
  "presence_unregister u c = c\<lparr>c_presence := unregister_member u (c_presence c)\<rparr>"

definition trace_span :: "string \<Rightarrow> string \<Rightarrow> time \<Rightarrow> coord \<Rightarrow> coord" where
  "trace_span tid name now c = c\<lparr>c_tracer := map_option (record_span tid name now) (c_tracer c)\<rparr>"

section \<open>Requests\<close>

definition duplicate_result :: "coord \<Rightarrow> join_result" where
  "duplicate_result c =
     \<lparr>jr_accepted = False, jr_seq_no = 0, jr_version = sn_version (c_snap c),
      jr_active_members = get_active_members (c_snap c), jr_reason = Some ''Duplicate join request''\<rparr>"

text \<open>The accepting half of \<open>handle_join\<close>: open a trace (\<open>uid\<close> is its identifier), then
  commit the event, tell the subscribers, track the member and call the history handler.\<close>

definition begin_trace :: "string \<Rightarrow> time \<Rightarrow> string \<Rightarrow> coord \<Rightarrow> string option \<times> coord" where
  "begin_trace uid now user_id c =
     (case c_tracer c of
        None \<Rightarrow> (None, c)
      | Some t \<Rightarrow>
          (Some uid,
           trace_span uid ''join_accepted'' now
             (c\<lparr>c_tracer := Some (start_join_trace uid now user_id t),
                c_traces := dict_set user_id uid (c_traces c)\<rparr>)))"

definition commit_join ::
  "history_handler option \<Rightarrow> time \<Rightarrow> string \<Rightarrow> string \<Rightarrow> string option \<Rightarrow> string option \<Rightarrow> coord
     \<Rightarrow> coord \<times> (mem_error + join_result)" where
  "commit_join history now user_id display_name trace_id public_key c1 =
     (case append_apply now JOIN_ACCEPTED user_id ''coordinator'' display_name trace_id public_key c1 of
        Inl err \<Rightarrow> (c1, Inl err)
      | Inr (event, delta, c2) \<Rightarrow>
          let c3 = notify event delta c2;
              c4 = (if Some user_id \<noteq> c_local c3 then presence_register now user_id c3 else c3);
              c5 = checkpoint c4;
              c6 = (case history of None \<Rightarrow> c5 | Some h \<Rightarrow> h user_id event c5)
          in (c6, Inr \<lparr>jr_accepted = True, jr_seq_no = ev_seq_no event, jr_version = ev_version event,
                       jr_active_members = get_active_members (c_snap c6), jr_reason = None\<rparr>))"

definition accept_join ::
  "history_handler option \<Rightarrow> string \<Rightarrow> time \<Rightarrow> string \<Rightarrow> string \<Rightarrow> string option \<Rightarrow> coord
     \<Rightarrow> coord \<times> (mem_error + join_result)" where
  "accept_join history uid now user_id display_name public_key c =
     (let (trace_id, c1) = begin_trace uid now user_id c
      in commit_join history now user_id display_name trace_id public_key c1)"

definition handle_join ::
  "validator option \<Rightarrow> history_handler option \<Rightarrow> string \<Rightarrow> time \<Rightarrow> string \<Rightarrow> string \<Rightarrow> string option
     \<Rightarrow> join_context option \<Rightarrow> coord \<Rightarrow> coord \<times> (mem_error + join_result)" where
  "handle_join validator history uid now user_id display_name public_key context c0 =
     (let (dup, g) = is_duplicate now user_id (event_value JOIN_REQUESTED) (c_guard c0);
          c = c0\<lparr>c_guard := g\<rparr>
      in
      if dup then (c, Inr (duplicate_result c))
      else
        (case validator of
           None \<Rightarrow> accept_join history uid now user_id display_name public_key c
         | Some v \<Rightarrow>
             let ctx = (case context of
                          Some x \<Rightarrow> x
                        | None \<Rightarrow> \<lparr>jc_room_id = c_room c, jc_source_address = None,
                                   jc_public_key = public_key, jc_arrived_at = now\<rparr>)
             in (case v user_id display_name ctx of
                   Verdict False reason \<Rightarrow>
                     (case append_apply now JOIN_REJECTED user_id ''coordinator'' display_name None None c of
                        Inl err \<Rightarrow> (c, Inl err)
                      | Inr (event, _, c1) \<Rightarrow>
                          let c2 = notify event (Some (mk_delta ''rejected'' event)) c1
                          in (c2, Inr \<lparr>jr_accepted = False, jr_seq_no = ev_seq_no event,
                                       jr_version = ev_version event,
                                       jr_active_members = get_active_members (c_snap c2),
                                       jr_reason = reason\<rparr>))
                 | _ \<Rightarrow> accept_join history uid now user_id display_name public_key c)))"

text \<open>The other handlers return nothing: \<open>None\<close> is a normal return.\<close>

definition confirm_leave :: "time \<Rightarrow> string \<Rightarrow> string \<Rightarrow> coord \<Rightarrow> coord \<times> mem_error option" where
  "confirm_leave now user_id display_name c =
     (case append_apply now LEAVE_CONFIRMED user_id ''coordinator'' display_name None None c of
        Inl err \<Rightarrow> (c, Some err)
      | Inr (event, delta, c1) \<Rightarrow>
          (checkpoint (presence_unregister user_id (notify event delta c1)), None))"

definition handle_leave :: "time \<Rightarrow> string \<Rightarrow> coord \<Rightarrow> coord \<times> mem_error option" where
  "handle_leave now user_id c =
     (case get_member user_id (c_snap c) of
        None \<Rightarrow> (c, None)
      | Some current \<Rightarrow>
          if mi_state current \<in> {LEFT, DISCONNECTED} then (c, None)
          else if mi_state current \<noteq> LEAVING then
            (case append_apply now LEAVE_REQUESTED user_id ''coordinator'' (mi_display_name current) None None c of
               Inl err \<Rightarrow> (c, Some err)
             | Inr (_, _, c1) \<Rightarrow> confirm_leave now user_id (mi_display_name current) c1)
          else confirm_leave now user_id (mi_display_name current) c)"

text \<open>\<open>_handle_presence_change\<close>, the callback of the presence manager.\<close>

fun presence_event :: "string \<Rightarrow> event_type option" where
  "presence_event s =
     (if s = ''suspected'' then Some DISCONNECT_SUSPECTED
      else if s = ''timeout'' then Some DISCONNECT_TIMEOUT
      else if s = ''reconnected'' then Some RECONNECTED
      else None)"

definition handle_presence_change :: "time \<Rightarrow> string \<Rightarrow> string \<Rightarrow> coord \<Rightarrow> coord \<times> mem_error option" where
  "handle_presence_change now user_id change_type c =
     (case get_member user_id (c_snap c) of
        None \<Rightarrow> (c, None)
      | Some current \<Rightarrow>
          (case presence_event change_type of
             None \<Rightarrow> (c, None)
           | Some et \<Rightarrow>
               (case append_apply now et user_id ''presence'' (mi_display_name current) None None c of
                  Inl err \<Rightarrow> (c, Some err)
                | Inr (event, delta, c1) \<Rightarrow>
                    let c2 = notify event delta c1;
                        c3 = (if change_type = ''timeout'' then presence_unregister user_id c2 else c2)
                    in (checkpoint c3, None))))"

text \<open>\<open>PresenceManager.record_heartbeat\<close> with this callback.\<close>

definition presence_heartbeat :: "time \<Rightarrow> string \<Rightarrow> coord \<Rightarrow> coord \<times> mem_error option" where
  "presence_heartbeat now user_id c =
     (let (p, signals) = record_heartbeat now user_id (c_presence c);
          c1 = c\<lparr>c_presence := p\<rparr>
      in case signals of
           [] \<Rightarrow> (c1, None)
         | (u, s) # _ \<Rightarrow> handle_presence_change now u s c1)"

definition handle_heartbeat :: "time \<Rightarrow> string \<Rightarrow> coord \<Rightarrow> coord \<times> mem_error option" where
  "handle_heartbeat now user_id c =
     (case get_member user_id (c_snap c) of
        None \<Rightarrow> (c, None)
      | Some current \<Rightarrow>
          (case append_apply now HEARTBEAT user_id ''coordinator'' (mi_display_name current) None None c of
             Inl err \<Rightarrow> (c, Some err)
           | Inr (_, _, c1) \<Rightarrow>
               (case presence_heartbeat now user_id c1 of
                  (c2, Some err) \<Rightarrow> (c2, Some err)
                | (c2, None) \<Rightarrow> (checkpoint c2, None))))"

definition handle_start_backfill :: "time \<Rightarrow> string \<Rightarrow> coord \<Rightarrow> coord \<times> mem_error option" where
  "handle_start_backfill now user_id c =
     (case get_member user_id (c_snap c) of
        None \<Rightarrow> (c, None)
      | Some current \<Rightarrow>
          if mi_state current \<noteq> JOINING then (c, None)
          else
            let c1 = (case map_of (c_traces c) user_id of
                        None \<Rightarrow> c | Some tid \<Rightarrow> trace_span tid ''backfill_started'' now c)
            in (case append_apply now HISTORY_BACKFILL_STARTED user_id ''coordinator''
                       (mi_display_name current) None None c1 of
                  Inl err \<Rightarrow> (c1, Some err)
                | Inr (event, delta, c2) \<Rightarrow> (checkpoint (notify event delta c2), None)))"

definition finish_trace :: "time \<Rightarrow> string \<Rightarrow> coord \<Rightarrow> coord" where
  "finish_trace now user_id c =
     (case (c_tracer c, map_of (c_traces c) user_id) of
        (Some _, Some tid) \<Rightarrow>
          let c1 = trace_span tid ''backfill_complete'' now (c\<lparr>c_traces := dict_pop user_id (c_traces c)\<rparr>)
          in c1\<lparr>c_tracer := map_option (complete_trace tid now) (c_tracer c1)\<rparr>
      | _ \<Rightarrow> c)"

definition handle_complete_backfill :: "time \<Rightarrow> string \<Rightarrow> coord \<Rightarrow> coord \<times> mem_error option" where
  "handle_complete_backfill now user_id c =
     (case get_member user_id (c_snap c) of
        None \<Rightarrow> (c, None)
      | Some current \<Rightarrow>
          if mi_state current \<noteq> BACKFILLING then (c, None)
          else
            let c1 = finish_trace now user_id c
            in (case append_apply now HISTORY_BACKFILL_COMPLETE user_id ''coordinator''
                       (mi_display_name current) None None c1 of
                  Inl err \<Rightarrow> (c1, Some err)
                | Inr (event, delta, c2) \<Rightarrow> (checkpoint (notify event delta c2), None)))"

section \<open>Subscriptions\<close>

fun event_to_delta_type :: "event_type \<Rightarrow> string option" where
  "event_to_delta_type JOIN_ACCEPTED = Some ''joined''"
| "event_to_delta_type HISTORY_BACKFILL_COMPLETE = Some ''active''"
| "event_to_delta_type LEAVE_CONFIRMED = Some ''left''"
| "event_to_delta_type DISCONNECT_SUSPECTED = Some ''suspected''"
| "event_to_delta_type DISCONNECT_TIMEOUT = Some ''disconnected''"
| "event_to_delta_type RECONNECTED = Some ''reconnected''"
| "event_to_delta_type _ = None"

definition synthesize_delta :: "membership_event \<Rightarrow> membership_delta option" where
  "synthesize_delta e = map_option (\<lambda>ty. mk_delta ty e) (event_to_delta_type (ev_type e))"

definition subscribe :: "string \<Rightarrow> int \<Rightarrow> coord \<Rightarrow> coord" where
  "subscribe handle from_version c =
     (let c1 = c\<lparr>c_subs := nt_subscribe handle from_version (c_subs c)\<rparr>;
          catchup = List.map_filter (\<lambda>e. map_option (\<lambda>d. (handle, e, d)) (synthesize_delta e))
                      (get_events_since from_version (c_log c1))
      in c1\<lparr>c_out := c_out c1 @ catchup\<rparr>)"

definition unsubscribe :: "string \<Rightarrow> coord \<Rightarrow> coord" where
  "unsubscribe handle c = c\<lparr>c_subs := nt_unsubscribe handle (c_subs c)\<rparr>"

section \<open>Periodic maintenance\<close>

text \<open>\<open>check_liveness\<close> with the coordinator's callback run after each entry. The entries are
  those present when the loop starts; a callback removes at most the entry it is called for.\<close>

fun check_loop :: "time \<Rightarrow> (string \<times> presence_entry) list \<Rightarrow> coord \<Rightarrow> coord \<times> mem_error option" where
  "check_loop now [] c = (c, None)"
| "check_loop now ((u, entry) # rest) c =
     (let (entry', sig) = check_entry (c_presence c) now entry;
          ms = pr_members (c_presence c);
          c1 = c\<lparr>c_presence := (c_presence c)\<lparr>pr_members :=
                 (if u \<in> set (dict_keys ms) then dict_set u entry' ms else ms)\<rparr>\<rparr>
      in case sig of
           None \<Rightarrow> check_loop now rest c1
         | Some s \<Rightarrow>
             (case handle_presence_change now u s c1 of
                (c2, Some err) \<Rightarrow> (c2, Some err)
              | (c2, None) \<Rightarrow> check_loop now rest c2))"

fun sweep_loop :: "time \<Rightarrow> (string \<times> member_info) list \<Rightarrow> coord \<Rightarrow> coord \<times> mem_error option" where
  "sweep_loop now [] c = (c, None)"
| "sweep_loop now ((uid, m) # rest) c =
     (if mi_state m \<noteq> BACKFILLING then sweep_loop now rest c
      else if now - mi_joined_at m \<le> BACKFILL_TIMEOUT_S then sweep_loop now rest c
      else
        (case append_apply now DISCONNECT_TIMEOUT uid ''coordinator'' (mi_display_name m) None None c of
           Inl err \<Rightarrow> (c, Some err)
         | Inr (event, delta, c1) \<Rightarrow>
             sweep_loop now rest (checkpoint (presence_unregister uid (notify event delta c1)))))"

definition sweep_backfill_timeouts :: "time \<Rightarrow> coord \<Rightarrow> coord \<times> mem_error option" where
  "sweep_backfill_timeouts now c = sweep_loop now (sd_members (get_snapshot (c_snap c))) c"

definition tick :: "time \<Rightarrow> coord \<Rightarrow> coord \<times> mem_error option" where
  "tick now c =
     (case check_loop now (pr_members (c_presence c)) c of
        (c1, Some err) \<Rightarrow> (c1, Some err)
      | (c1, None) \<Rightarrow> sweep_backfill_timeouts now c1)"

section \<open>Recovery and remote events\<close>

text \<open>The body of the loop that puts surviving members under presence tracking again.\<close>

definition reregister :: "time \<Rightarrow> coord \<Rightarrow> string \<times> member_info \<Rightarrow> coord" where
  "reregister now c um =
     (if Some (fst um) = c_local c then c
      else if mi_state (snd um) \<in> {ACTIVE, JOINING, BACKFILLING, SUSPECTED}
      then presence_register now (fst um) c else c)"

definition recover :: "time \<Rightarrow> coord \<Rightarrow> coord \<times> bool" where
  "recover now c =
     (case dur_recover (c_room c) (c_dur c) of
        None \<Rightarrow> (c, True)
      | Some (l, s) \<Rightarrow>
          let c1 = c\<lparr>c_log := l, c_snap := s\<rparr>;
              c2 = foldl (reregister now) c1 (sd_members (get_snapshot s))
          in (c2, True))"

text \<open>\<open>_apply_remote_event\<close>. The heartbeat that follows a fresh registration finds the entry
  alive and sends no signal.\<close>

definition apply_remote_event :: "time \<Rightarrow> membership_event \<Rightarrow> coord \<Rightarrow> coord" where
  "apply_remote_event now event c =
     (let (local_event, l) = append_remote event (c_log c);
          (s, delta) = apply_event (c_snap c) local_event;
          c1 = notify local_event delta (c\<lparr>c_log := l, c_snap := s\<rparr>);
          c2 = (if ev_type local_event \<in> {JOIN_ACCEPTED, HEARTBEAT} then
                  let c' = presence_register now (ev_user_id local_event) c1 in
                  if ev_type local_event = HEARTBEAT
                  then fst (presence_heartbeat now (ev_user_id local_event) c') else c'
                else c1)
      in checkpoint c2)"

definition apply_remote_snapshot :: "time \<Rightarrow> membership_event list \<Rightarrow> coord \<Rightarrow> coord" where
  "apply_remote_snapshot now events c = foldl (\<lambda>c e. apply_remote_event now e c) c events"

end
