(* ===== verification/Coordinator_Invariant.thy ===== *)
theory Coordinator_Invariant
  imports Membership_Coordinator
begin

text \<open>
  The invariant of the coordinator: its snapshot is the projection of its log onto a base
  snapshot (the empty one of a fresh room, or the one a checkpoint was recovered to), the
  log is well formed, and its helpers are in consistent states. Every operation keeps it,
  whatever the validator answers and however requests, ticks and remote events interleave.
\<close>

section \<open>The invariant\<close>

definition projects :: "snap \<Rightarrow> coord \<Rightarrow> bool" where
  "projects s0 c = (c_snap c = materialize s0 (el_log (c_log c))
     \<and> (\<forall>e \<in> set (el_log (c_log c)). sn_as_of s0 < ev_seq_no e))"

definition base_ok :: "snap \<Rightarrow> bool" where
  "base_ok s = (wf_dict (sn_members s) \<and> 0 \<le> sn_as_of s \<and> sn_version s = sn_as_of s)"

definition coord_inv :: "snap \<Rightarrow> coord \<Rightarrow> bool" where
  "coord_inv s0 c = (log_wf (c_log c) \<and> sn_as_of s0 < el_next (c_log c) \<and> projects s0 c
     \<and> presence_inv (c_presence c) \<and> guard_wf (c_guard c) \<and> wf_dict (c_subs c)
     \<and> el_room (c_log c) = c_room c)"

lemma base_ok_new [simp]: "base_ok (new_snap room)"
  by (simp add: base_ok_def new_snap_def)

lemma base_ok_step: "base_ok s \<Longrightarrow> ev_version e = ev_seq_no e \<Longrightarrow> base_ok (snap_step s e)"
  using snap_step_as_of[of s e] snap_step_wf[of s e] by (auto simp: base_ok_def)

lemma base_ok_materialize:
  "base_ok s \<Longrightarrow> \<forall>e \<in> set es. ev_version e = ev_seq_no e \<Longrightarrow> base_ok (materialize s es)"
  by (induction es arbitrary: s) (auto intro: base_ok_step)

lemma coord_inv_new: "coord_inv (new_snap room) (new_coord room local tracing disk)"
  by (simp add: coord_inv_def projects_def new_coord_def new_log_def new_snap_def log_wf_def
      guard_wf_def new_guard_def)

lemma coord_inv_synced: "base_ok s0 \<Longrightarrow> coord_inv s0 c \<Longrightarrow> synced (c_log c) (c_snap c)"
proof -
  assume b: "base_ok s0" and i: "coord_inv s0 c"
  then have wf: "log_wf (c_log c)" and p: "projects s0 c" by (auto simp: coord_inv_def)
  have base: "base_ok (c_snap c)"
    using b wf p base_ok_materialize[OF b] by (simp add: projects_def log_wf_def)
  have "sn_as_of (c_snap c) < el_next (c_log c)"
    using materialize_as_of[of s0 "el_log (c_log c)"] p i log_wf_seq_bounds[OF wf]
    by (auto simp: projects_def coord_inv_def)
  moreover have "snap_step (c_snap c) e = c_snap c"
    if "e \<in> set (el_log (c_log c))" "sn_as_of (c_snap c) < ev_seq_no e" for e
    using skipped_again[OF log_wf_sorted[OF wf]] that p by (simp add: projects_def)
  ultimately show ?thesis using base wf by (auto simp: synced_def base_ok_def)
qed

section \<open>The shared steps keep it\<close>

lemma coord_inv_frame:
  "coord_inv s0 c \<Longrightarrow> presence_inv p \<Longrightarrow> coord_inv s0 (c\<lparr>c_presence := p\<rparr>)"
  "coord_inv s0 c \<Longrightarrow> guard_wf g \<Longrightarrow> coord_inv s0 (c\<lparr>c_guard := g\<rparr>)"
  "coord_inv s0 c \<Longrightarrow> wf_dict nt \<Longrightarrow> coord_inv s0 (c\<lparr>c_subs := nt\<rparr>)"
  "coord_inv s0 c \<Longrightarrow> coord_inv s0 (c\<lparr>c_dur := d\<rparr>)"
  "coord_inv s0 c \<Longrightarrow> coord_inv s0 (c\<lparr>c_tracer := t\<rparr>)"
  "coord_inv s0 c \<Longrightarrow> coord_inv s0 (c\<lparr>c_traces := ts\<rparr>)"
  "coord_inv s0 c \<Longrightarrow> coord_inv s0 (c\<lparr>c_out := out\<rparr>)"
  by (simp_all add: coord_inv_def projects_def)

lemma coord_inv_notify: "coord_inv s0 c \<Longrightarrow> coord_inv s0 (notify e d c)"
  and coord_inv_checkpoint: "coord_inv s0 c \<Longrightarrow> coord_inv s0 (checkpoint c)"
  and coord_inv_register: "coord_inv s0 c \<Longrightarrow> coord_inv s0 (presence_register now u c)"
  and coord_inv_unregister: "coord_inv s0 c \<Longrightarrow> coord_inv s0 (presence_unregister u c)"
  and coord_inv_span: "coord_inv s0 c \<Longrightarrow> coord_inv s0 (trace_span tid nm now c)"
  by (auto simp: notify_def checkpoint_def presence_register_def presence_unregister_def trace_span_def
      coord_inv_def projects_def presence_inv_register presence_inv_unregister)

lemmas coord_inv_steps =
  coord_inv_frame coord_inv_notify coord_inv_checkpoint coord_inv_register coord_inv_unregister
  coord_inv_span

lemma coord_inv_log:
  assumes "coord_inv s0 c" "log_wf l" "el_log l = el_log (c_log c) @ [e]" "ev_seq_no e = el_next (c_log c)"
    and "el_next l = el_next (c_log c) + 1" "el_room l = el_room (c_log c)"
  shows "coord_inv s0 (c\<lparr>c_log := l, c_snap := snap_step (c_snap c) e\<rparr>)"
  using assms by (auto simp: coord_inv_def projects_def)

lemma append_apply_cases:
  obtains (stale) "append_apply now et u src nm tr pk c = Inl (StaleTermError 1 (el_term (c_log c)))"
      "1 < el_term (c_log c)"
  | (ok) e d l where "append_apply now et u src nm tr pk c =
        Inr (e, d, c\<lparr>c_log := l, c_snap := snap_step (c_snap c) e\<rparr>)"
      "apply_event (c_snap c) e = (snap_step (c_snap c) e, d)" "el_term (c_log c) \<le> 1"
      "log_append now et u src 1 nm tr pk (c_log c) = Inr (e, l)"
      "el_log l = el_log (c_log c) @ [e]" "el_next l = el_next (c_log c) + 1" "el_room l = el_room (c_log c)"
      "el_term l = 1" "ev_seq_no e = el_next (c_log c)" "ev_version e = el_next (c_log c)"
      "ev_type e = et" "ev_user_id e = u" "ev_timestamp e = now" "ev_display_name e = nm"
      "ev_public_key e = pk"
proof (cases rule: log_append_cases[of 1 "c_log c" now et u src nm tr pk])
  case stale
  then show ?thesis using that(1) by (simp add: append_apply_def)
next
  case (ok e)
  obtain s' d where d: "apply_event (c_snap c) e = (s', d)" by fastforce
  then have s': "s' = snap_step (c_snap c) e" by simp
  let ?l = "(c_log c)\<lparr>el_term := 1, el_log := el_log (c_log c) @ [e], el_next := el_next (c_log c) + 1\<rparr>"
  have eq: "append_apply now et u src nm tr pk c = Inr (e, d, c\<lparr>c_log := ?l, c_snap := s'\<rparr>)"
    unfolding append_apply_def ok(2) by (simp add: d)
  show ?thesis by (rule that(2)[OF eq[unfolded s'] d[unfolded s'] ok(1,2)]) (simp_all add: ok(3))
qed

lemma coord_inv_append:
  "coord_inv s0 c \<Longrightarrow> append_apply now et u src nm tr pk c = Inr (e, d, c') \<Longrightarrow> coord_inv s0 c'"
proof (cases rule: append_apply_cases[of now et u src nm tr pk c])
  case (ok e' d' l)
  assume inv: "coord_inv s0 c" and "append_apply now et u src nm tr pk c = Inr (e, d, c')"
  with ok have "c' = c\<lparr>c_log := l, c_snap := snap_step (c_snap c) e'\<rparr>" by simp
  moreover have "log_wf l" using log_append_wf[OF _ ok(4)] inv by (simp add: coord_inv_def)
  ultimately show ?thesis using coord_inv_log[OF inv] ok by simp
qed simp

section \<open>The handlers keep it\<close>

definition handler_ok :: "snap \<Rightarrow> history_handler option \<Rightarrow> bool" where
  "handler_ok s0 h = (case h of None \<Rightarrow> True | Some f \<Rightarrow> (\<forall>u e c. coord_inv s0 c \<longrightarrow> coord_inv s0 (f u e c)))"

lemma coord_inv_trace: "coord_inv s0 c \<Longrightarrow> coord_inv s0 (snd (begin_trace uid now u c))"
  by (auto simp: begin_trace_def intro!: coord_inv_steps split: option.split)

lemma coord_inv_commit:
  assumes "coord_inv s0 c" "handler_ok s0 h"
  shows "coord_inv s0 (fst (commit_join h now u nm tr pk c))"
proof (cases "append_apply now JOIN_ACCEPTED u ''coordinator'' nm tr pk c")
  case (Inr r)
  obtain e d c2 where r: "r = (e, d, c2)" by (cases r)
  define c5 where "c5 = checkpoint (if Some u \<noteq> c_local (notify e d c2)
      then presence_register now u (notify e d c2) else notify e d c2)"
  have "coord_inv s0 c2" using coord_inv_append[OF assms(1)] Inr r by simp
  then have "coord_inv s0 c5" by (auto simp: c5_def intro!: coord_inv_steps)
  moreover have "fst (commit_join h now u nm tr pk c) = (case h of None \<Rightarrow> c5 | Some f \<Rightarrow> f u e c5)"
    by (simp add: commit_join_def Inr r Let_def c5_def split: option.split)
  ultimately show ?thesis
    using assms(2) by (simp add: handler_ok_def split: option.splits)
qed (use assms in \<open>simp add: commit_join_def\<close>)

lemma coord_inv_accept:
  assumes "coord_inv s0 c" "handler_ok s0 h"
  shows "coord_inv s0 (fst (accept_join h uid now u nm pk c))"
  using coord_inv_commit[OF coord_inv_trace[OF assms(1)] assms(2)]
  by (simp add: accept_join_def case_prod_beta)

lemma guard_wf_dup: "guard_wf g \<Longrightarrow> guard_wf (snd (is_duplicate now u t g))"
  using guard_wf_check[of g now "(u, t)"] by (simp add: guard_check_def case_prod_beta)

lemma coord_inv_join:
  assumes "coord_inv s0 c" "handler_ok s0 h"
  shows "coord_inv s0 (fst (handle_join v h uid now u nm pk ctx c))"
proof -
  obtain dup g where d: "is_duplicate now u ''JOIN_REQUESTED'' (c_guard c) = (dup, g)" by fastforce
  have "guard_wf g" using guard_wf_dup[of "c_guard c" now u] assms(1) d by (metis coord_inv_def snd_conv)
  then have i: "coord_inv s0 (c\<lparr>c_guard := g\<rparr>)" using assms(1) by (rule coord_inv_steps(2)[rotated])
  note acc = coord_inv_accept[OF i assms(2)]
  show ?thesis
    using i acc coord_inv_append[OF i]
    by (auto simp: handle_join_def d Let_def intro!: coord_inv_steps
        split: option.split verdict.split bool.split sum.split)
qed

lemma coord_inv_leave: "coord_inv s0 c \<Longrightarrow> coord_inv s0 (fst (handle_leave now u c))"
proof -
  have conf: "coord_inv s0 (fst (confirm_leave now u nm c))" if "coord_inv s0 c" for c nm
    using that coord_inv_append[OF that]
    by (auto simp: confirm_leave_def intro!: coord_inv_steps split: sum.split)
  assume "coord_inv s0 c"
  then show ?thesis
    by (auto simp: handle_leave_def intro: conf coord_inv_append split: option.split sum.split)
qed

lemma coord_inv_presence_change:
  "coord_inv s0 c \<Longrightarrow> coord_inv s0 (fst (handle_presence_change now u s c))"
  by (auto simp: handle_presence_change_def Let_def intro!: coord_inv_steps
      intro: coord_inv_append split: option.split sum.split)

lemma coord_inv_presence_heartbeat:
  assumes "coord_inv s0 c"
  shows "coord_inv s0 (fst (presence_heartbeat now u c))"
proof -
  have "presence_inv (fst (record_heartbeat now u (c_presence c)))"
    using assms by (simp add: coord_inv_def presence_inv_heartbeat)
  from coord_inv_steps(1)[OF assms this] show ?thesis
    by (auto simp: presence_heartbeat_def Let_def coord_inv_presence_change split: prod.splits list.split)
qed

lemma coord_inv_heartbeat: "coord_inv s0 c \<Longrightarrow> coord_inv s0 (fst (handle_heartbeat now u c))"
proof (cases "get_member u (c_snap c)")
  case (Some m)
  assume inv: "coord_inv s0 c"
  show ?thesis
  proof (cases "append_apply now HEARTBEAT u ''coordinator'' (mi_display_name m) None None c")
    case (Inr r)
    obtain e d c1 where r: "r = (e, d, c1)" by (cases r)
    have "coord_inv s0 (fst (presence_heartbeat now u c1))"
      using coord_inv_presence_heartbeat[OF coord_inv_append[OF inv]] Inr r by simp
    then show ?thesis
      by (auto simp: handle_heartbeat_def Some Inr r intro: coord_inv_steps split: prod.split option.split)
  qed (use inv in \<open>simp add: handle_heartbeat_def Some\<close>)
qed (simp add: handle_heartbeat_def)

lemma coord_inv_start_backfill: "coord_inv s0 c \<Longrightarrow> coord_inv s0 (fst (handle_start_backfill now u c))"
proof -
  assume inv: "coord_inv s0 c"
  define c1 where "c1 = (case map_of (c_traces c) u of None \<Rightarrow> c | Some tid \<Rightarrow> trace_span tid ''backfill_started'' now c)"
  have c1: "coord_inv s0 c1" using inv by (auto simp: c1_def intro: coord_inv_steps split: option.split)
  then show ?thesis
    using inv coord_inv_append[OF c1]
    by (auto simp: handle_start_backfill_def c1_def[symmetric] intro!: coord_inv_steps
        split: option.split sum.split)
qed

lemma coord_inv_complete_backfill: "coord_inv s0 c \<Longrightarrow> coord_inv s0 (fst (handle_complete_backfill now u c))"
proof -
  assume inv: "coord_inv s0 c"
  have c1: "coord_inv s0 (finish_trace now u c)"
    using inv by (auto simp: finish_trace_def Let_def intro!: coord_inv_steps split: option.split)
  then show ?thesis
    using inv coord_inv_append[OF c1]
    by (auto simp: handle_complete_backfill_def Let_def intro!: coord_inv_steps
        split: option.split sum.split)
qed

lemma coord_inv_check_loop: 
  "coord_inv s0 c \<Longrightarrow> \<forall>(u, en) \<in> set es. entry_ok (c_presence c) en \<Longrightarrow> coord_inv s0 (fst (check_loop now es c))"
proof (induction now es c rule: check_loop.induct)
  case (2 now u entry rest c)
  obtain en sig where ce: "check_entry (c_presence c) now entry = (en, sig)" by fastforce
  define ms where "ms = (if u \<in> set (dict_keys (pr_members (c_presence c)))
      then dict_set u en (pr_members (c_presence c)) else pr_members (c_presence c))"
  define c1 where "c1 = c\<lparr>c_presence := (c_presence c)\<lparr>pr_members := ms\<rparr>\<rparr>"
  have "entry_ok (c_presence c) en" using check_entry_ok[of "c_presence c" entry now] "2.prems"(2) ce by simp
  then have "presence_inv ((c_presence c)\<lparr>pr_members := ms\<rparr>)"
    using "2.prems"(1) presence_inv_set by (auto simp: ms_def coord_inv_def)
  then have c1: "coord_inv s0 c1" unfolding c1_def by (rule coord_inv_steps(1)[OF "2.prems"(1)])
  have okr: "\<forall>(u, en) \<in> set rest. entry_ok (c_presence c1) en" using "2.prems"(2) by (simp add: c1_def)
  have keep: "entry_ok (c_presence (fst (handle_presence_change now u s c1))) e = entry_ok (c_presence c1) e" for s e
    by (auto simp: handle_presence_change_def append_apply_def Let_def checkpoint_def
        presence_unregister_def unregister_member_def notify_def split: option.split sum.split prod.splits)
  show ?case
  proof (cases sig)
    case None
    then show ?thesis
      using "2.IH"(1)[of "(en, sig)" en sig, OF ce[symmetric] refl refl c1_def[unfolded ms_def] None c1 okr]
      by (simp add: ce c1_def ms_def Let_def)
  next
    case (Some s)
    obtain c2 err where h: "handle_presence_change now u s c1 = (c2, err)" by fastforce
    have c2: "coord_inv s0 c2" using coord_inv_presence_change[OF c1, of now u s] h by simp
    have ok2: "\<forall>(u, en) \<in> set rest. entry_ok (c_presence c2) en"
      using okr keep[of s] h by (auto split: prod.splits)
    show ?thesis
    proof (cases err)
      case None
      with h have h': "handle_presence_change now u s c1 = (c2, None)" by simp
      show ?thesis
        using "2.IH"(2)[of "(en, sig)" en sig, OF ce[symmetric] refl refl c1_def[unfolded ms_def] Some h'[symmetric] refl c2 ok2] h'
        by (simp add: ce c1_def ms_def Let_def Some)
    next
      case (Some er)
      then show ?thesis using c2 h \<open>sig = Some s\<close> by (simp add: ce c1_def ms_def Let_def)
    qed
  qed
qed simp

lemma coord_inv_sweep_loop: "coord_inv s0 c \<Longrightarrow> coord_inv s0 (fst (sweep_loop now ms c))"
proof (induction now ms c rule: sweep_loop.induct)
  case (2 now u m rest c)
  show ?case
  proof (cases "mi_state m \<noteq> BACKFILLING \<or> now - mi_joined_at m \<le> BACKFILL_TIMEOUT_S")
    case True
    then show ?thesis using 2 by auto
  next
    case False
    show ?thesis
    proof (cases "append_apply now DISCONNECT_TIMEOUT u ''coordinator'' (mi_display_name m) None None c")
      case (Inr r)
      obtain e d c1 where r: "r = (e, d, c1)" by (cases r)
      have "coord_inv s0 c1" using coord_inv_append[OF "2.prems"] Inr r by simp
      then have "coord_inv s0 (checkpoint (presence_unregister u (notify e d c1)))"
        by (intro coord_inv_steps)
      with "2.IH"(3)[OF _ _ Inr r[symmetric] refl] False Inr r show ?thesis by simp
    qed (use False "2.prems" in simp)
  qed
qed simp

lemma coord_inv_tick:
  assumes "coord_inv s0 c"
  shows "coord_inv s0 (fst (tick now c))"
proof -
  obtain c1 err where k: "check_loop now (pr_members (c_presence c)) c = (c1, err)" by fastforce
  have "\<forall>(u, en) \<in> set (pr_members (c_presence c)). entry_ok (c_presence c) en"
    using assms by (simp add: coord_inv_def presence_inv_def)
  then have "coord_inv s0 c1" using coord_inv_check_loop[OF assms, of _ now] k by (metis fst_conv)
  then show ?thesis
    by (auto simp: tick_def k sweep_backfill_timeouts_def coord_inv_sweep_loop split: option.split)
qed

lemma coord_inv_remote:
  assumes "coord_inv s0 c"
  shows "coord_inv s0 (apply_remote_event now e c)"
proof -
  obtain le l where a: "append_remote e (c_log c) = (le, l)" by fastforce
  obtain s d where ap: "apply_event (c_snap c) le = (s, d)" by fastforce
  have "log_wf l" using append_remote_wf[of "c_log c" e] assms a by (simp add: coord_inv_def)
  then have "coord_inv s0 (c\<lparr>c_log := l, c_snap := s\<rparr>)"
    using coord_inv_log[OF assms, of l le] append_remote_log[OF a] ap by simp
  then show ?thesis
    by (auto simp: apply_remote_event_def a ap Let_def intro!: coord_inv_steps coord_inv_presence_heartbeat)
qed

lemma coord_inv_remote_snapshot: "coord_inv s0 c \<Longrightarrow> coord_inv s0 (apply_remote_snapshot now es c)"
  by (induction es arbitrary: c) (auto simp: apply_remote_snapshot_def intro: coord_inv_remote)

lemma coord_inv_subscribe: "coord_inv s0 c \<Longrightarrow> coord_inv s0 (subscribe h v c)"
  by (auto simp: subscribe_def nt_subscribe_def Let_def coord_inv_def projects_def)

lemma coord_inv_unsubscribe: "coord_inv s0 c \<Longrightarrow> coord_inv s0 (unsubscribe h c)"
  by (auto simp: unsubscribe_def nt_unsubscribe_def coord_inv_def projects_def)

section \<open>Runs\<close>

datatype coord_op =
    Join "validator option" "history_handler option" string string string "string option" "join_context option"
  | Leave string
  | Heartbeat string
  | StartBackfill string
  | CompleteBackfill string
  | Subscribe string int
  | Unsubscribe string
  | Tick
  | RemoteEvent membership_event
  | RemoteSnapshot "membership_event list"

fun coord_step :: "coord \<Rightarrow> time \<times> coord_op \<Rightarrow> coord" where
  "coord_step c (now, Join v h uid u nm pk ctx) = fst (handle_join v h uid now u nm pk ctx c)"
| "coord_step c (now, Leave u) = fst (handle_leave now u c)"
| "coord_step c (now, Heartbeat u) = fst (handle_heartbeat now u c)"
| "coord_step c (now, StartBackfill u) = fst (handle_start_backfill now u c)"
| "coord_step c (now, CompleteBackfill u) = fst (handle_complete_backfill now u c)"
| "coord_step c (now, Subscribe h v) = subscribe h v c"
| "coord_step c (now, Unsubscribe h) = unsubscribe h c"
| "coord_step c (now, Tick) = fst (tick now c)"
| "coord_step c (now, RemoteEvent e) = apply_remote_event now e c"
| "coord_step c (now, RemoteSnapshot es) = apply_remote_snapshot now es c"

fun op_ok :: "snap \<Rightarrow> time \<times> coord_op \<Rightarrow> bool" where
  "op_ok s0 (now, Join v h uid u nm pk ctx) = handler_ok s0 h"
| "op_ok s0 _ = True"

interpretation coord_run: inv_system coord_step "coord_inv s0" "op_ok s0" for s0
proof
  fix c e assume "coord_inv s0 c" "op_ok s0 e"
  then show "coord_inv s0 (coord_step c e)"
    by (cases "(c, e)" rule: coord_step.cases)
      (simp_all add: coord_inv_join coord_inv_leave coord_inv_heartbeat coord_inv_start_backfill
        coord_inv_complete_backfill coord_inv_subscribe coord_inv_unsubscribe coord_inv_tick
        coord_inv_remote coord_inv_remote_snapshot)
qed

text \<open>In any state of any run, a member's state is what its own events in the log say.\<close>

lemma coord_member_state:
  assumes "coord_inv s0 c"
  shows "member_st (c_snap c) u = foldl next_state (member_st s0 u) (user_events u (el_log (c_log c)))"
proof -
  have "log_wf (c_log c)" "projects s0 c" using assms by (auto simp: coord_inv_def)
  then show ?thesis
    using materialize_states[OF log_wf_sorted] by (simp add: projects_def)
qed

section \<open>Recovery\<close>

lemma recover_register_frame:
  "coord_inv s0 c \<Longrightarrow> coord_inv s0 (foldl (reregister now) c ms)"
  by (induction ms arbitrary: c) (auto simp: reregister_def intro: coord_inv_register)

lemma coord_inv_recover:
  assumes inv: "coord_inv b c0" and rec: "dur_recover (c_room c0) (c_dur c0) = Some (l, s)"
    and sync: "synced l s" and room: "el_room l = c_room c0"
    and tail: "\<forall>e \<in> set (el_log l). sn_as_of s < ev_seq_no e"
  shows "coord_inv s (fst (recover now c0))"
proof -
  have "materialize s (el_log l) = s" using sync tail by (intro materialize_fixed) (auto simp: synced_def)
  then have "coord_inv s (c0\<lparr>c_log := l, c_snap := s\<rparr>)"
    using inv sync tail room by (auto simp: coord_inv_def projects_def synced_def)
  then show ?thesis
    unfolding recover_def rec by (simp add: Let_def recover_register_frame)
qed

end
