(* ===== verification/Membership_Router.thy ===== *)
theory Membership_Router
  imports Membership_Coordinator Peer_Registry
begin

text \<open>
  \<open>distribution/membership_router.py\<close>: the routing table of the broadcast layer, built from
  a membership snapshot and kept up to date by membership events. The lock makes each
  handler atomic. \<open>_parse_address\<close> returns \<open>None\<close> where the source raises
  \<open>ValueError\<close>.

  Shown: the table simulates the snapshot (an active, routable member is routed to; members
  that are joining, backfilling or suspected are held; everyone else is absent), for every
  event the snapshot accepts; and, as long as user identifiers are canonical addresses, the
  router honours the same contract as the in-memory registry: no peer is listed twice.
\<close>

record router =
  rt_self :: string
  rt_active :: "(string, addr) dict"
  rt_hold :: "string set"

definition parse_address :: "string \<Rightarrow> addr option" where
  "parse_address user_id =
     (case rsplit1 (CHR '':'') user_id of
        None \<Rightarrow> None
      | Some (host, port_str) \<Rightarrow> map_option (\<lambda>port. (host, port)) (py_int port_str))"

definition init_member :: "router \<Rightarrow> string \<times> member_info \<Rightarrow> router" where
  "init_member r um =
     (case parse_address (fst um) of
        None \<Rightarrow> r
      | Some addr \<Rightarrow>
          if fst um = rt_self r then r
          else if mi_state (snd um) = ACTIVE then r\<lparr>rt_active := dict_set (fst um) addr (rt_active r)\<rparr>
          else if mi_state (snd um) \<in> {JOINING, BACKFILLING, SUSPECTED}
          then r\<lparr>rt_hold := insert (fst um) (rt_hold r)\<rparr>
          else r)"

definition initialize_from_membership :: "string \<Rightarrow> snapshot_data \<Rightarrow> router" where
  "initialize_from_membership self_address sd =
     foldl init_member \<lparr>rt_self = self_address, rt_active = [], rt_hold = {}\<rparr> (sd_members sd)"

definition router_get_peers :: "router \<Rightarrow> addr list" where
  "router_get_peers r = dict_values (rt_active r)"

definition on_join_accepted :: "string \<Rightarrow> router \<Rightarrow> router" where
  "on_join_accepted user_id r =
     (if user_id = rt_self r then r
      else (case parse_address user_id of
              None \<Rightarrow> r
            | Some _ \<Rightarrow> r\<lparr>rt_active := dict_pop user_id (rt_active r), rt_hold := insert user_id (rt_hold r)\<rparr>))"

definition on_backfill_complete :: "string \<Rightarrow> router \<Rightarrow> router" where
  "on_backfill_complete user_id r =
     (if user_id \<in> rt_hold r then
        let r1 = r\<lparr>rt_hold := rt_hold r - {user_id}\<rparr> in
        (case parse_address user_id of
           None \<Rightarrow> r1 | Some addr \<Rightarrow> r1\<lparr>rt_active := dict_set user_id addr (rt_active r1)\<rparr>)
      else r)"

definition on_disconnect_suspected :: "string \<Rightarrow> router \<Rightarrow> router" where
  "on_disconnect_suspected user_id r =
     (if user_id \<in> set (dict_keys (rt_active r))
      then r\<lparr>rt_active := dict_pop user_id (rt_active r), rt_hold := insert user_id (rt_hold r)\<rparr>
      else r)"

definition on_reconnected :: "string \<Rightarrow> router \<Rightarrow> router" where
  "on_reconnected user_id r =
     (if user_id \<in> rt_hold r then
        let r1 = r\<lparr>rt_hold := rt_hold r - {user_id}\<rparr> in
        (case parse_address user_id of
           None \<Rightarrow> r1 | Some addr \<Rightarrow> r1\<lparr>rt_active := dict_set user_id addr (rt_active r1)\<rparr>)
      else r)"

definition on_leave_confirmed :: "string \<Rightarrow> router \<Rightarrow> router" where
  "on_leave_confirmed user_id r =
     r\<lparr>rt_active := dict_pop user_id (rt_active r), rt_hold := rt_hold r - {user_id}\<rparr>"

definition on_disconnect_timeout :: "string \<Rightarrow> router \<Rightarrow> router" where
  "on_disconnect_timeout user_id r =
     r\<lparr>rt_active := dict_pop user_id (rt_active r), rt_hold := rt_hold r - {user_id}\<rparr>"

definition on_membership_event :: "router \<Rightarrow> membership_event \<Rightarrow> router" where
  "on_membership_event r event =
     (case ev_type event of
        JOIN_ACCEPTED \<Rightarrow> on_join_accepted (ev_user_id event) r
      | HISTORY_BACKFILL_COMPLETE \<Rightarrow> on_backfill_complete (ev_user_id event) r
      | DISCONNECT_SUSPECTED \<Rightarrow> on_disconnect_suspected (ev_user_id event) r
      | RECONNECTED \<Rightarrow> on_reconnected (ev_user_id event) r
      | LEAVE_CONFIRMED \<Rightarrow> on_leave_confirmed (ev_user_id event) r
      | DISCONNECT_TIMEOUT \<Rightarrow> on_disconnect_timeout (ev_user_id event) r
      | _ \<Rightarrow> r)"

text \<open>The router has no \<open>get_pub_key\<close>.\<close>

definition router_view :: "router \<Rightarrow> registry_view" where
  "router_view r = \<lparr>rv_peers = router_get_peers r, rv_pub_key = None\<rparr>"

lemmas router_handlers =
  on_join_accepted_def on_backfill_complete_def on_disconnect_suspected_def on_reconnected_def
  on_leave_confirmed_def on_disconnect_timeout_def

section \<open>Addresses\<close>

lemma parse_address_addr_str [simp]: "parse_address (addr_str hp) = Some hp"
  by (cases hp) (simp add: parse_address_def rsplit1_addr_str)

section \<open>The simulation\<close>

definition routable :: "string \<Rightarrow> string \<Rightarrow> bool" where
  "routable self u = (u \<noteq> self \<and> parse_address u \<noteq> None)"

definition route_ok :: "string \<Rightarrow> string \<Rightarrow> member_state option \<Rightarrow> addr option \<Rightarrow> bool \<Rightarrow> bool" where
  "route_ok self u st a h =
     (h = (st \<in> {Some JOINING, Some BACKFILLING, Some SUSPECTED} \<and> routable self u)
      \<and> (st = Some ACTIVE \<and> routable self u \<longrightarrow> a \<noteq> None)
      \<and> (\<forall>x. a = Some x \<longrightarrow> st \<in> {Some ACTIVE, Some LEAVING} \<and> u \<noteq> self \<and> parse_address u = Some x))"

definition tracks :: "router \<Rightarrow> snap \<Rightarrow> bool" where
  "tracks r s = (wf_dict (rt_active r) \<and>
     (\<forall>u. route_ok (rt_self r) u (member_st s u) (map_of (rt_active r) u) (u \<in> rt_hold r)))"

lemma on_event_self [simp]: "rt_self (on_membership_event r e) = rt_self r"
  by (cases "ev_type e") (auto simp: on_membership_event_def router_handlers Let_def split: option.split)

lemma on_event_wf: "wf_dict (rt_active r) \<Longrightarrow> wf_dict (rt_active (on_membership_event r e))"
  by (cases "ev_type e") (auto simp: on_membership_event_def router_handlers Let_def split: option.split)

lemma on_event_other:
  "u \<noteq> ev_user_id e \<Longrightarrow> map_of (rt_active (on_membership_event r e)) u = map_of (rt_active r) u
     \<and> (u \<in> rt_hold (on_membership_event r e) \<longleftrightarrow> u \<in> rt_hold r)"
  by (cases "ev_type e")
    (auto simp: on_membership_event_def router_handlers Let_def map_of_dict_pop map_of_dict_set split: option.split)

text \<open>A live delta is produced exactly for the accepted events that have one.\<close>

lemma apply_event_delta:
  assumes "sn_as_of s < ev_seq_no e"
  shows "snd (apply_event s e) =
    (if is_transition_valid (ev_type e) (member_st s (ev_user_id e)) then synthesize_delta e else None)"
  using assms by (cases "ev_type e")
    (auto simp: apply_event_def dispatch_event_def synthesize_delta_def Let_def split: prod.splits)

lemma on_event_user:
  assumes ok: "route_ok (rt_self r) u st (map_of (rt_active r) u) (u \<in> rt_hold r)" and u: "ev_user_id e = u"
    and v: "is_transition_valid (ev_type e) st"
  shows "route_ok (rt_self r) u (next_state st (ev_type e)) (map_of (rt_active (on_membership_event r e)) u)
    (u \<in> rt_hold (on_membership_event r e))"
proof -
  have key: "u \<in> set (dict_keys (rt_active r)) \<longleftrightarrow> map_of (rt_active r) u \<noteq> None"
    by (simp add: map_of_eq_None_iff)
  note eval = on_membership_event_def router_handlers is_transition_valid_def next_state_eval route_ok_def
    routable_def map_of_dict_pop map_of_dict_set Let_def
  show ?thesis
  proof (cases "ev_type e")
    case DISCONNECT_SUSPECTED
    then show ?thesis using ok u v key
      by (cases st) (auto simp: eval simp del: set_map split: option.splits)
  qed (use ok u v in \<open>cases st; auto simp: eval split: option.splits\<close>)+
qed

lemma tracks_step:
  assumes tr: "tracks r s" and seq: "sn_as_of s < ev_seq_no e"
  shows "tracks (if snd (apply_event s e) = None then r else on_membership_event r e) (snap_step s e)"
proof -
  let ?st = "member_st s (ev_user_id e)"
  note st = snap_step_state[OF seq] and delta = apply_event_delta[OF seq]
  have ok: "route_ok (rt_self r) u (member_st s u) (map_of (rt_active r) u) (u \<in> rt_hold r)" for u
    using tr by (simp add: tracks_def)
  show ?thesis
  proof (cases "is_transition_valid (ev_type e) ?st")
    case False
    then show ?thesis using tr delta by (simp add: apply_event_invalid)
  next
    case valid: True
    have live: "snd (apply_event s e) = synthesize_delta e" using delta valid by simp
    show ?thesis
    proof (cases "synthesize_delta e = None")
      case True
      have "route_ok (rt_self r) (ev_user_id e) (next_state ?st (ev_type e))
          (map_of (rt_active r) (ev_user_id e)) (ev_user_id e \<in> rt_hold r)"
        using on_event_user[OF ok refl valid] True
        by (cases "ev_type e") (auto simp: on_membership_event_def synthesize_delta_def)
      then show ?thesis
        using tr ok True live st by (auto simp: tracks_def)
    next
      case False
      have "route_ok (rt_self r) u (member_st (snap_step s e) u)
          (map_of (rt_active (on_membership_event r e)) u) (u \<in> rt_hold (on_membership_event r e))" for u
        using on_event_user[OF ok refl valid] on_event_other[of u e r] ok[of u] st[of u]
        by (cases "u = ev_user_id e") auto
      then show ?thesis using tr False live by (auto simp: tracks_def on_event_wf)
    qed
  qed
qed

text \<open>The table built from a snapshot tracks that snapshot.\<close>

lemma init_fold:
  assumes "distinct (dict_keys ms)" "wf_dict (rt_active r)"
    and "\<forall>u \<in> set (dict_keys ms). map_of (rt_active r) u = None \<and> u \<notin> rt_hold r"
  shows "rt_self (foldl init_member r ms) = rt_self r \<and> wf_dict (rt_active (foldl init_member r ms))
    \<and> (u \<notin> set (dict_keys ms) \<longrightarrow> map_of (rt_active (foldl init_member r ms)) u = map_of (rt_active r) u
         \<and> (u \<in> rt_hold (foldl init_member r ms) \<longleftrightarrow> u \<in> rt_hold r))
    \<and> (\<forall>m. map_of ms u = Some m \<longrightarrow> route_ok (rt_self r) u (Some (mi_state m))
         (map_of (rt_active (foldl init_member r ms)) u) (u \<in> rt_hold (foldl init_member r ms)))"
  using assms
proof (induction ms arbitrary: r)
  case (Cons um ms)
  obtain v mi where um: "um = (v, mi)" by (cases um)
  let ?r = "init_member r um"
  have wf: "wf_dict (rt_active ?r)" "rt_self ?r = rt_self r" using Cons.prems(2)
    by (auto simp: init_member_def split: option.split)
  have old: "map_of (rt_active ?r) w = map_of (rt_active r) w \<and> (w \<in> rt_hold ?r \<longleftrightarrow> w \<in> rt_hold r)" if "w \<noteq> v" for w
    using that by (auto simp: init_member_def um map_of_dict_set split: option.split)
  have v: "route_ok (rt_self r) v (Some (mi_state mi)) (map_of (rt_active ?r) v) (v \<in> rt_hold ?r)"
    using Cons.prems(3) um by (cases "mi_state mi")
      (auto simp: init_member_def route_ok_def routable_def map_of_dict_set split: option.splits)
  have vn: "v \<notin> set (dict_keys ms)" using Cons.prems(1) um by simp
  then have fresh: "\<forall>u \<in> set (dict_keys ms). map_of (rt_active ?r) u = None \<and> u \<notin> rt_hold ?r"
    using Cons.prems(3) old by (metis list.set_intros(2) list.simps(9))
  have d: "distinct (dict_keys ms)" using Cons.prems(1) by simp
  note IH = Cons.IH[OF d wf(1) fresh]
  show ?case
  proof (cases "u = v")
    case True
    then show ?thesis using IH vn v wf(2) um by auto
  next
    case False
    then show ?thesis using IH old[OF False] wf(2) um by auto
  qed
qed simp

lemma tracks_init:
  assumes "wf_dict (sn_members s)"
  shows "tracks (initialize_from_membership self (get_snapshot s)) s"
proof -
  let ?r0 = "\<lparr>rt_self = self, rt_active = [], rt_hold = {}\<rparr>"
  have f: "rt_self (foldl init_member ?r0 (sn_members s)) = self"
      "wf_dict (rt_active (foldl init_member ?r0 (sn_members s)))"
      "u \<notin> set (dict_keys (sn_members s)) \<Longrightarrow> map_of (rt_active (foldl init_member ?r0 (sn_members s))) u = None
         \<and> u \<notin> rt_hold (foldl init_member ?r0 (sn_members s))"
      "map_of (sn_members s) u = Some m \<Longrightarrow> route_ok self u (Some (mi_state m))
         (map_of (rt_active (foldl init_member ?r0 (sn_members s))) u) (u \<in> rt_hold (foldl init_member ?r0 (sn_members s)))"
    for u m using init_fold[OF assms, of ?r0 u] by auto
  have "route_ok self u (member_st s u) (map_of (rt_active (foldl init_member ?r0 (sn_members s))) u)
      (u \<in> rt_hold (foldl init_member ?r0 (sn_members s)))" for u
  proof (cases "map_of (sn_members s) u")
    case None
    then have "u \<notin> set (dict_keys (sn_members s))" by (simp add: map_of_eq_None_iff)
    then show ?thesis using f(3)[of u] None by (simp add: route_ok_def)
  next
    case (Some m)
    then show ?thesis using f(4)[of u m] by simp
  qed
  then show ?thesis using f(1,2) by (simp add: tracks_def initialize_from_membership_def get_snapshot_def)
qed

text \<open>Feeding the router every delta the snapshot publishes.\<close>

definition route_step :: "router \<times> snap \<Rightarrow> membership_event \<Rightarrow> router \<times> snap" where
  "route_step rs e =
     (case apply_event (snd rs) e of
        (s, None) \<Rightarrow> (fst rs, s) | (s, Some _) \<Rightarrow> (on_membership_event (fst rs) e, s))"

lemma route_step_eq:
  "route_step (r, s) e =
     (if snd (apply_event s e) = None then r else on_membership_event r e, snap_step s e)"
  by (auto simp: route_step_def split: prod.split option.split)

lemma tracks_run:
  assumes "sorted_wrt (<) (map ev_seq_no es)" "\<forall>e \<in> set es. sn_as_of s < ev_seq_no e" "tracks r s"
  shows "tracks (fst (foldl route_step (r, s) es)) (snd (foldl route_step (r, s) es))
    \<and> snd (foldl route_step (r, s) es) = materialize s es"
  using assms
proof (induction es arbitrary: r s)
  case (Cons e es)
  let ?r = "if snd (apply_event s e) = None then r else on_membership_event r e"
  have "tracks ?r (snap_step s e)" using Cons.prems by (intro tracks_step) auto
  moreover have "\<forall>x \<in> set es. sn_as_of (snap_step s e) < ev_seq_no x"
    using Cons.prems snap_step_as_of[of s e] by auto
  ultimately have "tracks (fst (foldl route_step (?r, snap_step s e) es)) (snd (foldl route_step (?r, snap_step s e) es))
      \<and> snd (foldl route_step (?r, snap_step s e) es) = materialize (snap_step s e) es"
    using Cons.prems by (intro Cons.IH) auto
  then show ?case unfolding foldl.simps route_step_eq .
qed simp

section \<open>The registry contract\<close>

definition keyed :: "(string, addr) dict \<Rightarrow> bool" where
  "keyed d = (\<forall>x \<in> set d. fst x = addr_str (snd x))"

lemma keyed_pop: "keyed d \<Longrightarrow> keyed (dict_pop k d)"
  using dict_pop_set_subset[of k d] by (auto simp: keyed_def)

lemma keyed_set: "keyed d \<Longrightarrow> keyed (dict_set (addr_str hp) hp d)"
  unfolding keyed_def using subsetD[OF dict_set_set_subset[of "addr_str hp" hp d]]
  by (metis fst_conv insert_iff snd_conv)

definition canonical :: "router \<Rightarrow> bool" where
  "canonical r = (wf_dict (rt_active r) \<and> keyed (rt_active r))"

interpretation router_reg: peer_registry router_get_peers canonical
proof
  fix r assume c: "canonical r"
  then have keys: "dict_keys (rt_active r) = map addr_str (dict_values (rt_active r))"
    by (simp add: canonical_def keyed_def comp_def)
  have "distinct (dict_keys (rt_active r))" using c by (simp add: canonical_def)
  then have "distinct (map addr_str (dict_values (rt_active r)))" unfolding keys .
  then show "distinct (router_get_peers r)" unfolding router_get_peers_def distinct_map by blast
qed

lemma canonical_event:
  assumes "canonical r" "ev_user_id e = addr_str hp"
  shows "canonical (on_membership_event r e)"
proof -
  have "keyed (rt_active r)" using assms(1) by (simp add: canonical_def)
  then have "keyed (rt_active (on_membership_event r e))"
    by (cases "ev_type e")
      (auto simp: on_membership_event_def router_handlers assms(2) Let_def keyed_pop keyed_set)
  then show ?thesis using assms(1) on_event_wf[of r e] by (simp add: canonical_def)
qed

end
