(* ===== verification/Coordinator_Behaviour.thy ===== *)
theory Coordinator_Behaviour
  imports Coordinator_Invariant Membership_Router
begin

text \<open>
  What the coordinator's operations do, observed through the member states, the set of
  members under presence tracking and the notices sent to subscribers; what a restart from
  a checkpoint preserves; and the situations in which the operations do not do what the
  surrounding documentation intends.
\<close>

section \<open>Committing one event\<close>

abbreviation tracked :: "coord \<Rightarrow> string set" where
  "tracked c \<equiv> set (dict_keys (pr_members (c_presence c)))"

abbreviation st_of :: "coord \<Rightarrow> string \<Rightarrow> member_state option" where
  "st_of c u \<equiv> member_st (c_snap c) u"

text \<open>The coordinator can append: no term beyond the one it writes with has been seen.\<close>

definition writable :: "coord \<Rightarrow> bool" where
  "writable c = (el_term (c_log c) \<le> 1 \<and> sn_as_of (c_snap c) < el_next (c_log c))"

lemma coord_inv_writable:
  "base_ok s0 \<Longrightarrow> coord_inv s0 c \<Longrightarrow> el_term (c_log c) \<le> 1 \<Longrightarrow> writable c"
  using coord_inv_synced[of s0 c] by (simp add: writable_def synced_def)

lemma append_effect:
  assumes "writable c"
  obtains e c' where "append_apply now et u src nm tr pk c =
      Inr (e, if is_transition_valid et (st_of c u) then synthesize_delta e else None, c')"
    "\<forall>w. st_of c' w = (if w = u then next_state (st_of c u) et else st_of c w)"
    "ev_type e = et" "ev_user_id e = u" "ev_seq_no e = el_next (c_log c)"
    "c' = c\<lparr>c_log := c_log c', c_snap := c_snap c'\<rparr>" "writable c'"
    "el_log (c_log c') = el_log (c_log c) @ [e]" "el_next (c_log c') = el_next (c_log c) + 1"
    "\<forall>w. w \<noteq> u \<longrightarrow> map_of (sn_members (c_snap c')) w = map_of (sn_members (c_snap c)) w"
    "c_snap c' = snap_step (c_snap c) e" "ev_version e = ev_seq_no e" "ev_display_name e = nm"
    "ev_timestamp e = now" "ev_public_key e = pk"
proof (cases rule: append_apply_cases[of now et u src nm tr pk c])
  case stale
  then show ?thesis using assms by (simp add: writable_def)
next
  case (ok e d l)
  have seq: "sn_as_of (c_snap c) < ev_seq_no e" using ok assms by (simp add: writable_def)
  have d: "d = (if is_transition_valid et (st_of c u) then synthesize_delta e else None)"
    using apply_event_delta[OF seq] ok(11,12) arg_cong[OF ok(2), of snd] by simp
  let ?c = "c\<lparr>c_log := l, c_snap := snap_step (c_snap c) e\<rparr>"
  have w: "writable ?c"
    using snap_step_as_of[of "c_snap c" e] ok assms by (auto simp: writable_def)
  have o: "\<forall>w. w \<noteq> u \<longrightarrow> map_of (sn_members (snap_step (c_snap c) e)) w = map_of (sn_members (c_snap c)) w"
    using snap_step_other[of _ e "c_snap c"] ok by simp
  show ?thesis
    by (rule that[of e ?c]) (use ok d w o snap_step_state[OF seq] in \<open>simp_all\<close>)
qed

text \<open>The bookkeeping steps touch neither members nor each other's fields.\<close>

lemma steps_frame [simp]:
  "c_snap (notify e d c) = c_snap c" "c_snap (checkpoint c) = c_snap c"
  "c_snap (presence_register now u c) = c_snap c" "c_snap (presence_unregister u c) = c_snap c"
  "c_log (notify e d c) = c_log c" "c_log (checkpoint c) = c_log c"
  "c_log (presence_register now u c) = c_log c" "c_log (presence_unregister u c) = c_log c"
  "c_presence (notify e d c) = c_presence c" "c_presence (checkpoint c) = c_presence c"
  "c_out (checkpoint c) = c_out c" "c_out (presence_register now u c) = c_out c"
  "c_out (presence_unregister u c) = c_out c" "c_subs (notify e d c) = c_subs c"
  "c_guard (notify e d c) = c_guard c" "c_guard (checkpoint c) = c_guard c"
  "c_guard (presence_register now u c) = c_guard c" "c_guard (presence_unregister u c) = c_guard c"
  "c_guard (trace_span tid nm now c) = c_guard c" "c_snap (trace_span tid nm now c) = c_snap c"
  "c_log (trace_span tid nm now c) = c_log c" "c_presence (trace_span tid nm now c) = c_presence c"
  "c_out (trace_span tid nm now c) = c_out c" "c_subs (trace_span tid nm now c) = c_subs c"
  "c_local (notify e d c) = c_local c" "c_local (trace_span tid nm now c) = c_local c"
  by (simp_all add: notify_def checkpoint_def presence_register_def presence_unregister_def trace_span_def)

lemma tracked_steps [simp]:
  "tracked (presence_register now u c) = insert u (tracked c)"
  "tracked (presence_unregister u c) = tracked c - {u}"
  by (simp_all add: presence_register_def register_member_def presence_unregister_def
      unregister_member_def del: set_map)

lemma out_notify [simp]: "c_out (notify e d c) = c_out c @ nt_dispatch e d (c_subs c)"
  by (simp add: notify_def)

lemma writable_frame [simp]:
  "writable (notify e d c) = writable c" "writable (checkpoint c) = writable c"
  "writable (presence_register now u c) = writable c" "writable (presence_unregister u c) = writable c"
  "writable (trace_span tid nm now c) = writable c" "writable (c\<lparr>c_guard := g\<rparr>) = writable c"
  by (simp_all add: writable_def)

section \<open>Joining\<close>

lemma begin_trace_frame:
  assumes "begin_trace uid now u c = (tr, c1)"
  shows "c_snap c1 = c_snap c" "c_log c1 = c_log c" "c_presence c1 = c_presence c" "c_guard c1 = c_guard c"
    "c_out c1 = c_out c" "c_subs c1 = c_subs c" "c_local c1 = c_local c" "writable c1 = writable c"
  using assms by (auto simp: begin_trace_def writable_def split: option.splits)

lemma commit_effect:
  assumes w: "writable c" and st: "st_of c u \<in> {None, Some LEFT, Some DISCONNECTED}"
  shows "\<exists>e c' r. commit_join None now u nm tr pk c = (c', Inr r) \<and> jr_accepted r
    \<and> st_of c' u = Some JOINING \<and> (\<forall>w. w \<noteq> u \<longrightarrow> st_of c' w = st_of c w)
    \<and> tracked c' = (if c_local c = Some u then tracked c else insert u (tracked c))
    \<and> c_out c' = c_out c @ map (\<lambda>h. (h, e, mk_delta ''joined'' e)) (dict_keys (c_subs c))
    \<and> ev_type e = JOIN_ACCEPTED \<and> ev_user_id e = u \<and> jr_seq_no r = el_next (c_log c)
    \<and> writable c' \<and> c_guard c' = c_guard c"
proof -
  obtain e c1 where a: "append_apply now JOIN_ACCEPTED u ''coordinator'' nm tr pk c =
      Inr (e, if is_transition_valid JOIN_ACCEPTED (st_of c u) then synthesize_delta e else None, c1)"
    "\<forall>w. st_of c1 w = (if w = u then next_state (st_of c u) JOIN_ACCEPTED else st_of c w)"
    "ev_type e = JOIN_ACCEPTED" "ev_user_id e = u" "ev_seq_no e = el_next (c_log c)"
    "c1 = c\<lparr>c_log := c_log c1, c_snap := c_snap c1\<rparr>" "writable c1"
    by (rule append_effect[OF w, of now JOIN_ACCEPTED u "''coordinator''" nm tr pk])
  have valid: "is_transition_valid JOIN_ACCEPTED (st_of c u)" using st by (auto simp: is_transition_valid_def)
  have nx: "next_state (st_of c u) JOIN_ACCEPTED = Some JOINING" using st by (auto simp: next_state_eval)
  have f: "c_subs c1 = c_subs c" "c_out c1 = c_out c" "c_local c1 = c_local c" "c_presence c1 = c_presence c"
    "c_guard c1 = c_guard c" using arg_cong[OF a(6), of c_subs] arg_cong[OF a(6), of c_out]
      arg_cong[OF a(6), of c_local] arg_cong[OF a(6), of c_presence] arg_cong[OF a(6), of c_guard] by simp_all
  have syn: "synthesize_delta e = Some (mk_delta ''joined'' e)" using a(3) by (simp add: synthesize_delta_def)
  have st1: "st_of c1 u = Some JOINING" "\<forall>w. w \<noteq> u \<longrightarrow> st_of c1 w = st_of c w" using a(2) nx by auto
  let ?c3 = "notify e (Some (mk_delta ''joined'' e)) c1"
  let ?c4 = "checkpoint (if Some u \<noteq> c_local ?c3 then presence_register now u ?c3 else ?c3)"
  have eq: "commit_join None now u nm tr pk c = (?c4, Inr \<lparr>jr_accepted = True, jr_seq_no = ev_seq_no e,
      jr_version = ev_version e, jr_active_members = get_active_members (c_snap ?c4), jr_reason = None\<rparr>)"
    by (simp add: commit_join_def a(1) valid syn Let_def)
  show ?thesis
    by (intro exI conjI, rule eq)
      (use a(3-5,7) f st1 in \<open>auto simp: nt_dispatch_def simp del: set_map split: if_splits\<close>)
qed

lemma join_effect:
  assumes w: "writable c" and st: "st_of c u \<in> {None, Some LEFT, Some DISCONNECTED}"
    and fresh: "(u, ''JOIN_REQUESTED'') \<notin> set (guard_keys (c_guard c))"
    and ok: "\<forall>f ctx' reason. v = Some f \<longrightarrow> f u nm ctx' \<noteq> Verdict False reason"
  shows "\<exists>e c' r. handle_join v None uid now u nm pk ctx c = (c', Inr r) \<and> jr_accepted r
    \<and> st_of c' u = Some JOINING \<and> (\<forall>w. w \<noteq> u \<longrightarrow> st_of c' w = st_of c w)
    \<and> tracked c' = (if c_local c = Some u then tracked c else insert u (tracked c))
    \<and> c_out c' = c_out c @ map (\<lambda>h. (h, e, mk_delta ''joined'' e)) (dict_keys (c_subs c))
    \<and> ev_type e = JOIN_ACCEPTED \<and> ev_user_id e = u \<and> jr_seq_no r = el_next (c_log c) \<and> writable c'
    \<and> c_guard c' = snd (guard_check now (u, ''JOIN_REQUESTED'') (c_guard c))"
proof -
  obtain g where g: "is_duplicate now u ''JOIN_REQUESTED'' (c_guard c) = (False, g)"
    using is_duplicate_miss[OF fresh] by blast
  then have gc: "snd (guard_check now (u, ''JOIN_REQUESTED'') (c_guard c)) = g" by (simp add: guard_check_def)
  obtain tr c1 where b: "begin_trace uid now u (c\<lparr>c_guard := g\<rparr>) = (tr, c1)" by fastforce
  have fr: "c_snap c1 = c_snap c" "c_log c1 = c_log c" "c_presence c1 = c_presence c" "c_guard c1 = g"
    "c_out c1 = c_out c" "c_subs c1 = c_subs c" "c_local c1 = c_local c" "writable c1 = writable c"
    using begin_trace_frame[OF b] by simp_all
  have acc: "handle_join v None uid now u nm pk ctx c = commit_join None now u nm tr pk c1"
  proof (cases v)
    case None
    then show ?thesis by (simp add: handle_join_def g accept_join_def b)
  next
    case (Some f)
    let ?ctx = "case ctx of Some x \<Rightarrow> x | None \<Rightarrow> \<lparr>jc_room_id = c_room (c\<lparr>c_guard := g\<rparr>),
        jc_source_address = None, jc_public_key = pk, jc_arrived_at = now\<rparr>"
    from ok Some have "\<forall>reason. f u nm ?ctx \<noteq> Verdict False reason" by blast
    then consider "f u nm ?ctx = NoVerdict" | reason where "f u nm ?ctx = Verdict True reason"
      by (cases "f u nm ?ctx") auto
    then show ?thesis using Some by cases (simp_all add: handle_join_def g accept_join_def b Let_def)
  qed
  have "writable c1" "st_of c1 u \<in> {None, Some LEFT, Some DISCONNECTED}" using w st fr by simp_all
  from commit_effect[OF this, of now nm tr pk] show ?thesis unfolding acc gc fr .
qed

lemma join_duplicate:
  assumes "(u, ''JOIN_REQUESTED'') \<in> set (guard_keys (c_guard c))"
  shows "handle_join v h uid now u nm pk ctx c = (c, Inr (duplicate_result c))"
  using assms by (simp add: handle_join_def is_duplicate_hit)

section \<open>Backfill, leaving\<close>

lemma backfill_effect:
  assumes w: "writable c" and st: "st_of c u = Some JOINING"
  shows "\<exists>c1 c2 e. handle_start_backfill t1 u c = (c1, None) \<and> st_of c1 u = Some BACKFILLING
    \<and> handle_complete_backfill t2 u c1 = (c2, None) \<and> st_of c2 u = Some ACTIVE
    \<and> (\<forall>w. w \<noteq> u \<longrightarrow> st_of c2 w = st_of c w) \<and> tracked c2 = tracked c
    \<and> c_out c2 = c_out c @ map (\<lambda>h. (h, e, mk_delta ''active'' e)) (dict_keys (c_subs c))
    \<and> ev_user_id e = u \<and> writable c2 \<and> c_guard c2 = c_guard c"
proof -
  from st obtain m where m: "get_member u (c_snap c) = Some m" "mi_state m = JOINING"
    by (auto simp: get_member_def)
  define ct where "ct = (case map_of (c_traces c) u of None \<Rightarrow> c | Some tid \<Rightarrow> trace_span tid ''backfill_started'' t1 c)"
  have ct: "writable ct" "c_snap ct = c_snap c" "c_presence ct = c_presence c" "c_out ct = c_out c"
    "c_subs ct = c_subs c" "c_guard ct = c_guard c" using w by (auto simp: ct_def split: option.split)
  obtain e c1 where a: "append_apply t1 HISTORY_BACKFILL_STARTED u ''coordinator'' (mi_display_name m) None None ct =
      Inr (e, if is_transition_valid HISTORY_BACKFILL_STARTED (st_of ct u) then synthesize_delta e else None, c1)"
    "\<forall>w. st_of c1 w = (if w = u then next_state (st_of ct u) HISTORY_BACKFILL_STARTED else st_of ct w)"
    "ev_type e = HISTORY_BACKFILL_STARTED" "ev_user_id e = u" "ev_seq_no e = el_next (c_log ct)"
    "c1 = ct\<lparr>c_log := c_log c1, c_snap := c_snap c1\<rparr>" "writable c1"
    by (rule append_effect[OF ct(1), of t1 HISTORY_BACKFILL_STARTED u "''coordinator''" "mi_display_name m" None None])
  have syn: "synthesize_delta e = None" using a(3) by (simp add: synthesize_delta_def)
  let ?c1 = "checkpoint (notify e None c1)"
  have s: "handle_start_backfill t1 u c = (?c1, None)"
    using a(1) syn by (simp add: handle_start_backfill_def m ct_def[symmetric])
  have f1: "c_presence c1 = c_presence c" "c_out c1 = c_out c" "c_subs c1 = c_subs c" "c_guard c1 = c_guard c"
    using arg_cong[OF a(6), of c_presence] arg_cong[OF a(6), of c_out] arg_cong[OF a(6), of c_subs]
      arg_cong[OF a(6), of c_guard] ct by simp_all
  have st1: "st_of c1 u = Some BACKFILLING" using a(2) ct st by (simp add: next_state_eval)
  from st1 obtain m1 where m1: "get_member u (c_snap ?c1) = Some m1" "mi_state m1 = BACKFILLING"
    by (auto simp: get_member_def)
  define cu where "cu = finish_trace t2 u ?c1"
  have cu: "writable cu" "c_snap cu = c_snap c1" "c_presence cu = c_presence c" "c_out cu = c_out c"
    "c_subs cu = c_subs c" "c_guard cu = c_guard c"
    using a(7) f1 by (auto simp: cu_def finish_trace_def Let_def writable_def trace_span_def
        checkpoint_def notify_def split: option.split)
  obtain e2 c2 where b: "append_apply t2 HISTORY_BACKFILL_COMPLETE u ''coordinator'' (mi_display_name m1) None None cu =
      Inr (e2, if is_transition_valid HISTORY_BACKFILL_COMPLETE (st_of cu u) then synthesize_delta e2 else None, c2)"
    "\<forall>w. st_of c2 w = (if w = u then next_state (st_of cu u) HISTORY_BACKFILL_COMPLETE else st_of cu w)"
    "ev_type e2 = HISTORY_BACKFILL_COMPLETE" "ev_user_id e2 = u" "ev_seq_no e2 = el_next (c_log cu)"
    "c2 = cu\<lparr>c_log := c_log c2, c_snap := c_snap c2\<rparr>" "writable c2"
    by (rule append_effect[OF cu(1), of t2 HISTORY_BACKFILL_COMPLETE u "''coordinator''" "mi_display_name m1" None None])
  have valid: "is_transition_valid HISTORY_BACKFILL_COMPLETE (st_of cu u)"
    using st1 cu by (auto simp: is_transition_valid_def)
  have syn2: "synthesize_delta e2 = Some (mk_delta ''active'' e2)" using b(3) by (simp add: synthesize_delta_def)
  have t: "handle_complete_backfill t2 u ?c1 = (checkpoint (notify e2 (Some (mk_delta ''active'' e2)) c2), None)"
    using b(1) valid syn2 by (simp add: handle_complete_backfill_def m1[simplified] cu_def[symmetric] Let_def)
  have f2: "c_presence c2 = c_presence c" "c_out c2 = c_out c" "c_subs c2 = c_subs c" "c_guard c2 = c_guard c"
    using arg_cong[OF b(6), of c_presence] arg_cong[OF b(6), of c_out] arg_cong[OF b(6), of c_subs]
      arg_cong[OF b(6), of c_guard] cu by simp_all
  have st2: "st_of c2 u = Some ACTIVE" "\<forall>w. w \<noteq> u \<longrightarrow> st_of c2 w = st_of c w"
    using b(2) cu st1 a(2) ct by (simp_all add: next_state_eval)
  show ?thesis
    by (intro exI conjI, rule s, use st1 in simp, rule t)
      (use st2 f2 b(4,7) in \<open>simp_all add: nt_dispatch_def\<close>)
qed

text \<open>Leaving: an active member goes to \<open>LEFT\<close>; in any other state both events are logged
  and skipped by the snapshot, and the member is no longer tracked.\<close>

lemma confirm_effect:
  assumes w: "writable c"
  shows "\<exists>e c'. confirm_leave now u nm c = (c', None)
    \<and> st_of c' u = next_state (st_of c u) LEAVE_CONFIRMED \<and> (\<forall>w. w \<noteq> u \<longrightarrow> st_of c' w = st_of c w)
    \<and> tracked c' = tracked c - {u}
    \<and> c_out c' = c_out c @ (if st_of c u = Some LEAVING
         then map (\<lambda>h. (h, e, mk_delta ''left'' e)) (dict_keys (c_subs c)) else [])
    \<and> ev_user_id e = u \<and> ev_type e = LEAVE_CONFIRMED \<and> e \<in> set (el_log (c_log c'))
    \<and> ev_seq_no e = el_next (c_log c) \<and> writable c' \<and> c_guard c' = c_guard c \<and> c_subs c' = c_subs c"
proof -
  obtain e c1 where a: "append_apply now LEAVE_CONFIRMED u ''coordinator'' nm None None c =
      Inr (e, if is_transition_valid LEAVE_CONFIRMED (st_of c u) then synthesize_delta e else None, c1)"
    "\<forall>w. st_of c1 w = (if w = u then next_state (st_of c u) LEAVE_CONFIRMED else st_of c w)"
    "ev_type e = LEAVE_CONFIRMED" "ev_user_id e = u" "ev_seq_no e = el_next (c_log c)"
    "c1 = c\<lparr>c_log := c_log c1, c_snap := c_snap c1\<rparr>" "writable c1"
    "el_log (c_log c1) = el_log (c_log c) @ [e]"
    by (rule append_effect[OF w, of now LEAVE_CONFIRMED u "''coordinator''" nm None None])
  have f: "c_subs c1 = c_subs c" "c_out c1 = c_out c" "c_presence c1 = c_presence c" "c_guard c1 = c_guard c"
    using arg_cong[OF a(6), of c_subs] arg_cong[OF a(6), of c_out]
      arg_cong[OF a(6), of c_presence] arg_cong[OF a(6), of c_guard] by simp_all
  have valid: "is_transition_valid LEAVE_CONFIRMED (st_of c u) \<longleftrightarrow> st_of c u = Some LEAVING"
    by (auto simp: is_transition_valid_def split: option.splits)
  have syn: "synthesize_delta e = Some (mk_delta ''left'' e)" using a(3) by (simp add: synthesize_delta_def)
  let ?d = "if st_of c u = Some LEAVING then Some (mk_delta ''left'' e) else None"
  have eq: "confirm_leave now u nm c = (checkpoint (presence_unregister u (notify e ?d c1)), None)"
    by (auto simp: confirm_leave_def a(1) valid syn)
  have st: "st_of c1 u = next_state (st_of c u) LEAVE_CONFIRMED" "\<forall>w. w \<noteq> u \<longrightarrow> st_of c1 w = st_of c w"
    using a(2) by auto
  have subs: "c_subs (checkpoint (presence_unregister u (notify e ?d c1))) = c_subs c"
    using f by (simp add: checkpoint_def presence_unregister_def)
  show ?thesis
    by (intro exI conjI, rule eq) (use a(3-5,7,8) f st subs in \<open>auto simp: nt_dispatch_def simp del: set_map\<close>)
qed

lemma leave_effect:
  assumes w: "writable c" and st: "st_of c u = Some st" "st \<notin> {LEFT, DISCONNECTED}"
  shows "\<exists>e c'. handle_leave now u c = (c', None)
    \<and> st_of c' u = (if st \<in> {ACTIVE, LEAVING} then Some LEFT else Some st)
    \<and> (\<forall>w. w \<noteq> u \<longrightarrow> st_of c' w = st_of c w) \<and> u \<notin> tracked c'
    \<and> c_out c' = c_out c @ (if st \<in> {ACTIVE, LEAVING}
         then map (\<lambda>h. (h, e, mk_delta ''left'' e)) (dict_keys (c_subs c)) else [])
    \<and> ev_user_id e = u \<and> ev_type e = LEAVE_CONFIRMED \<and> e \<in> set (el_log (c_log c'))
    \<and> ev_seq_no e \<ge> el_next (c_log c) \<and> writable c' \<and> c_guard c' = c_guard c"
proof -
  from st obtain m where m: "get_member u (c_snap c) = Some m" "mi_state m = st"
    by (auto simp: get_member_def)
  show ?thesis
  proof (cases "st = LEAVING")
    case True
    have hl: "handle_leave now u c = confirm_leave now u (mi_display_name m) c"
      using m True by (simp add: handle_leave_def)
    have nx: "next_state (st_of c u) LEAVE_CONFIRMED = (if st \<in> {ACTIVE, LEAVING} then Some LEFT else Some st)"
      using st(1) True by (auto simp: next_state_eval)
    have lv: "st_of c u = Some LEAVING \<longleftrightarrow> st \<in> {ACTIVE, LEAVING}" using st(1) True by auto
    from confirm_effect[OF w, of now u "mi_display_name m", folded hl, unfolded nx lv] show ?thesis
      by fastforce
  next
    case False
    obtain e c1 where a: "append_apply now LEAVE_REQUESTED u ''coordinator'' (mi_display_name m) None None c =
        Inr (e, if is_transition_valid LEAVE_REQUESTED (st_of c u) then synthesize_delta e else None, c1)"
      "\<forall>w. st_of c1 w = (if w = u then next_state (st_of c u) LEAVE_REQUESTED else st_of c w)"
      "ev_type e = LEAVE_REQUESTED" "ev_user_id e = u" "ev_seq_no e = el_next (c_log c)"
      "c1 = c\<lparr>c_log := c_log c1, c_snap := c_snap c1\<rparr>" "writable c1"
      "el_log (c_log c1) = el_log (c_log c) @ [e]" "el_next (c_log c1) = el_next (c_log c) + 1"
      by (rule append_effect[OF w, of now LEAVE_REQUESTED u "''coordinator''" "mi_display_name m" None None])
    have f: "c_subs c1 = c_subs c" "c_out c1 = c_out c" "c_guard c1 = c_guard c"
      using arg_cong[OF a(6), of c_subs] arg_cong[OF a(6), of c_out] arg_cong[OF a(6), of c_guard] by simp_all
    have hl: "handle_leave now u c = confirm_leave now u (mi_display_name m) c1"
      using m False st(2) a(1) by (simp add: handle_leave_def)
    have st1: "st_of c1 u = (if st = ACTIVE then Some LEAVING else Some st)"
      "\<forall>w. w \<noteq> u \<longrightarrow> st_of c1 w = st_of c w"
      using a(2) st(1) by (auto simp: next_state_eval)
    have nx: "next_state (st_of c1 u) LEAVE_CONFIRMED = (if st \<in> {ACTIVE, LEAVING} then Some LEFT else Some st)"
      using st1(1) False by (auto simp: next_state_eval)
    have lv: "st_of c1 u = Some LEAVING \<longleftrightarrow> st \<in> {ACTIVE, LEAVING}" using st1(1) False by auto
    from confirm_effect[OF a(7), of now u "mi_display_name m", folded hl, unfolded nx lv f a(9)] st1(2)
    show ?thesis by fastforce
  qed
qed

section \<open>Members nobody watches\<close>

text \<open>The periodic tick changes nothing about a member that is not tracked, unless it is
  backfilling.\<close>

lemma append_other:
  assumes "append_apply now et v src nm tr pk c = Inr (e, d, c')" "u \<noteq> v"
  shows "map_of (sn_members (c_snap c')) u = map_of (sn_members (c_snap c)) u" "c_presence c' = c_presence c"
  using assms by (cases rule: append_apply_cases[of now et v src nm tr pk c]; auto simp: snap_step_other)+

definition unwatched :: "string \<Rightarrow> member_info option \<Rightarrow> coord \<Rightarrow> bool" where
  "unwatched u m c = (map_of (sn_members (c_snap c)) u = m \<and> u \<notin> tracked c)"

lemma unwatched_frame:
  "unwatched u m c \<Longrightarrow> unwatched u m (notify e d c)" "unwatched u m c \<Longrightarrow> unwatched u m (checkpoint c)"
  "unwatched u m c \<Longrightarrow> unwatched u m (presence_unregister v c)"
  by (simp_all add: unwatched_def del: set_map)

lemma unwatched_append:
  "unwatched u m c \<Longrightarrow> append_apply now et v src nm tr pk c = Inr (e, d, c') \<Longrightarrow> u \<noteq> v \<Longrightarrow> unwatched u m c'"
  using append_other[of now et v src nm tr pk c e d c' u] by (simp add: unwatched_def)

lemma unwatched_change:
  assumes "unwatched u m c" "u \<noteq> v"
  shows "unwatched u m (fst (handle_presence_change now v s c))"
  using assms by (auto simp: handle_presence_change_def Let_def intro!: unwatched_frame
      intro: unwatched_append split: option.split sum.split)

lemma unwatched_check_loop:
  "unwatched u m c \<Longrightarrow> u \<notin> fst ` set es \<Longrightarrow> unwatched u m (fst (check_loop now es c))"
proof (induction es arbitrary: c)
  case (Cons x es)
  obtain v en where x: "x = (v, en)" by (cases x)
  obtain en' sig where ce: "check_entry (c_presence c) now en = (en', sig)" by fastforce
  define c1 where "c1 = c\<lparr>c_presence := (c_presence c)\<lparr>pr_members :=
      (if v \<in> set (dict_keys (pr_members (c_presence c))) then dict_set v en' (pr_members (c_presence c))
       else pr_members (c_presence c))\<rparr>\<rparr>"
  have v: "u \<noteq> v" using Cons.prems x by auto
  have c1: "unwatched u m c1" using Cons.prems(1) v by (auto simp: unwatched_def c1_def simp del: set_map)
  show ?case
  proof (cases sig)
    case None
    then show ?thesis using Cons.IH[OF c1] Cons.prems x by (simp add: ce c1_def Let_def)
  next
    case (Some s)
    obtain c2 err where h: "handle_presence_change now v s c1 = (c2, err)" by fastforce
    have c2: "unwatched u m c2" using unwatched_change[OF c1 v, of now s] h by simp
    have "check_loop now (x # es) c = (case handle_presence_change now v s c1 of
        (c2, Some err) \<Rightarrow> (c2, Some err) | (c2, None) \<Rightarrow> check_loop now es c2)"
      by (simp add: x ce Some c1_def Let_def)
    then show ?thesis
      using Cons.IH[OF c2] Cons.prems h c2 by (auto split: option.split)
  qed
qed simp

lemma unwatched_sweep_loop:
  "unwatched u m c \<Longrightarrow> \<forall>(v, mi) \<in> set ms. v = u \<longrightarrow> mi_state mi \<noteq> BACKFILLING
     \<Longrightarrow> unwatched u m (fst (sweep_loop now ms c))"
proof (induction now ms c rule: sweep_loop.induct)
  case (2 now v mi rest c)
  show ?case
  proof (cases "mi_state mi \<noteq> BACKFILLING \<or> now - mi_joined_at mi \<le> BACKFILL_TIMEOUT_S")
    case True
    then show ?thesis using 2 by auto
  next
    case False
    then have v: "u \<noteq> v" using "2.prems"(2) by auto
    show ?thesis
    proof (cases "append_apply now DISCONNECT_TIMEOUT v ''coordinator'' (mi_display_name mi) None None c")
      case (Inr r)
      obtain e d c1 where r: "r = (e, d, c1)" by (cases r)
      have "unwatched u m (checkpoint (presence_unregister v (notify e d c1)))"
        using unwatched_append[OF "2.prems"(1) _ v] Inr r by (intro unwatched_frame) simp
      with "2.IH"(3)[OF _ _ Inr r[symmetric] refl] False Inr r "2.prems"(2) show ?thesis by simp
    qed (use False "2.prems" in simp)
  qed
qed simp

lemma sweep_members_wf:
  assumes "wf_dict (sn_members s)" "map_of (sn_members s) u = m" "\<forall>x. m = Some x \<longrightarrow> mi_state x \<noteq> BACKFILLING"
  shows "\<forall>(v, mi) \<in> set (sd_members (get_snapshot s)). v = u \<longrightarrow> mi_state mi \<noteq> BACKFILLING"
  using assms by (auto simp: get_snapshot_def)

lemma unwatched_tick:
  assumes un: "unwatched u m c" and st: "\<forall>x. m = Some x \<longrightarrow> mi_state x \<noteq> BACKFILLING"
    and inv: "coord_inv s0 c" "base_ok s0"
  shows "unwatched u m (fst (tick now c))"
proof -
  obtain c1 err where k: "check_loop now (pr_members (c_presence c)) c = (c1, err)" by fastforce
  have un1: "unwatched u m c1"
    using unwatched_check_loop[OF un, of "pr_members (c_presence c)" now] un k by (simp add: unwatched_def)
  have "coord_inv s0 c1"
    using coord_inv_check_loop[OF inv(1), of "pr_members (c_presence c)" now] inv(1) k
    by (simp add: coord_inv_def presence_inv_def)
  then have "wf_dict (sn_members (c_snap c1))" using coord_inv_synced[OF inv(2)] by (simp add: synced_def)
  from sweep_members_wf[OF this _ st] un1 have
    "\<forall>(v, mi) \<in> set (sd_members (get_snapshot (c_snap c1))). v = u \<longrightarrow> mi_state mi \<noteq> BACKFILLING"
    by (simp add: unwatched_def)
  from unwatched_sweep_loop[OF un1 this] un1 show ?thesis
    by (auto simp: tick_def k sweep_backfill_timeouts_def split: option.split)
qed

lemma unwatched_ticks:
  assumes "unwatched u m c" "\<forall>x. m = Some x \<longrightarrow> mi_state x \<noteq> BACKFILLING" "coord_inv s0 c" "base_ok s0"
  shows "unwatched u m (foldl coord_step c (map (\<lambda>t. (t, Tick)) ts))"
  using assms
proof (induction ts arbitrary: c)
  case (Cons t ts)
  then show ?case using unwatched_tick[OF Cons.prems] coord_inv_tick[OF Cons.prems(3)] by simp
qed simp

section \<open>Joining again, stale terms, remote events\<close>

text \<open>Only \<open>handle_join\<close> consults or changes the duplicate guard.\<close>

fun is_join :: "coord_op \<Rightarrow> bool" where
  "is_join (Join _ _ _ _ _ _ _) = True"
| "is_join _ = False"

lemma append_guard: "append_apply now et v src nm tr pk c = Inr (e, d, c') \<Longrightarrow> c_guard c' = c_guard c"
  by (auto simp: append_apply_def split: sum.splits prod.splits)

lemma change_guard [simp]: "c_guard (fst (handle_presence_change now v s c)) = c_guard c"
  by (auto simp: handle_presence_change_def Let_def append_guard split: option.split sum.split)

lemma heartbeat_guard [simp]: "c_guard (fst (presence_heartbeat now v c)) = c_guard c"
  by (auto simp: presence_heartbeat_def Let_def split: prod.split list.split)

lemma check_loop_guard [simp]: "c_guard (fst (check_loop now es c)) = c_guard c"
proof (induction now es c rule: check_loop.induct)
  case (2 now u entry rest c)
  obtain en sig where ce: "check_entry (c_presence c) now entry = (en, sig)" by fastforce
  define c1 where "c1 = c\<lparr>c_presence := (c_presence c)\<lparr>pr_members :=
      (if u \<in> set (dict_keys (pr_members (c_presence c))) then dict_set u en (pr_members (c_presence c))
       else pr_members (c_presence c))\<rparr>\<rparr>"
  have g: "c_guard c1 = c_guard c" by (simp add: c1_def)
  show ?case
  proof (cases sig)
    case None
    then show ?thesis using "2.IH"(1)[OF ce[symmetric] refl refl c1_def None] g by (simp add: ce c1_def Let_def)
  next
    case (Some s)
    obtain c2 err where h: "handle_presence_change now u s c1 = (c2, err)" by fastforce
    have g2: "c_guard c2 = c_guard c" using change_guard[of now u s c1] h g by simp
    have "check_loop now ((u, entry) # rest) c = (case handle_presence_change now u s c1 of
        (c2, Some err) \<Rightarrow> (c2, Some err) | (c2, None) \<Rightarrow> check_loop now rest c2)"
      by (simp add: ce Some c1_def Let_def)
    moreover have "c_guard (fst (check_loop now rest c2)) = c_guard c2" if "err = None"
      using "2.IH"(2)[OF ce[symmetric] refl refl c1_def Some h[symmetric]] that by simp
    ultimately show ?thesis using h g2 by (cases err) auto
  qed
qed simp

lemma sweep_loop_guard [simp]: "c_guard (fst (sweep_loop now ms c)) = c_guard c"
  by (induction now ms c rule: sweep_loop.induct) (auto simp: append_guard split: sum.splits)

lemma remote_guard [simp]: "c_guard (apply_remote_event now e c) = c_guard c"
  by (auto simp: apply_remote_event_def Let_def split: prod.splits)

lemma remotes_guard [simp]: "c_guard (apply_remote_snapshot now es c) = c_guard c"
  by (induction es arbitrary: c) (simp_all add: apply_remote_snapshot_def)

lemma finish_trace_guard [simp]: "c_guard (finish_trace now u c) = c_guard c"
  by (auto simp: finish_trace_def Let_def split: option.split)

lemma step_guard: "\<not> is_join op \<Longrightarrow> c_guard (coord_step c (now, op)) = c_guard c"
proof (cases op)
  case Tick
  obtain c1 err where k: "check_loop now (pr_members (c_presence c)) c = (c1, err)" by fastforce
  then have "c_guard c1 = c_guard c" using check_loop_guard[of now "pr_members (c_presence c)" c] by simp
  then show ?thesis using Tick k by (auto simp: tick_def sweep_backfill_timeouts_def split: option.split)
next
  case (Heartbeat u)
  then show ?thesis
    by (auto simp: handle_heartbeat_def append_guard split: option.splits sum.splits prod.splits)
      (metis append_guard fst_conv heartbeat_guard)+
qed (auto simp: handle_leave_def confirm_leave_def handle_start_backfill_def
    handle_complete_backfill_def subscribe_def unsubscribe_def Let_def append_guard
    split: option.splits sum.splits prod.splits dest!: append_guard)

lemma steps_guard: "\<forall>x \<in> set ops. \<not> is_join (snd x) \<Longrightarrow> c_guard (foldl coord_step c ops) = c_guard c"
proof (induction ops arbitrary: c)
  case (Cons x ops)
  then show ?case using step_guard[of "snd x" c "fst x"] by simp
qed simp

text \<open>After an accepted join, every later join of the same user is refused as a duplicate,
  until a hundred other users have asked to join: leaving does not clear the mark.\<close>

lemma rejoin_refused:
  assumes j: "handle_join None None uid now u nm pk ctx c = (c1, r1)" and wf: "guard_wf (c_guard c)"
    and ops: "\<forall>x \<in> set ops. \<not> is_join (snd x)"
  defines "c2 \<equiv> foldl coord_step c1 ops"
  shows "handle_join v h uid' now' u nm' pk' ctx' c2 = (c2, Inr (duplicate_result c2))"
proof -
  have "c_guard (fst (commit_join None now u nm tr pk c')) = c_guard c'" for tr c'
    by (auto simp: commit_join_def Let_def append_guard split: sum.split)
  moreover have "c_guard (snd (begin_trace uid now u c')) = c_guard c'" for c'
    by (simp add: begin_trace_def split: option.split)
  ultimately have acc: "c_guard (fst (accept_join None uid now u nm pk c')) = c_guard c'" for c'
    by (simp add: accept_join_def case_prod_beta)
  have "c_guard c1 = snd (is_duplicate now u ''JOIN_REQUESTED'' (c_guard c))"
    using arg_cong[OF j, of "\<lambda>x. c_guard (fst x)"] acc
    by (auto simp: handle_join_def case_prod_beta Let_def split: if_splits)
  then have "c_guard c2 = snd (guard_check now (u, ''JOIN_REQUESTED'') (c_guard c))"
    using steps_guard[OF ops] by (simp add: c2_def guard_check_def case_prod_beta)
  then have "(u, ''JOIN_REQUESTED'') \<in> set (guard_keys (c_guard c2))"
    using guard_filter.check_marks[OF wf] by (simp del: set_map)
  then show ?thesis by (rule join_duplicate)
qed

text \<open>A remote event with a term above 1 makes every local write raise.\<close>

lemma remote_term:
  assumes "1 < ev_term e"
  shows "1 < el_term (c_log (apply_remote_event now e c))"
proof -
  have hb: "c_log (fst (presence_heartbeat now u (presence_register now u c'))) = c_log c'" for u c'
    by (simp add: presence_heartbeat_def record_heartbeat_def presence_register_def register_member_def
        map_of_dict_set Let_def)
  show ?thesis
    using assms by (auto simp: apply_remote_event_def append_remote_def Let_def hb split: prod.split)
qed

lemma stale_raises:
  assumes "1 < el_term (c_log c)"
  shows "append_apply now et u src nm tr pk c = Inl (StaleTermError 1 (el_term (c_log c)))"
  using assms by (cases rule: append_apply_cases[of now et u src nm tr pk c]) auto

lemma stale_handlers:
  assumes "1 < el_term (c_log c)" "get_member u (c_snap c) = Some m"
  shows "handle_heartbeat now u c = (c, Some (StaleTermError 1 (el_term (c_log c))))"
    and "mi_state m \<notin> {LEFT, DISCONNECTED} \<Longrightarrow>
      handle_leave now u c = (c, Some (StaleTermError 1 (el_term (c_log c))))"
  using assms by (auto simp: handle_heartbeat_def handle_leave_def confirm_leave_def stale_raises)

text \<open>A remote \<open>JOIN_ACCEPTED\<close> puts its user under presence tracking, also when that user is
  this node.\<close>

lemma remote_join_tracks:
  "ev_type e = JOIN_ACCEPTED \<Longrightarrow> ev_user_id e \<in> tracked (apply_remote_event now e c)"
  by (auto simp: apply_remote_event_def append_remote_def Let_def simp del: set_map split: prod.split)

section \<open>Restart\<close>

lemma norm_snap_state [simp]: "member_st (norm_snap s) u = member_st s u"
proof -
  have "map_option mi_state (map_option norm_member x) = map_option mi_state x" for x by (cases x) auto
  then show ?thesis by (simp add: norm_snap_def map_of_norm)
qed

lemma restart:
  assumes inv: "coord_inv s0 c" "base_ok s0" and room: "c_room c \<noteq> []" and wf: "wf_dict (du_disk (c_dur c))"
    and newest: "newest_before (c_room c) (get_latest_seq_no (c_log c)) (du_disk (c_dur c))"
    and d_def: "d = write_checkpoint (c_log c) (c_snap c) (c_dur c)"
    and c'_def: "c' = fst (recover now (new_coord (c_room c) lu tr (du_disk d)))"
  shows "st_of c' u = st_of c u" and "el_next (c_log c') = el_next (c_log c)"
    and "el_term (c_log c') = el_term (c_log c)" and "coord_inv (norm_snap (c_snap c)) c'"
proof -
  have sync: "synced (c_log c) (c_snap c)" by (rule coord_inv_synced[OF inv(2,1)])
  have er: "el_room (c_log c) = c_room c" using inv(1) by (simp add: coord_inv_def)
  let ?l = "(c_log c)\<lparr>el_log := map norm_event (get_events_since (sn_as_of (c_snap c)) (c_log c))\<rparr>"
  have "dur_recover (c_room c) d = Some (?l, norm_snap (c_snap c))"
    using write_recover[OF sync _ wf] room newest unfolding d_def er by blast
  then have rec: "dur_recover (c_room c0) (c_dur c0) = Some (?l, norm_snap (c_snap c))"
    if "c0 = new_coord (c_room c) lu tr (du_disk d)" for c0
    using that by (simp add: new_coord_def dur_recover_def)
  have log: "c_log (foldl (reregister now) x ms) = c_log x \<and> c_snap (foldl (reregister now) x ms) = c_snap x" for x ms
    by (induction ms arbitrary: x) (auto simp: reregister_def)
  have cl: "c_log c' = ?l" "c_snap c' = norm_snap (c_snap c)"
    unfolding c'_def recover_def rec[OF refl] by (simp_all add: Let_def log)
  show "st_of c' u = st_of c u" "el_next (c_log c') = el_next (c_log c)" "el_term (c_log c') = el_term (c_log c)"
    unfolding cl by simp_all
  show "coord_inv (norm_snap (c_snap c)) c'"
    unfolding c'_def
    by (rule coord_inv_recover[OF coord_inv_new rec[OF refl] synced_tail[OF sync]])
      (auto simp: new_coord_def er norm_snap_def get_events_since_def)
qed

end
