(* ===== verification/Membership_Properties.thy ===== *)
theory Membership_Properties
  imports Coordinator_Behaviour
begin

text \<open>
  The properties of the membership service: the event log, the snapshot as a projection of
  it, the coordinator's operations in any interleaving, failure detection, checkpoints and
  restart, and the routing table derived from membership.
\<close>

section \<open>A concrete room\<close>

definition demo_ops :: "(time \<times> coord_op) list" where
  "demo_ops = [(0, Join None None ''t'' ''a:1'' ''Ann'' (Some ''pem'') None), (1, StartBackfill ''a:1''),
     (2, CompleteBackfill ''a:1'')]"

definition demo_coord :: coord where
  "demo_coord = foldl coord_step (new_coord ''lobby'' None False []) demo_ops"

lemma demo_ops_ok: "\<forall>x \<in> set demo_ops. op_ok s0 x"
  by (simp add: demo_ops_def handler_ok_def)

lemma demo_coord_inv: "coord_inv (new_snap ''lobby'') demo_coord"
  unfolding demo_coord_def by (rule coord_run.inv_run[OF coord_inv_new demo_ops_ok])

lemma demo_active: "member_st (c_snap demo_coord) ''a:1'' = Some ACTIVE"
  by code_simp

section \<open>The log and its projection\<close>

text \<open>C22. The log. After any sequence of local appends, remote appends and term changes,
  starting from a new log, sequence numbers are 1, 2, 3, ... without gaps, every version is
  its sequence number, and terms never decrease along the log.\<close>

theorem log_is_sequential:
  "map ev_seq_no (el_log (foldl log_step (new_log room) ops))
     = [1..int (length (el_log (foldl log_step (new_log room) ops)))]
   \<and> map ev_version (el_log (foldl log_step (new_log room) ops))
     = map ev_seq_no (el_log (foldl log_step (new_log room) ops))
   \<and> sorted (map ev_term (el_log (foldl log_step (new_log room) ops)))"
proof -
  let ?l = "foldl log_step (new_log room) ops"
  have wf: "log_wf ?l" by (rule log_inv.inv_run) simp_all
  have nx: "el_next ?l = int (length (el_log ?l)) + 1"
    using log_steps_offset[of "new_log room" ops] by (simp add: new_log_def)
  have "map ev_version (el_log ?l) = map ev_seq_no (el_log ?l)"
    by (rule map_cong[OF refl]) (use wf in \<open>simp add: log_wf_def\<close>)
  with wf show ?thesis by (simp add: log_wf_def nx)
qed





text \<open>C23. Order between users does not matter: two nodes whose logs hold the same events of
  every user in the same per-user order, interleaved in any two ways and numbered locally,
  agree on every member's state.\<close>

theorem interleaving_irrelevant:
  assumes "log_wf l1" "log_wf l2" "\<forall>u. user_events u (el_log l1) = user_events u (el_log l2)"
  shows "member_st (materialize (new_snap room1) (el_log l1)) u = member_st (materialize (new_snap room2) (el_log l2)) u"
proof -
  have "member_st (materialize (new_snap r) (el_log l)) u = foldl next_state None (user_events u (el_log l))"
    if "log_wf l" for l r
    using materialize_states[OF log_wf_sorted[OF that], of "new_snap r"] log_wf_seq_bounds[OF that]
    by (simp add: new_snap_def)
  with assms show ?thesis by simp
qed

definition demo_log :: "(event_type \<times> string) list \<Rightarrow> event_log" where
  "demo_log evs = foldl log_step (new_log ''lobby'')
     (map (\<lambda>(t, u). Append 0 t u ''coordinator'' 1 '''' None None) evs)"

theorem interleaving_irrelevant_witness:
  "member_st (materialize (new_snap ''r'') (el_log (demo_log
      [(JOIN_ACCEPTED, ''a''), (JOIN_ACCEPTED, ''b''), (HISTORY_BACKFILL_STARTED, ''a'')]))) ''a''
   = member_st (materialize (new_snap ''r'') (el_log (demo_log
      [(JOIN_ACCEPTED, ''a''), (HISTORY_BACKFILL_STARTED, ''a''), (JOIN_ACCEPTED, ''b'')]))) ''a''"
proof (rule interleaving_irrelevant)
  have wf: "log_wf (demo_log evs)" for evs
    unfolding demo_log_def by (rule log_inv.inv_run) simp_all
  show "log_wf (demo_log [(JOIN_ACCEPTED, ''a''), (JOIN_ACCEPTED, ''b''), (HISTORY_BACKFILL_STARTED, ''a'')])"
    "log_wf (demo_log [(JOIN_ACCEPTED, ''a''), (HISTORY_BACKFILL_STARTED, ''a''), (JOIN_ACCEPTED, ''b'')])"
    by (rule wf)+
  have ue: "user_events u es = map snd (filter (\<lambda>x. fst x = u) (map (\<lambda>e. (ev_user_id e, ev_type e)) es))" for u es
    by (simp add: filter_map comp_def)
  have l1: "map (\<lambda>e. (ev_user_id e, ev_type e)) (el_log (demo_log
      [(JOIN_ACCEPTED, ''a''), (JOIN_ACCEPTED, ''b''), (HISTORY_BACKFILL_STARTED, ''a'')]))
    = [(''a'', JOIN_ACCEPTED), (''b'', JOIN_ACCEPTED), (''a'', HISTORY_BACKFILL_STARTED)]" by code_simp
  have l2: "map (\<lambda>e. (ev_user_id e, ev_type e)) (el_log (demo_log
      [(JOIN_ACCEPTED, ''a''), (HISTORY_BACKFILL_STARTED, ''a''), (JOIN_ACCEPTED, ''b'')]))
    = [(''a'', JOIN_ACCEPTED), (''a'', HISTORY_BACKFILL_STARTED), (''b'', JOIN_ACCEPTED)]" by code_simp
  show "\<forall>u. user_events u (el_log (demo_log
        [(JOIN_ACCEPTED, ''a''), (JOIN_ACCEPTED, ''b''), (HISTORY_BACKFILL_STARTED, ''a'')]))
     = user_events u (el_log (demo_log
        [(JOIN_ACCEPTED, ''a''), (HISTORY_BACKFILL_STARTED, ''a''), (JOIN_ACCEPTED, ''b'')]))"
    unfolding ue l1 l2 by auto
qed

text \<open>Writing the log out and reading it back. \<open>deserialize\<close> restores the events (an
  empty public key becomes no key) and the next sequence number; the term becomes the
  largest term in the log, so a term that was advanced without writing an event is lost.\<close>

theorem log_serialisation:
  assumes "log_wf l"
  shows "log_deserialize (el_room l) (log_serialize l) =
    Some (if el_log l = [] then new_log (el_room l)
      else l\<lparr>el_log := map norm_event (el_log l), el_term := Max (set (map ev_term (el_log l)))\<rparr>)"
  by (rule log_roundtrip[OF assms])

theorem log_serialisation_witness:
  "log_deserialize ''lobby'' (log_serialize (new_log ''lobby'')) = Some (new_log ''lobby'')"
  using log_serialisation[OF log_wf_new, of "''lobby''"] by (simp add: new_log_def)

section \<open>Failure detection\<close>

text \<open>Accuracy. However members were registered, heard of and checked before, a member is
  reported timed out only if its last heartbeat is more than thirty seconds old.\<close>

theorem timeout_accurate:
  assumes "(u, ''timeout'') \<in> set (snd (check_liveness now (fst (foldl presence_step (new_presence, []) ops))))"
  shows "\<exists>e. map_of (pr_members (fst (foldl presence_step (new_presence, []) ops))) u = Some e
    \<and> now - pe_last_heartbeat e > 30"
proof -
  let ?p = "fst (foldl presence_step (new_presence, []) ops)"
  have "presence_inv ?p" using presence_run.inv_run[of "(new_presence, [])" ops] by simp
  moreover have "suspect_threshold ?p = 15" "pr_dead ?p = 15"
    using run_params[of "(new_presence, [])" ops] by (simp_all add: suspect_threshold_def new_presence_def)
  ultimately show ?thesis using accurate_timeout[OF assms] by simp
qed

theorem timeout_accurate_witness:
  "\<exists>e. map_of (pr_members (fst (foldl presence_step (new_presence, []) [(0, Register ''a''), (16, Check)]))) ''a'' = Some e
    \<and> 40 - pe_last_heartbeat e > 30"
proof (rule timeout_accurate)
  show "(''a'', ''timeout'') \<in> set (snd (check_liveness 40
      (fst (foldl presence_step (new_presence, []) [(0, Register ''a''), (16, Check)]))))" by code_simp
qed

text \<open>Completeness. A tracked member that falls silent is reported suspected by the first
  check after the threshold, and timed out by the next check that comes late enough after it.\<close>

theorem silence_detected:
  assumes "map_of (pr_members p) u = Some e" "pe_state e = ALIVE_P"
    and "t - pe_last_heartbeat e > suspect_threshold p" "t' - t > pr_dead p"
  shows "(u, ''suspected'') \<in> set (snd (check_liveness t p))
    \<and> (u, ''timeout'') \<in> set (snd (check_liveness t' (fst (check_liveness t p))))"
  using complete_detection[OF assms] by simp

theorem silence_detected_witness:
  "(''a'', ''suspected'') \<in> set (snd (check_liveness 16 (register_member 0 ''a'' new_presence)))"
  by (rule conjunct1[OF silence_detected[where t' = 32
        and e = "\<lparr>pe_user_id = ''a'', pe_last_heartbeat = 0, pe_state = ALIVE_P, pe_suspected_at = None\<rparr>"]])
    (simp_all add: register_member_def new_presence_def suspect_threshold_def)

section \<open>Checkpoints and restart\<close>

text \<open>A checkpoint can be recovered. If the log and snapshot are in step and no newer
  checkpoint of the room is on disk, then after writing a checkpoint at most two checkpoints
  of the room remain and recovery returns the snapshot (up to empty keys) with the events it
  has not consumed.\<close>

theorem checkpoint_recovers:
  assumes "synced l s" "el_room l \<noteq> []" "wf_dict (du_disk d)"
    and "\<forall>t \<in> set (list_checkpoints (el_room l) (du_disk d)). fst t < get_latest_seq_no l"
  shows "dur_recover (el_room l) (write_checkpoint l s d) =
      Some (l\<lparr>el_log := map norm_event (get_events_since (sn_as_of s) l)\<rparr>, norm_snap s)
    \<and> length (list_checkpoints (el_room l) (du_disk (write_checkpoint l s d))) \<le> KEEP_LAST"
proof -
  have "log_wf l" using assms(1) by (simp add: synced_def)
  from write_checkpoint_files(1)[OF this assms(2-4)] write_recover[OF assms] show ?thesis
    by (simp add: KEEP_LAST_def)
qed

theorem checkpoint_recovers_witness:
  "dur_recover ''lobby'' (write_checkpoint (c_log demo_coord) (c_snap demo_coord) (c_dur demo_coord)) =
    Some ((c_log demo_coord)\<lparr>el_log := []\<rparr>, c_snap demo_coord)"
proof -
  have room: "el_room (c_log demo_coord) = ''lobby''" by code_simp
  have empty: "du_disk (c_dur demo_coord) = []" by code_simp
  have tail: "get_events_since (sn_as_of (c_snap demo_coord)) (c_log demo_coord) = []" by code_simp
  have norm: "norm_snap (c_snap demo_coord) = c_snap demo_coord" by code_simp
  have "synced (c_log demo_coord) (c_snap demo_coord)"
    by (rule coord_inv_synced[OF base_ok_new demo_coord_inv])
  from conjunct1[OF checkpoint_recovers[OF this, of "c_dur demo_coord"]] show ?thesis
    by (simp add: room empty tail norm list_checkpoints_def)
qed

text \<open>A damaged newest checkpoint. If the newer of two checkpoints cannot be read,
  recovery returns what the older one holds.\<close>

theorem damaged_checkpoint_falls_back:
  assumes "synced l1 s1" "synced l2 s2" "el_room l1 = room" "el_room l2 = room" "room \<noteq> []"
    and "wf_dict (du_disk d)"
    and "\<forall>t \<in> set (list_checkpoints room (du_disk d)). fst t < get_latest_seq_no l1"
    and "get_latest_seq_no l1 < get_latest_seq_no l2"
  shows "dur_recover room (corrupt (checkpoint_name room (get_latest_seq_no l2))
      (write_checkpoint l2 s2 (write_checkpoint l1 s1 d))) =
    Some (l1\<lparr>el_log := map norm_event (get_events_since (sn_as_of s1) l1)\<rparr>, norm_snap s1)"
  by (rule fallback_recover[OF assms])

theorem damaged_checkpoint_falls_back_witness:
  "dur_recover ''lobby'' (corrupt (checkpoint_name ''lobby'' 3) (write_checkpoint (c_log demo_coord) (c_snap demo_coord)
      (write_checkpoint (new_log ''lobby'') (new_snap ''lobby'') (c_dur demo_coord)))) =
    Some (new_log ''lobby'', new_snap ''lobby'')"
proof -
  have s2: "synced (c_log demo_coord) (c_snap demo_coord)"
    by (rule coord_inv_synced[OF base_ok_new demo_coord_inv])
  have s1: "synced (new_log ''lobby'') (new_snap ''lobby'')"
    by (simp add: synced_def new_log_def new_snap_def log_wf_def)
  have seq: "get_latest_seq_no (c_log demo_coord) = 3" by code_simp
  have room: "el_room (c_log demo_coord) = ''lobby''" by code_simp
  have empty: "du_disk (c_dur demo_coord) = []" by code_simp
  have "dur_recover ''lobby'' (corrupt (checkpoint_name ''lobby'' 3) (write_checkpoint (c_log demo_coord)
      (c_snap demo_coord) (write_checkpoint (new_log ''lobby'') (new_snap ''lobby'') (c_dur demo_coord)))) =
    Some ((new_log ''lobby'')\<lparr>el_log := map norm_event (get_events_since (sn_as_of (new_snap ''lobby'')) (new_log ''lobby''))\<rparr>,
      norm_snap (new_snap ''lobby''))"
    by (rule damaged_checkpoint_falls_back[OF s1 s2, unfolded seq])
      (simp_all add: room empty list_checkpoints_def new_log_def get_latest_seq_no_def)
  then show ?thesis by (simp add: get_events_since_def new_log_def norm_snap_def new_snap_def)
qed

text \<open>C12. Restart. A coordinator that writes a checkpoint, stops, and is created again on the
  same directory recovers every member's state, the next sequence number and the term, and
  is again in a consistent state.\<close>

theorem restart_preserves_membership:
  assumes "coord_inv s0 c" "base_ok s0" "c_room c \<noteq> []" "wf_dict (du_disk (c_dur c))"
    and "\<forall>t \<in> set (list_checkpoints (c_room c) (du_disk (c_dur c))). fst t < get_latest_seq_no (c_log c)"
    and "d = write_checkpoint (c_log c) (c_snap c) (c_dur c)"
    and "c' = fst (recover now (new_coord (c_room c) local tracing (du_disk d)))"
  shows "(\<forall>u. member_st (c_snap c') u = member_st (c_snap c) u)
    \<and> el_next (c_log c') = el_next (c_log c) \<and> el_term (c_log c') = el_term (c_log c)
    \<and> coord_inv (norm_snap (c_snap c)) c'"
  using restart[OF assms] by blast

theorem restart_preserves_membership_witness:
  "member_st (c_snap (fst (recover 9 (new_coord ''lobby'' None False (du_disk
      (write_checkpoint (c_log demo_coord) (c_snap demo_coord) (c_dur demo_coord))))))) ''a:1'' = Some ACTIVE"
proof -
  have room: "c_room demo_coord = ''lobby''" by code_simp
  have empty: "du_disk (c_dur demo_coord) = []" by code_simp
  have "c_room demo_coord \<noteq> []" "wf_dict (du_disk (c_dur demo_coord))"
    "\<forall>t \<in> set (list_checkpoints (c_room demo_coord) (du_disk (c_dur demo_coord))).
      fst t < get_latest_seq_no (c_log demo_coord)"
    by (simp_all add: room empty list_checkpoints_def)
  from restart_preserves_membership[OF demo_coord_inv base_ok_new this refl refl, of 9 None False]
  show ?thesis unfolding room demo_active[symmetric] by blast
qed

section \<open>Requests\<close>



text \<open>Backfill completes a join: starting and then completing the backfill of a joining
  member makes it active, changes nobody else, and tells every subscriber once.\<close>

theorem backfill_carried_out:
  assumes "writable c" "member_st (c_snap c) u = Some JOINING"
  shows "\<exists>c1 c2 e. handle_start_backfill t u c = (c1, None) \<and> member_st (c_snap c1) u = Some BACKFILLING
    \<and> handle_complete_backfill t' u c1 = (c2, None) \<and> member_st (c_snap c2) u = Some ACTIVE
    \<and> (\<forall>w. w \<noteq> u \<longrightarrow> member_st (c_snap c2) w = member_st (c_snap c) w) \<and> tracked c2 = tracked c
    \<and> c_out c2 = c_out c @ map (\<lambda>h. (h, e, mk_delta ''active'' e)) (dict_keys (c_subs c))"
  using backfill_effect[OF assms, of t t'] by blast

definition demo_joining :: coord where
  "demo_joining = foldl coord_step (new_coord ''lobby'' None False []) (take 1 demo_ops)"

theorem backfill_carried_out_witness:
  "\<exists>c1 c2. handle_start_backfill 1 ''a:1'' demo_joining = (c1, None)
    \<and> handle_complete_backfill 2 ''a:1'' c1 = (c2, None) \<and> member_st (c_snap c2) ''a:1'' = Some ACTIVE"
proof -
  have "writable demo_joining" by code_simp
  moreover have "member_st (c_snap demo_joining) ''a:1'' = Some JOINING" by code_simp
  ultimately show ?thesis using backfill_carried_out by blast
qed

text \<open>Leaving is a no-op for a member that is not active. \<open>handle_leave\<close> moves an active
  (or already leaving) member to \<open>LEFT\<close>; for a member in any other live state it logs two
  events that the snapshot skips, so the state stays, no subscriber is told, and yet the
  member is taken off presence tracking.\<close>

theorem leave_outcome:
  assumes "writable c" "member_st (c_snap c) u = Some st" "st \<notin> {LEFT, DISCONNECTED}"
  shows "\<exists>e c'. handle_leave now u c = (c', None)
    \<and> member_st (c_snap c') u = (if st \<in> {ACTIVE, LEAVING} then Some LEFT else Some st)
    \<and> (\<forall>w. w \<noteq> u \<longrightarrow> member_st (c_snap c') w = member_st (c_snap c) w) \<and> u \<notin> tracked c'
    \<and> c_out c' = c_out c @ (if st \<in> {ACTIVE, LEAVING}
         then map (\<lambda>h. (h, e, mk_delta ''left'' e)) (dict_keys (c_subs c)) else [])
    \<and> ev_user_id e = u \<and> ev_type e = LEAVE_CONFIRMED \<and> e \<in> set (el_log (c_log c'))"
  using leave_effect[OF assms, of now] by blast

theorem leave_outcome_witness:
  "\<exists>c'. handle_leave 3 ''a:1'' demo_coord = (c', None) \<and> member_st (c_snap c') ''a:1'' = Some LEFT"
proof -
  have "writable demo_coord" by code_simp
  from leave_outcome[OF this demo_active, of 3] show ?thesis by auto
qed

text \<open>Stuck members. A member that \<open>handle_leave\<close> was called for while it was suspected
  or joining keeps that state however often the room ticks afterwards: nothing watches it any
  more.\<close>

theorem leaving_too_early_sticks:
  assumes "coord_inv s0 c" "base_ok s0" "el_term (c_log c) \<le> 1"
    and "member_st (c_snap c) u = Some st" "st \<in> {SUSPECTED, JOINING}"
  shows "member_st (c_snap (foldl coord_step (fst (handle_leave now u c)) (map (\<lambda>t. (t, Tick)) ts))) u = Some st"
proof -
  have w: "writable c" by (rule coord_inv_writable[OF assms(2,1,3)])
  have "st \<notin> {LEFT, DISCONNECTED}" using assms(5) by auto
  from leave_effect[OF w assms(4) this, of now] obtain c' where c': "handle_leave now u c = (c', None)"
    "member_st (c_snap c') u = Some st" "u \<notin> tracked c'" using assms(5) by fastforce
  have inv: "coord_inv s0 c'" using coord_inv_leave[OF assms(1), of now u] c' by simp
  from c'(2) obtain m where m: "map_of (sn_members (c_snap c')) u = Some m" "mi_state m = st" by auto
  have "unwatched u (Some m) c'" using m c'(3) by (simp add: unwatched_def)
  from unwatched_ticks[OF this _ inv assms(2), of ts] m assms(5) show ?thesis
    by (auto simp: c'(1) unwatched_def)
qed

definition demo_suspected :: coord where
  "demo_suspected = foldl coord_step demo_coord [(20, Tick)]"

theorem leaving_too_early_sticks_witness:
  "member_st (c_snap (foldl coord_step (fst (handle_leave 21 ''a:1'' demo_suspected)) (map (\<lambda>t. (t, Tick)) [40, 60, 80])))
     ''a:1'' = Some SUSPECTED"
proof (rule leaving_too_early_sticks[OF _ base_ok_new])
  show "coord_inv (new_snap ''lobby'') demo_suspected"
    unfolding demo_suspected_def by (rule coord_run.inv_run[OF demo_coord_inv]) simp
  show "member_st (c_snap demo_suspected) ''a:1'' = Some SUSPECTED" by code_simp
  show "el_term (c_log demo_suspected) \<le> 1" by code_simp
qed simp

text \<open>No second join. After a join request of a user has been processed, every later join
  request of that user is refused as a duplicate, whatever happens in between short of other
  join requests: leaving, being disconnected or being rejected does not clear the mark,
  although the life cycle allows a departed member to join again.\<close>

theorem rejoin_is_refused:
  assumes "handle_join None None uid now u nm pk ctx c = (c1, r)" "guard_wf (c_guard c)"
    and "\<forall>x \<in> set ops. \<not> is_join (snd x)"
    and "c2 = foldl coord_step c1 ops"
  shows "handle_join v h uid' now' u nm' pk' ctx' c2 = (c2, Inr (duplicate_result c2))
    \<and> \<not> jr_accepted (duplicate_result c2)"
  using rejoin_refused[OF assms(1-3), of v h uid' now' nm' pk' ctx']
  by (simp add: assms(4) duplicate_result_def)

theorem rejoin_is_refused_witness:
  "let c2 = foldl coord_step demo_joining [(1, StartBackfill ''a:1''), (2, CompleteBackfill ''a:1''), (3, Leave ''a:1'')]
   in member_st (c_snap c2) ''a:1'' = Some LEFT
      \<and> handle_join None None ''t'' 100000 ''a:1'' ''Ann'' None None c2 = (c2, Inr (duplicate_result c2))"
proof -
  let ?c0 = "new_coord ''lobby'' None False []"
  let ?ops = "[(1, StartBackfill ''a:1''), (2, CompleteBackfill ''a:1''), (3, Leave ''a:1'')]"
  let ?j = "handle_join None None ''t'' 0 ''a:1'' ''Ann'' (Some ''pem'') None ?c0"
  have j: "?j = (demo_joining, snd ?j)" by (simp add: demo_joining_def demo_ops_def)
  have g: "guard_wf (c_guard ?c0)" by (simp add: new_coord_def new_guard_def guard_wf_def)
  have "\<forall>x \<in> set ?ops. \<not> is_join (snd x)" by simp
  from rejoin_is_refused[OF j g this refl] show ?thesis
    unfolding Let_def by (intro conjI) (code_simp, blast)
qed

text \<open>A single remote event with a term above 1 disables the room: from then on a
  heartbeat or leave of any live member raises \<open>StaleTermError\<close> and changes nothing, because
  the coordinator always writes with term 1.\<close>

theorem remote_term_disables_writes:
  assumes "1 < ev_term e" "c' = apply_remote_event now e c" "get_member u (c_snap c') = Some m"
    and "mi_state m \<notin> {LEFT, DISCONNECTED}"
  shows "handle_heartbeat now' u c' = (c', Some (StaleTermError 1 (el_term (c_log c'))))
    \<and> handle_leave now' u c' = (c', Some (StaleTermError 1 (el_term (c_log c'))))"
  using stale_handlers[OF remote_term[OF assms(1), of now c, folded assms(2)] assms(3)] assms(4) by simp

definition demo_remote :: membership_event where
  "demo_remote = \<lparr>ev_seq_no = 1, ev_room_id = ''lobby'', ev_user_id = ''b:2'', ev_type = JOIN_ACCEPTED,
     ev_timestamp = 4, ev_version = 1, ev_source = ''coordinator'', ev_term = 2, ev_trace_id = None,
     ev_display_name = ''Bob'', ev_originator = None, ev_public_key = None\<rparr>"

theorem remote_term_disables_writes_witness:
  "handle_heartbeat 6 ''a:1'' (apply_remote_event 5 demo_remote demo_coord) =
     (apply_remote_event 5 demo_remote demo_coord, Some (StaleTermError 1 2))"
proof -
  let ?c = "apply_remote_event 5 demo_remote demo_coord"
  have t: "el_term (c_log ?c) = 2" by code_simp
  have st: "map_option mi_state (get_member ''a:1'' (c_snap ?c)) = Some ACTIVE" by code_simp
  then obtain m where m: "get_member ''a:1'' (c_snap ?c) = Some m" "mi_state m = ACTIVE" by auto
  have "1 < ev_term demo_remote" by (simp add: demo_remote_def)
  from remote_term_disables_writes[OF this refl m(1), of 6] m(2) t show ?thesis by simp
qed

section \<open>Routing\<close>



text \<open>Fan-out has no duplicates: with either registry, the in-memory one or the router
  with canonical member identifiers, the addresses a broadcast goes to are pairwise distinct.\<close>

theorem fanout_distinct:
  assumes "registry_wf ps" "canonical r"
  shows "distinct (map addr_str (peers_excluding a snd_addr (get_peers ps)))
    \<and> distinct (map addr_str (peers_excluding a snd_addr (router_get_peers r)))"
  using inmem.target_addresses_distinct[OF assms(1)] router_reg.target_addresses_distinct[OF assms(2)] by blast

theorem fanout_distinct_witness:
  "distinct (map addr_str (peers_excluding ''a:1'' ''c:3'' (get_peers (add_peer ''b'' 2 [] (add_peer ''b'' 2 [] [])))))"
proof -
  have "registry_wf (add_peer ''b'' 2 [] (add_peer ''b'' 2 [] []))"
    by (intro registry_wf_add registry_wf_empty)
  moreover have "canonical \<lparr>rt_self = ''a:1'', rt_active = [], rt_hold = {}\<rparr>" by (simp add: canonical_def keyed_def)
  ultimately show ?thesis using fanout_distinct by blast
qed

end
