(* ===== verification/Message_Store.thy ===== *)
theory Message_Store
  imports Vector_Clock Json_Base64 "HOL-Library.Monad_Syntax" "HOL-Library.Char_ord" "HOL-Library.List_Lexorder"
begin

text \<open>
  \<open>message_history/storage/models.py\<close> and \<open>local_message_store.py\<close>: the append-only log
  of a node's messages, its compressed snapshots and its indexes. The storage \<open>Message\<close>
  has the fields of the wire message, so the record \<^typ>\<open>message\<close> stands for both.

  The disk is a record: the lines of the active log with their length in bytes, the
  snapshot data and metadata files by name, and the four index files (\<open>None\<close> for a file
  that is missing, empty or not of the expected JSON type). A line is the value
  \<open>json.loads\<close> reads from it, or blank, or unparsable. Index files are replaced atomically
  by \<open>_write_json\<close>. The environment fixes what a run takes from outside: the length of
  a JSON text in bytes, the SHA-256 digest of a snapshot file, and the time of day. Every
  method holds the store's lock, so it is one step. Errors of the operating system are left
  out.
\<close>

section \<open>Messages as JSON\<close>

definition sender_seq :: "message \<Rightarrow> int" where
  "sender_seq m = vc_get (msg_vector_clock m) (msg_sender m)"

definition msg_to_dict :: "message \<Rightarrow> json" where
  "msg_to_dict m = JObj
     [(''id'', JStr (msg_id m)), (''content'', JStr (msg_content m)), (''sender'', JStr (msg_sender m)),
      (''timestamp'', JFloat (msg_timestamp m)), (''signature'', JStr (msg_signature m)),
      (''ttl'', JInt (msg_ttl m)),
      (''vector_clock'', JObj (map (\<lambda>(u, q). (u, JInt q)) (msg_vector_clock m)))]"

text \<open>\<open>data.get(k, dflt)\<close> followed by a conversion.\<close>

definition jget_or :: "json \<Rightarrow> string \<Rightarrow> (json \<Rightarrow> 'a option) \<Rightarrow> 'a \<Rightarrow> 'a option" where
  "jget_or d k conv dflt = (case jget d k of None \<Rightarrow> Some dflt | Some v \<Rightarrow> conv v)"

definition msg_from_dict :: "json \<Rightarrow> message option" where
  "msg_from_dict d = do {
     i \<leftarrow> jget d ''id'' \<bind> as_str;
     c \<leftarrow> jget d ''content'' \<bind> as_str;
     s \<leftarrow> jget d ''sender'' \<bind> as_str;
     t \<leftarrow> jget d ''timestamp'' \<bind> as_float;
     sg \<leftarrow> jget_or d ''signature'' as_str [];
     tl \<leftarrow> jget_or d ''ttl'' as_int 0;
     vc \<leftarrow> jget_or d ''vector_clock''
            (\<lambda>v. as_obj v \<bind> map_opt (\<lambda>(u, q). map_option (Pair u) (as_int q))) [];
     Some \<lparr>msg_content = c, msg_sender = s, msg_id = i, msg_timestamp = t, msg_signature = sg,
           msg_ttl = tl, msg_vector_clock = vc\<rparr>
   }"

section \<open>The disk\<close>

datatype line = Json json | Blank | Invalid

record store_disk =
  dk_log :: "(nat \<times> line) list"
  dk_data :: "(string, line list) dict"
  dk_meta :: "(string, json option) dict"
  dk_ids :: "string set option"
  dk_seq :: "(string, (string, int) dict) dict option"
  dk_vc :: "clock option"
  dk_state :: "(bool \<times> bool) option"

record store_env =
  sv_len :: "json \<Rightarrow> nat"
  sv_sha :: "line list \<Rightarrow> string"
  sv_now :: time

record store =
  st_ids :: "string set"
  st_seq :: "(string, (string, int) dict) dict"
  st_latest :: clock
  st_force :: bool
  st_rebuild :: bool
  st_threshold :: "int option"
  st_disk :: store_disk

definition DEFAULT_SNAPSHOT_THRESHOLD :: int where
  "DEFAULT_SNAPSHOT_THRESHOLD = 3"

definition empty_disk :: store_disk where
  "empty_disk = \<lparr>dk_log = [], dk_data = [], dk_meta = [], dk_ids = None, dk_seq = None,
     dk_vc = None, dk_state = None\<rparr>"

section \<open>Conversions\<close>

text \<open>\<open>_safe_int\<close> on a string and on a JSON value.\<close>

definition safe_int_str :: "string \<Rightarrow> int" where
  "safe_int_str s = (case py_int s of None \<Rightarrow> 0 | Some i \<Rightarrow> i)"

fun py_int_of :: "json \<Rightarrow> int option" where
  "py_int_of (JInt i) = Some i"
| "py_int_of (JFloat x) = Some (if x \<ge> 0 then \<lfloor>x\<rfloor> else \<lceil>x\<rceil>)"
| "py_int_of (JStr s) = py_int s"
| "py_int_of (JBool b) = Some (if b then 1 else 0)"
| "py_int_of _ = None"

definition safe_int :: "json \<Rightarrow> int" where
  "safe_int v = (case py_int_of v of None \<Rightarrow> 0 | Some i \<Rightarrow> i)"

text \<open>\<open>str(meta.get(k, ""))\<close> for a string field.\<close>

definition meta_str :: "json \<Rightarrow> string \<Rightarrow> string" where
  "meta_str meta k = (case jget meta k of Some (JStr s) \<Rightarrow> s | _ \<Rightarrow> [])"

text \<open>\<open>f"{n:04d}"\<close>.\<close>

definition pad4 :: "nat \<Rightarrow> string" where
  "pad4 n = replicate (4 - length (nat_str n)) (CHR ''0'') @ nat_str n"

definition snapshot_name :: "nat \<Rightarrow> string" where
  "snapshot_name n = ''snapshot-'' @ pad4 n"

text \<open>\<open>[xs[start:start + n] for start in range(0, len(xs), n)]\<close>.\<close>

definition slices :: "nat \<Rightarrow> 'a list \<Rightarrow> 'a list list" where
  "slices n xs = map (\<lambda>i. take n (drop (i * n) xs)) [0..<(length xs + n - 1) div n]"

text \<open>Equality of Python dictionaries.\<close>

definition dict_eq :: "('v \<Rightarrow> 'v \<Rightarrow> bool) \<Rightarrow> ('k, 'v) dict \<Rightarrow> ('k, 'v) dict \<Rightarrow> bool" where
  "dict_eq eq a b = list_all (\<lambda>k. rel_option eq (map_of a k) (map_of b k)) (dict_keys a @ dict_keys b)"

section \<open>Reading the storage\<close>

definition line_msg :: "line \<Rightarrow> message option" where
  "line_msg l = (case l of Json j \<Rightarrow> msg_from_dict j | _ \<Rightarrow> None)"

definition line_bad :: "line \<Rightarrow> bool" where
  "line_bad l = (case l of Json j \<Rightarrow> msg_from_dict j = None | Blank \<Rightarrow> False | Invalid \<Rightarrow> True)"

fun read_active_from :: "nat \<Rightarrow> (nat \<times> line) list \<Rightarrow> (message \<times> nat) list" where
  "read_active_from offset [] = []"
| "read_active_from offset ((n, l) # ls) =
     (case line_msg l of None \<Rightarrow> read_active_from (offset + n + 1) ls
      | Some m \<Rightarrow> (m, offset) # read_active_from (offset + n + 1) ls)"

definition read_active_with_offsets :: "store_disk \<Rightarrow> (message \<times> nat) list" where
  "read_active_with_offsets d = read_active_from 0 (dk_log d)"

definition read_active_messages :: "store_disk \<Rightarrow> message list" where
  "read_active_messages d = map fst (read_active_with_offsets d)"

definition active_log_had_invalid_lines :: "store_disk \<Rightarrow> bool" where
  "active_log_had_invalid_lines d = list_ex (\<lambda>(n, l). line_bad l) (dk_log d)"

definition read_snapshot_file :: "line list \<Rightarrow> message list" where
  "read_snapshot_file ls = List.map_filter line_msg ls"

fun meta_dict :: "json option option \<Rightarrow> json option" where
  "meta_dict (Some (Some (JObj kvs))) = Some (JObj kvs)"
| "meta_dict _ = None"

definition list_snapshots :: "store_disk \<Rightarrow> json list" where
  "list_snapshots d =
     List.map_filter (\<lambda>name. meta_dict (map_of (dk_meta d) name))
       (sort (filter (\<lambda>name. strip_suffix ''.meta.json'' name \<noteq> None) (dict_keys (dk_meta d))))"

definition read_snapshot_messages :: "store_env \<Rightarrow> store_disk \<Rightarrow> string \<Rightarrow> message list" where
  "read_snapshot_messages env d snapshot_id =
     (case meta_dict (map_of (dk_meta d) (snapshot_id @ ''.meta.json'')) of
        None \<Rightarrow> []
      | Some meta \<Rightarrow>
          (case map_of (dk_data d) (meta_str meta ''data_file'') of
             None \<Rightarrow> []
           | Some ls \<Rightarrow>
               if jget meta ''checksum'' \<noteq> Some (JStr (sv_sha env ls)) then []
               else read_snapshot_file ls))"

datatype source = FromSnapshot | FromActive

definition iter_readable :: "store_env \<Rightarrow> store_disk \<Rightarrow> (source \<times> message \<times> int) list" where
  "iter_readable env d =
     concat (map (\<lambda>meta. map (\<lambda>m. (FromSnapshot, m, - 1))
                    (read_snapshot_messages env d (meta_str meta ''snapshot_id'')))
              (list_snapshots d))
     @ map (\<lambda>(m, offset). (FromActive, m, int offset)) (read_active_with_offsets d)"

fun first_by_id :: "string set \<Rightarrow> message list \<Rightarrow> message list" where
  "first_by_id seen_ids [] = []"
| "first_by_id seen_ids (m # ms) =
     (if msg_id m \<in> seen_ids then first_by_id seen_ids ms
      else m # first_by_id (insert (msg_id m) seen_ids) ms)"

text \<open>The sort key \<open>(timestamp, read_index)\<close> is a stable sort by timestamp.\<close>

definition read_all_messages :: "store_env \<Rightarrow> store_disk \<Rightarrow> message list" where
  "read_all_messages env d =
     sort_key msg_timestamp (first_by_id {} (map (\<lambda>(_, m, _). m) (iter_readable env d)))"

section \<open>Indexes\<close>

definition seq_put :: "message \<Rightarrow> int \<Rightarrow> (string, (string, int) dict) dict \<Rightarrow> (string, (string, int) dict) dict" where
  "seq_put m offset sq =
     dict_set (msg_sender m)
       (dict_set (int_str (sender_seq m)) offset (get_or sq (msg_sender m) [])) sq"

definition vc_bump :: "message \<Rightarrow> clock \<Rightarrow> clock" where
  "vc_bump m vc =
     (if sender_seq m > vc_get vc (msg_sender m) then dict_set (msg_sender m) (sender_seq m) vc else vc)"

definition vector_clock_for_messages :: "message list \<Rightarrow> clock" where
  "vector_clock_for_messages ms = foldl (\<lambda>vc m. vc_bump m vc) [] ms"

definition flush_indexes :: "store \<Rightarrow> store" where
  "flush_indexes s = s\<lparr>st_disk := (st_disk s)\<lparr>dk_ids := Some (st_ids s), dk_seq := Some (st_seq s),
     dk_vc := Some (st_latest s), dk_state := Some (st_force s, st_rebuild s)\<rparr>\<rparr>"

definition load_indexes :: "int option \<Rightarrow> store_disk \<Rightarrow> store" where
  "load_indexes threshold d =
     \<lparr>st_ids = (case dk_ids d of None \<Rightarrow> {} | Some ids \<Rightarrow> ids),
      st_seq = (case dk_seq d of None \<Rightarrow> [] | Some sq \<Rightarrow> sq),
      st_latest = (case dk_vc d of None \<Rightarrow> [] | Some vc \<Rightarrow> vc),
      st_force = (case dk_state d of None \<Rightarrow> False | Some fr \<Rightarrow> fst fr),
      st_rebuild = (case dk_state d of None \<Rightarrow> False | Some fr \<Rightarrow> snd fr),
      st_threshold = threshold, st_disk = d\<rparr>"

text \<open>Used for the keys of an index and for snapshot numbers: the sorted numbers are not the
  interval they span.\<close>

definition seqs_of :: "(string, int) dict \<Rightarrow> int list" where
  "seqs_of seq_map = sort (filter (\<lambda>q. q > 0) (map safe_int_str (dict_keys seq_map)))"

definition has_sender_sequence_gaps :: "(string, (string, int) dict) dict \<Rightarrow> bool" where
  "has_sender_sequence_gaps sq =
     list_ex (\<lambda>seq_map. let seqs = seqs_of seq_map in seqs \<noteq> [] \<and> seqs \<noteq> [1..last seqs]) (dict_values sq)"

definition has_unreadable_snapshot :: "store_env \<Rightarrow> store_disk \<Rightarrow> bool" where
  "has_unreadable_snapshot env d =
     list_ex (\<lambda>meta.
        let expected_count = (case jget meta ''message_count'' of None \<Rightarrow> 0 | Some v \<Rightarrow> safe_int v) in
        expected_count > 0 \<and>
        int (length (read_snapshot_messages env d (meta_str meta ''snapshot_id''))) < expected_count)
      (list_snapshots d)"

definition has_snapshot_sequence_gaps :: "store_disk \<Rightarrow> bool" where
  "has_snapshot_sequence_gaps d =
     (let ns = sort (List.map_filter
                 (\<lambda>meta. strip_prefix ''snapshot-'' (meta_str meta ''snapshot_id'') \<bind> py_int)
                 (list_snapshots d))
      in ns \<noteq> [] \<and> ns \<noteq> [hd ns..last ns])"

definition repair_step ::
  "string set \<times> (string, (string, int) dict) dict \<times> clock \<times> bool \<Rightarrow> source \<times> message \<times> int \<Rightarrow>
   string set \<times> (string, (string, int) dict) dict \<times> clock \<times> bool" where
  "repair_step acc x =
     (case acc of (ids, sq, vc, changed) \<Rightarrow> case x of (source, m, offset) \<Rightarrow>
        if msg_id m \<in> ids then (ids, sq, vc, True)
        else (insert (msg_id m) ids, seq_put m (if source = FromActive then offset else - 1) sq,
              vc_bump m vc, changed))"

definition repair_scan ::
  "store_env \<Rightarrow> store_disk \<Rightarrow> string set \<times> (string, (string, int) dict) dict \<times> clock \<times> bool" where
  "repair_scan env d = foldl repair_step ({}, [], [], False) (iter_readable env d)"

definition repair_indexes :: "store_env \<Rightarrow> store \<Rightarrow> store" where
  "repair_indexes env s =
     (let d = st_disk s;
          (ids, sq, vc, dup) = repair_scan env d;
          changed = (dup \<or> ids \<noteq> st_ids s \<or> \<not> dict_eq (dict_eq (=)) sq (st_seq s)
                     \<or> \<not> dict_eq (=) vc (st_latest s));
          damage = (has_unreadable_snapshot env d \<or> has_snapshot_sequence_gaps d
                    \<or> active_log_had_invalid_lines d \<or> has_sender_sequence_gaps sq)
      in if changed then
           let lost = (damage \<or> \<not> st_ids s \<subseteq> ids)
           in flush_indexes (s\<lparr>st_force := st_force s \<or> lost, st_rebuild := st_rebuild s \<or> lost,
                st_ids := ids, st_seq := sq, st_latest := vc\<rparr>)
         else if damage then flush_indexes (s\<lparr>st_force := True, st_rebuild := True\<rparr>)
         else s)"

definition rebuild_indexes :: "store_env \<Rightarrow> store \<Rightarrow> store" where
  "rebuild_indexes env s =
     (let ms = read_all_messages env (st_disk s) in
      s\<lparr>st_ids := set (map msg_id ms),
        st_seq := foldl (\<lambda>sq m. seq_put m (- 1) sq) [] ms,
        st_latest := vector_clock_for_messages ms\<rparr>)"

definition open_store :: "store_env \<Rightarrow> int option \<Rightarrow> store_disk \<Rightarrow> store" where
  "open_store env threshold d = repair_indexes env (load_indexes threshold d)"

section \<open>Snapshots\<close>

definition next_snapshot_id :: "store_disk \<Rightarrow> string" where
  "next_snapshot_id d =
     (let ns = List.map_filter
           (\<lambda>name. strip_suffix ''.meta.json'' name \<bind> strip_prefix ''snapshot-'' \<bind> py_int)
           (dict_keys (dk_meta d))
      in snapshot_name (nat (foldl max 0 ns + 1)))"

definition msg_line :: "message \<Rightarrow> line" where
  "msg_line m = Json (msg_to_dict m)"

definition write_snapshot_data :: "string \<Rightarrow> message list \<Rightarrow> store_disk \<Rightarrow> store_disk" where
  "write_snapshot_data snapshot_id ms d =
     d\<lparr>dk_data := dict_set (snapshot_id @ ''.jsonl.gz'') (map msg_line ms) (dk_data d)\<rparr>"

definition snapshot_meta :: "store_env \<Rightarrow> string \<Rightarrow> message list \<Rightarrow> json" where
  "snapshot_meta env snapshot_id ms = JObj
     [(''snapshot_id'', JStr snapshot_id), (''created_at'', JFloat (sv_now env)),
      (''covers_until_vector_clock'',
         JObj (map (\<lambda>(u, q). (u, JInt q)) (vector_clock_for_messages ms))),
      (''message_count'', JInt (int (length ms))),
      (''checksum'', JStr (sv_sha env (map msg_line ms))),
      (''data_file'', JStr (snapshot_id @ ''.jsonl.gz''))]"

definition write_snapshot_files ::
  "store_env \<Rightarrow> string \<Rightarrow> message list \<Rightarrow> store_disk \<Rightarrow> json \<times> store_disk" where
  "write_snapshot_files env snapshot_id ms d =
     (let d' = write_snapshot_data snapshot_id ms d; meta = snapshot_meta env snapshot_id ms
      in (meta, d'\<lparr>dk_meta := dict_set (snapshot_id @ ''.meta.json'') (Some meta) (dk_meta d')\<rparr>))"

definition create_snapshot ::
  "store_env \<Rightarrow> string option \<Rightarrow> bool \<Rightarrow> store \<Rightarrow> json option \<times> store" where
  "create_snapshot env sid compact_log s =
     (let ms = read_active_messages (st_disk s) in
      if ms = [] then (None, s)
      else
        let snapshot_id = (case sid of None \<Rightarrow> next_snapshot_id (st_disk s)
                           | Some x \<Rightarrow> if x = [] then next_snapshot_id (st_disk s) else x);
            (meta, d) = write_snapshot_files env snapshot_id ms (st_disk s)
        in (Some meta,
            if compact_log then flush_indexes (rebuild_indexes env (s\<lparr>st_disk := d\<lparr>dk_log := []\<rparr>\<rparr>))
            else s\<lparr>st_disk := d\<rparr>))"

definition maybe_create_snapshot :: "store_env \<Rightarrow> store \<Rightarrow> store" where
  "maybe_create_snapshot env s =
     (case st_threshold s of
        None \<Rightarrow> s
      | Some t \<Rightarrow>
          if t \<le> 0 then s
          else if int (length (read_active_messages (st_disk s))) \<ge> t
          then snd (create_snapshot env None True s) else s)"

definition delete_snapshot_files :: "store_disk \<Rightarrow> store_disk" where
  "delete_snapshot_files d =
     d\<lparr>dk_data := filter (\<lambda>(name, _). strip_suffix ''.jsonl.gz'' name = None) (dk_data d),
       dk_meta := filter (\<lambda>(name, _). strip_suffix ''.meta.json'' name = None) (dk_meta d)\<rparr>"

definition log_lines :: "store_env \<Rightarrow> message list \<Rightarrow> (nat \<times> line) list" where
  "log_lines env ms = map (\<lambda>m. (sv_len env (msg_to_dict m), msg_line m)) ms"

definition write_active_log_messages :: "store_env \<Rightarrow> message list \<Rightarrow> store_disk \<Rightarrow> store_disk" where
  "write_active_log_messages env ms d = d\<lparr>dk_log := log_lines env ms\<rparr>"

definition write_chunk :: "store_env \<Rightarrow> store_disk \<Rightarrow> nat \<times> message list \<Rightarrow> store_disk" where
  "write_chunk env d ic = snd (write_snapshot_files env (snapshot_name (fst ic)) (snd ic) d)"

definition rebuild_snapshots :: "store_env \<Rightarrow> store \<Rightarrow> store" where
  "rebuild_snapshots env s =
     (let ms = read_all_messages env (st_disk s) in
      if ms = [] then s
      else
        let chunk_size = (case st_threshold s of
              Some t \<Rightarrow> if t > 0 then nat t else length ms | None \<Rightarrow> length ms);
            snapshot_message_count = (case st_threshold s of
              Some t \<Rightarrow> if t > 0 then (length ms div chunk_size) * chunk_size else length ms
            | None \<Rightarrow> length ms);
            d = delete_snapshot_files (st_disk s);
            d' = foldl (write_chunk env) d
                   (enumerate 1 (slices chunk_size (take snapshot_message_count ms)));
            d'' = write_active_log_messages env (drop snapshot_message_count ms) d'
        in flush_indexes (rebuild_indexes env
             (s\<lparr>st_disk := d'', st_rebuild := False, st_force := False\<rparr>)))"

definition maybe_rebuild_snapshots :: "store_env \<Rightarrow> store \<Rightarrow> store" where
  "maybe_rebuild_snapshots env s =
     (if has_sender_sequence_gaps (st_seq s) then s else rebuild_snapshots env s)"

section \<open>Saving\<close>

definition log_size :: "(nat \<times> line) list \<Rightarrow> nat" where
  "log_size ls = sum_list (map (\<lambda>(n, l). n + 1) ls)"

definition append_to_log :: "store_env \<Rightarrow> message \<Rightarrow> store_disk \<Rightarrow> nat \<times> store_disk" where
  "append_to_log env m d = (log_size (dk_log d), d\<lparr>dk_log := dk_log d @ log_lines env [m]\<rparr>)"

definition save :: "store_env \<Rightarrow> message \<Rightarrow> store \<Rightarrow> bool \<times> store" where
  "save env m s =
     (if msg_id m \<in> st_ids s then (False, s)
      else
        let (offset, d) = append_to_log env m (st_disk s);
            s1 = s\<lparr>st_disk := d, st_ids := insert (msg_id m) (st_ids s),
                   st_seq := seq_put m (int offset) (st_seq s), st_latest := vc_bump m (st_latest s)\<rparr>;
            s2 = flush_indexes s1
        in (True, if st_rebuild s2 then maybe_rebuild_snapshots env s2
                  else maybe_create_snapshot env s2))"

record save_counts =
  sc_saved :: nat
  sc_duplicates :: nat
  sc_invalid :: nat

text \<open>An element that is not a \<open>Message\<close> is \<open>None\<close>.\<close>

fun save_each :: "store_env \<Rightarrow> message option list \<Rightarrow> store \<Rightarrow> save_counts \<Rightarrow> save_counts \<times> store" where
  "save_each env [] s r = (r, s)"
| "save_each env (None # ms) s r = save_each env ms s (r\<lparr>sc_invalid := sc_invalid r + 1\<rparr>)"
| "save_each env (Some m # ms) s r =
     (let (was_saved, s') = save env m s in
      save_each env ms s'
        (if was_saved then r\<lparr>sc_saved := sc_saved r + 1\<rparr> else r\<lparr>sc_duplicates := sc_duplicates r + 1\<rparr>))"

definition save_many :: "store_env \<Rightarrow> message option list \<Rightarrow> store \<Rightarrow> save_counts \<times> store" where
  "save_many env ms s =
     (let (r, s') = save_each env ms s \<lparr>sc_saved = 0, sc_duplicates = 0, sc_invalid = 0\<rparr>
      in (r, if st_rebuild s' then maybe_rebuild_snapshots env s' else s'))"

definition has_message :: "store \<Rightarrow> string \<Rightarrow> bool" where
  "has_message s message_id = (message_id \<in> st_ids s)"

section \<open>Reading for backfill and recovery\<close>

text \<open>\<open>xs[k:]\<close> for an integer \<open>k\<close>.\<close>

definition py_slice_from :: "int \<Rightarrow> 'a list \<Rightarrow> 'a list" where
  "py_slice_from k xs = drop (nat (if k < 0 then int (length xs) + k else k)) xs"

definition get_recent :: "store_env \<Rightarrow> int \<Rightarrow> store \<Rightarrow> message list" where
  "get_recent env limit s =
     (let ms = read_all_messages env (st_disk s) in
      if int (length ms) > limit then py_slice_from (- limit) ms else ms)"

text \<open>The cursor is a JSON object that came with a request.\<close>

definition get_missing_since :: "store_env \<Rightarrow> (string, json) dict \<Rightarrow> store \<Rightarrow> message list" where
  "get_missing_since env have s =
     filter (\<lambda>m. sender_seq m > safe_int (get_or have (msg_sender m) (JInt 0)))
       (first_by_id {} (read_all_messages env (st_disk s)))"

record history_chunk =
  hc_transfer_id :: string
  hc_chunk_id :: nat
  hc_is_last :: bool
  hc_messages :: "json list"

text \<open>\<open>None\<close> is the \<open>ValueError\<close>.\<close>

definition build_history_chunks ::
  "store_env \<Rightarrow> (string, json) dict \<Rightarrow> string \<Rightarrow> int \<Rightarrow> store \<Rightarrow> history_chunk list option" where
  "build_history_chunks env have transfer_id chunk_size s =
     (if chunk_size \<le> 0 then None
      else
        let missing = get_missing_since env have s; n = nat chunk_size in
        Some (map (\<lambda>(i, ms). \<lparr>hc_transfer_id = transfer_id, hc_chunk_id = i + 1,
                     hc_is_last = (i * n + n \<ge> length missing), hc_messages = map msg_to_dict ms\<rparr>)
               (enumerate 0 (slices n missing))))"

text \<open>A position inside a line reads a suffix of its JSON text, which is no JSON object.\<close>

fun line_at :: "nat \<Rightarrow> (nat \<times> line) list \<Rightarrow> line option" where
  "line_at offset [] = None"
| "line_at offset ((n, l) # ls) =
     (if offset = 0 then Some l else if offset < n + 1 then None else line_at (offset - (n + 1)) ls)"

definition read_message_at_offset :: "int \<Rightarrow> store_disk \<Rightarrow> message option" where
  "read_message_at_offset offset d =
     (if offset < 0 then None else line_at (nat offset) (dk_log d) \<bind> line_msg)"

definition get_latest_vector_clock :: "store_env \<Rightarrow> store \<Rightarrow> clock \<times> store" where
  "get_latest_vector_clock env s0 =
     (let s = repair_indexes env s0 in
      if st_force s then
        if has_sender_sequence_gaps (st_seq s) then ([], s)
        else let s' = flush_indexes (s\<lparr>st_force := False\<rparr>) in (st_latest s', s')
      else (st_latest s, s))"

end
