(* ===== verification/Store_Invariant.thy ===== *)
theory Store_Invariant
  imports Message_Store
begin

text \<open>
  Facts about the message store (\<^theory_text>\<open>Message_Store\<close>). A disk determines the messages
  that can be read from it (\<open>stored\<close>); the indexes describe exactly these (\<open>idx_ok\<close>,
  \<open>offsets_ok\<close>), and saving, compacting, rebuilding and repairing keep it so while losing
  no message.
\<close>

section \<open>Messages and lines\<close>

lemma map_opt_JInt [simp]:
  "map_opt (\<lambda>(u, q). map_option (Pair u) (as_int q)) (map (\<lambda>(u, q). (u, JInt q)) vc) = Some vc"
  by (induction vc) auto

lemma msg_from_to [simp]: "msg_from_dict (msg_to_dict m) = Some m"
  by (simp add: msg_from_dict_def msg_to_dict_def jget_or_def)

lemma line_msg_msg_line [simp]: "line_msg (msg_line m) = Some m"
  by (simp add: line_msg_def msg_line_def)

lemma read_snapshot_file_lines [simp]: "read_snapshot_file (map msg_line ms) = ms"
  by (induction ms) (simp_all add: read_snapshot_file_def List.map_filter_simps)

lemma log_size_simps [simp]:
  "log_size [] = 0" "log_size ((n, l) # ls) = n + 1 + log_size ls"
  "log_size (ls @ ks) = log_size ls + log_size ks"
  by (simp_all add: log_size_def)

lemma log_lines_simps [simp]:
  "log_lines env [] = []"
  "log_lines env (m # ms) = (sv_len env (msg_to_dict m), msg_line m) # log_lines env ms"
  by (simp_all add: log_lines_def)

lemma read_active_from_append:
  "read_active_from b (ls @ ks) = read_active_from b ls @ read_active_from (b + log_size ls) ks"
  by (induction b ls rule: read_active_from.induct) (auto split: option.splits simp: add_ac)

lemma read_active_from_lines [simp]: "map fst (read_active_from b (log_lines env ms)) = ms"
  by (induction ms arbitrary: b) simp_all

lemma read_active_append_line:
  "read_active_messages (d\<lparr>dk_log := dk_log d @ log_lines env [m]\<rparr>) = read_active_messages d @ [m]"
  by (simp add: read_active_messages_def read_active_with_offsets_def read_active_from_append)

lemma line_at_append: "line_at p ls = Some l \<Longrightarrow> line_at p (ls @ ks) = Some l"
  by (induction p ls rule: line_at.induct) (auto split: if_splits)

lemma line_at_end: "line_at (log_size ls) (ls @ (n, l) # ks) = Some l"
proof (induction ls)
  case (Cons x xs)
  then show ?case by (cases x) simp
qed simp

lemma read_active_from_at:
  "(m, p) \<in> set (read_active_from b ls) \<Longrightarrow>
   b \<le> p \<and> (\<exists>l. line_at (p - b) ls = Some l \<and> line_msg l = Some m)"
proof (induction b ls rule: read_active_from.induct)
  case (2 b n l ls)
  show ?case
  proof (cases "line_msg l = Some m \<and> p = b")
    case False
    with "2.prems" have "(m, p) \<in> set (read_active_from (b + n + 1) ls)"
      by (auto split: option.splits)
    with "2.IH" have "b + n + 1 \<le> p \<and> (\<exists>l. line_at (p - (b + n + 1)) ls = Some l \<and> line_msg l = Some m)"
      by (auto split: option.splits)
    then show ?thesis by (auto simp: add.assoc)
  qed auto
qed simp

section \<open>Duplicates by identifier\<close>

lemma ids_first_by_id: "msg_id ` set (first_by_id S ms) = msg_id ` set ms - S"
  by (induction S ms rule: first_by_id.induct) auto

lemma first_by_id_subset: "set (first_by_id S ms) \<subseteq> set ms"
  by (induction S ms rule: first_by_id.induct) auto

lemma distinct_first_by_id: "distinct (map msg_id (first_by_id S ms))"
proof (induction S ms rule: first_by_id.induct)
  case (2 S m ms)
  then show ?case
    using ids_first_by_id[of "insert (msg_id m) S" ms] by auto
qed simp

lemma first_by_id_snoc:
  "first_by_id S (ms @ [m]) =
     first_by_id S ms @ (if msg_id m \<in> S \<union> msg_id ` set ms then [] else [m])"
  by (induction S ms rule: first_by_id.induct) auto

lemma first_by_id_distinct:
  "distinct (map msg_id ms) \<Longrightarrow> msg_id ` set ms \<inter> S = {} \<Longrightarrow> first_by_id S ms = ms"
  by (induction S ms rule: first_by_id.induct) auto

lemma set_first_by_id_inj:
  assumes "inj_on msg_id (set ms)"
  shows "set (first_by_id {} ms) = set ms"
proof (rule subset_antisym[OF first_by_id_subset], rule subsetI)
  fix m assume m: "m \<in> set ms"
  then have "msg_id m \<in> msg_id ` set (first_by_id {} ms)" by (simp add: ids_first_by_id)
  then obtain m' where "m' \<in> set (first_by_id {} ms)" "msg_id m' = msg_id m" by auto
  with assms m first_by_id_subset[of "{}" ms] show "m \<in> set (first_by_id {} ms)"
    by (metis inj_onD subsetD)
qed

section \<open>What a disk holds\<close>

definition readable :: "store_env \<Rightarrow> store_disk \<Rightarrow> message list" where
  "readable env d = map (\<lambda>(_, m, _). m) (iter_readable env d)"

definition stored :: "store_env \<Rightarrow> store_disk \<Rightarrow> message set" where
  "stored env d = set (read_all_messages env d)"

lemma stored_first: "stored env d = set (first_by_id {} (readable env d))"
  by (simp add: stored_def read_all_messages_def readable_def)

lemma distinct_read_all: "distinct (map msg_id (read_all_messages env d))"
proof -
  have "mset (map msg_id (read_all_messages env d)) = mset (map msg_id (first_by_id {} (readable env d)))"
    by (simp add: read_all_messages_def readable_def)
  then show ?thesis using distinct_first_by_id by (metis distinct_count_atmost_1 set_mset_mset)
qed

lemma stored_inj: "inj_on msg_id (stored env d)"
  using distinct_read_all[of env d] by (simp add: distinct_map stored_def)

lemma ids_stored: "msg_id ` stored env d = msg_id ` set (readable env d)"
  by (simp add: stored_first ids_first_by_id)

lemma stored_inj_readable: "inj_on msg_id (set (readable env d)) \<Longrightarrow> stored env d = set (readable env d)"
  by (simp add: stored_first set_first_by_id_inj)

text \<open>Reading depends on the log and the snapshot files only.\<close>

lemma read_snapshot_cong:
  assumes "dk_data d = dk_data d'" and "dk_meta d = dk_meta d'"
  shows "read_snapshot_messages env d = read_snapshot_messages env d'"
  by (rule ext) (unfold read_snapshot_messages_def assms, rule refl)

lemma iter_cong:
  assumes "dk_log d = dk_log d'" and "dk_data d = dk_data d'" and "dk_meta d = dk_meta d'"
  shows "iter_readable env d = iter_readable env d'"
  using assms read_snapshot_cong[OF assms(2,3)]
  by (simp add: iter_readable_def list_snapshots_def read_active_with_offsets_def)

lemma readable_split:
  "readable env d = concat (map (\<lambda>meta. read_snapshot_messages env d (meta_str meta ''snapshot_id''))
     (list_snapshots d)) @ read_active_messages d"
  by (simp add: readable_def iter_readable_def read_active_messages_def map_concat comp_def
      case_prod_unfold)

section \<open>Well-formed snapshot directories\<close>

definition meta_wf :: "store_disk \<Rightarrow> bool" where
  "meta_wf d \<longleftrightarrow> (\<forall>name meta. meta_dict (map_of (dk_meta d) name) = Some meta \<longrightarrow>
     name = meta_str meta ''snapshot_id'' @ ''.meta.json'' \<and>
     meta_str meta ''data_file'' = meta_str meta ''snapshot_id'' @ ''.jsonl.gz'')"

lemma meta_wfD:
  assumes "meta_wf d" and "meta_dict (map_of (dk_meta d) (sid @ ''.meta.json'')) = Some meta"
  shows "meta_str meta ''snapshot_id'' = sid" and "meta_str meta ''data_file'' = sid @ ''.jsonl.gz''"
  using assms by (auto simp: meta_wf_def)

lemma meta_dict_None [simp]: "meta_dict None = None"
  by simp

lemma meta_dict_key: "meta_dict (map_of ms name) = Some meta \<Longrightarrow> name \<in> set (dict_keys ms)"
  by (cases "map_of ms name") (auto dest: map_of_in_keys)

lemma set_map_filter_iff: "y \<in> set (List.map_filter f xs) \<longleftrightarrow> (\<exists>x \<in> set xs. f x = Some y)"
  by (induction xs) (auto simp: List.map_filter_simps split: option.splits)

lemma set_list_snapshots:
  "meta \<in> set (list_snapshots d) \<longleftrightarrow>
     (\<exists>name. strip_suffix ''.meta.json'' name \<noteq> None \<and> meta_dict (map_of (dk_meta d) name) = Some meta)"
  unfolding list_snapshots_def set_map_filter_iff set_sort set_filter
  by (rule iffI; elim bexE exE conjE CollectE; intro bexI exI conjI CollectI)
    (assumption | erule meta_dict_key)+

lemma set_readable:
  assumes "meta_wf d"
  shows "set (readable env d) =
    {m. \<exists>sid. m \<in> set (read_snapshot_messages env d sid)} \<union> set (read_active_messages d)"
proof -
  have "(\<exists>meta \<in> set (list_snapshots d). m \<in> set (read_snapshot_messages env d (meta_str meta ''snapshot_id'')))
    \<longleftrightarrow> (\<exists>sid. m \<in> set (read_snapshot_messages env d sid))" for m
  proof
    assume "\<exists>sid. m \<in> set (read_snapshot_messages env d sid)"
    then obtain sid where sid: "m \<in> set (read_snapshot_messages env d sid)" by blast
    then obtain meta where meta: "meta_dict (map_of (dk_meta d) (sid @ ''.meta.json'')) = Some meta"
      by (cases "meta_dict (map_of (dk_meta d) (sid @ ''.meta.json''))")
        (simp_all add: read_snapshot_messages_def)
    then have "meta \<in> set (list_snapshots d)"
      unfolding set_list_snapshots using strip_suffix_append by blast
    with sid meta_wfD(1)[OF assms meta]
    show "\<exists>meta \<in> set (list_snapshots d). m \<in> set (read_snapshot_messages env d (meta_str meta ''snapshot_id''))"
      by auto
  qed auto
  then show ?thesis by (auto simp: readable_split)
qed

lemma meta_dict_snapshot_meta [simp]: "meta_dict (Some (Some (snapshot_meta env sid ms))) = Some (snapshot_meta env sid ms)"
  by (simp add: snapshot_meta_def)

lemma snapshot_meta_fields [simp]:
  "meta_str (snapshot_meta env sid ms) ''snapshot_id'' = sid"
  "meta_str (snapshot_meta env sid ms) ''data_file'' = sid @ ''.jsonl.gz''"
  "jget (snapshot_meta env sid ms) ''checksum'' = Some (JStr (sv_sha env (map msg_line ms)))"
  by (simp_all add: snapshot_meta_def meta_str_def)

lemma write_snapshot_fields [simp]:
  "dk_log (snd (write_snapshot_files env sid ms d)) = dk_log d"
  "dk_meta (snd (write_snapshot_files env sid ms d)) =
     dict_set (sid @ ''.meta.json'') (Some (snapshot_meta env sid ms)) (dk_meta d)"
  "dk_data (snd (write_snapshot_files env sid ms d)) =
     dict_set (sid @ ''.jsonl.gz'') (map msg_line ms) (dk_data d)"
  by (simp_all add: write_snapshot_files_def write_snapshot_data_def Let_def)

lemma meta_wf_write: "meta_wf d \<Longrightarrow> meta_wf (snd (write_snapshot_files env sid ms d))"
  by (auto simp: meta_wf_def map_of_dict_set)

lemma read_snapshot_write:
  assumes "meta_wf d"
  shows "read_snapshot_messages env (snd (write_snapshot_files env sid ms d)) sid' =
    (if sid' = sid then ms else read_snapshot_messages env d sid')"
proof (cases "meta_dict (map_of (dk_meta d) (sid' @ ''.meta.json''))")
  case (Some meta)
  with meta_wfD[OF assms Some] show ?thesis
    by (auto simp: read_snapshot_messages_def map_of_dict_set)
qed (simp add: read_snapshot_messages_def map_of_dict_set)

section \<open>Snapshot names\<close>

lemma digits_val_zeros: "digits_val acc (replicate k (CHR ''0'') @ s) = digits_val (acc * 10 ^ k) s"
proof (induction k arbitrary: acc)
  case (Suc k)
  have "is_digit (CHR ''0'')" "digit_val (CHR ''0'') = 0" by (simp_all add: is_digit_def digit_val_def)
  with Suc[of "10 * acc"] show ?case by (simp add: mult_ac)
qed simp

lemma py_nat_digits_val:
  assumes "s \<noteq> []" and "is_digit (hd s)"
  shows "py_nat s = digits_val 0 s"
  using assms by (cases s) (simp_all add: py_nat_def)

lemma py_nat_pad4: "py_nat (pad4 n) = Some n"
proof -
  have z: "is_digit (CHR ''0'')" by (simp add: is_digit_def)
  have h: "is_digit (hd (nat_str n))" using nat_str_digits[of "hd (nat_str n)" n] by simp
  have "is_digit (hd (pad4 n))"
    using z h by (cases "4 - length (nat_str n)") (simp_all add: pad4_def)
  then have "py_nat (pad4 n) = digits_val 0 (pad4 n)"
    by (intro py_nat_digits_val) (simp_all add: pad4_def)
  also have "\<dots> = digits_val 0 (nat_str n)" by (simp add: pad4_def digits_val_zeros)
  also have "\<dots> = Some n" using py_nat_digits_val[of "nat_str n"] h by (simp add: py_nat_nat_str)
  finally show ?thesis .
qed

lemma pad4_digits: "c \<in> set (pad4 n) \<Longrightarrow> is_digit c"
  by (auto simp: pad4_def is_digit_def[of "CHR ''0''"] dest: nat_str_digits split: if_splits)

lemma py_int_pad4: "py_int (pad4 n) = Some (int n)"
proof -
  have "py_strip (pad4 n) = pad4 n" by (rule py_strip_id) (auto dest: pad4_digits digit_not_space)
  moreover obtain c cs where c: "pad4 n = c # cs" by (cases "pad4 n") (auto simp: pad4_def)
  moreover have "c \<noteq> CHR ''-'' \<and> c \<noteq> CHR ''+''" using pad4_digits[of c n] c digit_not_sign by simp
  moreover have "py_nat (c # cs) = Some n" using py_nat_pad4[of n] c by simp
  ultimately show ?thesis by (simp add: py_int_def)
qed

lemma snapshot_name_inj [simp]: "snapshot_name a = snapshot_name b \<longleftrightarrow> a = b"
  by (auto simp: snapshot_name_def dest: arg_cong[where f = py_int] simp: py_int_pad4)

lemma foldl_max_ge: "x \<in> set xs \<Longrightarrow> (x::int) \<le> foldl max a xs" "a \<le> foldl max a xs"
proof (induction xs arbitrary: a)
  case (Cons y ys)
  { case 1 show ?case using Cons(1)[where a = "max a y"] Cons(2)[of "max a y"] 1 by auto }
  { case 2 show ?case using Cons(2)[of "max a y"] by simp }
qed simp_all

lemma next_snapshot_fresh: "map_of (dk_meta d) (next_snapshot_id d @ ''.meta.json'') = None"
proof (rule ccontr)
  define ns where "ns = List.map_filter
    (\<lambda>name. strip_suffix ''.meta.json'' name \<bind> strip_prefix ''snapshot-'' \<bind> py_int) (dict_keys (dk_meta d))"
  define n where "n = nat (foldl max 0 ns + 1)"
  have sid: "next_snapshot_id d = snapshot_name n"
    by (simp add: next_snapshot_id_def ns_def n_def)
  have pos: "foldl max 0 ns \<ge> 0" by (rule foldl_max_ge(2))
  assume "map_of (dk_meta d) (next_snapshot_id d @ ''.meta.json'') \<noteq> None"
  then have key: "snapshot_name n @ ''.meta.json'' \<in> set (dict_keys (dk_meta d))"
    by (simp only: sid map_of_eq_None_iff set_map) simp
  have "strip_suffix ''.meta.json'' (snapshot_name n @ ''.meta.json'') \<bind> strip_prefix ''snapshot-'' \<bind> py_int
      = Some (int n)"
    unfolding strip_suffix_append Option.bind.bind_lunit
    unfolding snapshot_name_def strip_prefix_append Option.bind.bind_lunit by (rule py_int_pad4)
  with key have "int n \<in> set ns" unfolding ns_def set_map_filter_iff by blast
  then have "int n \<le> foldl max 0 ns" by (rule foldl_max_ge(1))
  with pos show False unfolding n_def by linarith
qed

lemma read_snapshot_no_meta: "map_of (dk_meta d) (sid @ ''.meta.json'') = None \<Longrightarrow> read_snapshot_messages env d sid = []"
  by (simp add: read_snapshot_messages_def)

section \<open>Slices\<close>

lemma concat_takes: "concat (map (\<lambda>i. take n (drop (i * n) xs)) [0..<k]) = take (k * n) xs"
proof (induction k)
  case (Suc k)
  have "take (Suc k * n) xs = take (k * n) xs @ take n (drop (k * n) xs)"
    using take_add[of "k * n" n xs] by (simp add: add.commute)
  with Suc show ?case by simp
qed simp

lemma concat_slices: "0 < n \<Longrightarrow> concat (slices n xs) = xs"
proof -
  assume n: "0 < n"
  have "length xs + n - 1 < (length xs + n - 1) div n * n + n"
    using n by (metis div_mult_mod_eq mod_less_divisor nat_add_left_cancel_less)
  then have "length xs \<le> (length xs + n - 1) div n * n" using n by linarith
  then show ?thesis by (simp add: slices_def concat_takes)
qed

lemma slices_length: "c \<in> set (slices n xs) \<Longrightarrow> length c \<le> n"
  by (auto simp: slices_def)

lemma slices_nth: "i < length (slices n xs) \<Longrightarrow> slices n xs ! i = take n (drop (i * n) xs)"
  by (simp add: slices_def)

lemma slices_last:
  assumes "0 < n" and "i < length (slices n xs)"
  shows "length xs \<le> i * n + n \<longleftrightarrow> Suc i = length (slices n xs)"
proof -
  have l: "length (slices n xs) = (length xs + n - 1) div n" by (simp add: slices_def)
  show ?thesis
  proof
    assume "length xs \<le> i * n + n"
    then have "length xs + n - 1 < (i + 2) * n" using assms(1) by (simp add: algebra_simps)
    then have "(length xs + n - 1) div n < i + 2" using assms(1) by (simp add: div_less_iff_less_mult)
    with assms(2) l show "Suc i = length (slices n xs)" by simp
  next
    assume "Suc i = length (slices n xs)"
    then have "(length xs + n - 1) div n < i + 2" using l by simp
    then have "length xs + n - 1 < (i + 2) * n" using assms(1) by (simp add: div_less_iff_less_mult)
    then show "length xs \<le> i * n + n" using assms(1) by (simp add: algebra_simps)
  qed
qed

lemma slices_start:
  assumes "0 < n" and "i < length (slices n xs)"
  shows "i * n < length xs"
proof -
  have "Suc i \<le> (length xs + n - 1) div n" using assms(2) by (simp add: slices_def)
  then have "Suc i * n \<le> length xs + n - 1" using assms(1) by (simp add: less_eq_div_iff_mult_less_eq)
  then show ?thesis using assms(1) by simp
qed

lemma slices_nonempty: "0 < n \<Longrightarrow> c \<in> set (slices n xs) \<Longrightarrow> c \<noteq> []"
  using slices_start[of n _ xs] by (force simp: in_set_conv_nth slices_nth)

section \<open>Writing the snapshots anew\<close>

lemma map_of_filter_key: "map_of (filter (\<lambda>(k, _). P k) xs) k = (if P k then map_of xs k else None)"
  by (induction xs) auto

lemma meta_wf_delete: "meta_wf d \<Longrightarrow> meta_wf (delete_snapshot_files d)"
  by (auto simp: meta_wf_def delete_snapshot_files_def map_of_filter_key split: if_splits)

lemma read_snapshot_deleted: "read_snapshot_messages env (delete_snapshot_files d) sid = []"
  by (rule read_snapshot_no_meta) (simp add: delete_snapshot_files_def map_of_filter_key)

lemma members_update:
  assumes "S k = []"
  shows "{m. \<exists>x. m \<in> set (if x = k then ms else S x)} = {m. \<exists>x. m \<in> set (S x)} \<union> set ms"
proof (intro set_eqI iffI)
  fix m assume "m \<in> {m. \<exists>x. m \<in> set (S x)} \<union> set ms"
  then consider x where "m \<in> set (S x)" | "m \<in> set ms" by blast
  then show "m \<in> {m. \<exists>x. m \<in> set (if x = k then ms else S x)}"
  proof cases
    case 1
    with assms have "x \<noteq> k" by auto
    with 1 have "m \<in> set (if x = k then ms else S x)" by simp
    then show ?thesis by blast
  next
    case 2
    then have "m \<in> set (if k = k then ms else S k)" by simp
    then show ?thesis by blast
  qed
qed (auto split: if_splits)

lemma write_chunks:
  assumes "meta_wf d" and "\<And>i. k \<le> i \<Longrightarrow> read_snapshot_messages env d (snapshot_name i) = []"
  shows "meta_wf (foldl (write_chunk env) d (enumerate k cs)) \<and>
    {m. \<exists>sid. m \<in> set (read_snapshot_messages env (foldl (write_chunk env) d (enumerate k cs)) sid)} =
    {m. \<exists>sid. m \<in> set (read_snapshot_messages env d sid)} \<union> set (concat cs)"
  using assms
proof (induction cs arbitrary: d k)
  case (Cons c cs)
  define d' where "d' = write_chunk env d (k, c)"
  have wf: "meta_wf d'" using meta_wf_write[OF Cons.prems(1)] by (simp add: d'_def write_chunk_def)
  have r: "read_snapshot_messages env d' sid =
      (if sid = snapshot_name k then c else read_snapshot_messages env d sid)" for sid
    using read_snapshot_write[OF Cons.prems(1)] by (simp add: d'_def write_chunk_def)
  have "{m. \<exists>sid. m \<in> set (read_snapshot_messages env d' sid)} =
      {m. \<exists>sid. m \<in> set (read_snapshot_messages env d sid)} \<union> set c"
    unfolding r by (rule members_update) (simp add: Cons.prems(2))
  with Cons.IH[OF wf, of "Suc k"] Cons.prems(2) r show ?case by (auto simp: d'_def[symmetric])
qed simp

section \<open>The indexes describe what is stored\<close>

definition lookup2 :: "(string, (string, int) dict) dict \<Rightarrow> string \<Rightarrow> string \<Rightarrow> int option" where
  "lookup2 sq u k = map_of (get_or sq u []) k"

definition idx_ok ::
  "message set \<Rightarrow> string set \<Rightarrow> (string, (string, int) dict) dict \<Rightarrow> clock \<Rightarrow> bool" where
  "idx_ok R ids sq vc \<longleftrightarrow>
     ids = msg_id ` R \<and>
     (\<forall>u k. lookup2 sq u k \<noteq> None \<longleftrightarrow> (\<exists>m \<in> R. msg_sender m = u \<and> int_str (sender_seq m) = k)) \<and>
     (\<forall>m \<in> R. sender_seq m \<le> vc_get vc (msg_sender m)) \<and>
     (\<forall>u. vc_get vc u = 0 \<or> vc_get vc u > 0 \<and> (\<exists>m \<in> R. msg_sender m = u \<and> sender_seq m = vc_get vc u))"

definition offsets_ok :: "(string, (string, int) dict) dict \<Rightarrow> store_disk \<Rightarrow> bool" where
  "offsets_ok sq d \<longleftrightarrow> (\<forall>u k p. lookup2 sq u k = Some p \<longrightarrow> 0 \<le> p \<longrightarrow>
     (\<exists>m. read_message_at_offset p d = Some m \<and> msg_sender m = u \<and> int_str (sender_seq m) = k))"

lemma lookup2_seq_put:
  "lookup2 (seq_put m p sq) u k =
     (if u = msg_sender m \<and> k = int_str (sender_seq m) then Some p else lookup2 sq u k)"
  by (simp add: lookup2_def seq_put_def map_of_dict_set)

lemma lookup2_Nil [simp]: "lookup2 [] u k = None"
  by (simp add: lookup2_def)

lemma idx_ok_ids: "idx_ok R ids sq vc \<Longrightarrow> ids = msg_id ` R"
  by (simp add: idx_ok_def)

lemma idx_ok_keys:
  "idx_ok R ids sq vc \<Longrightarrow>
   lookup2 sq u k \<noteq> None \<longleftrightarrow> (\<exists>m \<in> R. msg_sender m = u \<and> int_str (sender_seq m) = k)"
  unfolding idx_ok_def by (elim conjE) (erule allE, erule allE, assumption)

lemma idx_ok_latest_le: "idx_ok R ids sq vc \<Longrightarrow> m \<in> R \<Longrightarrow> sender_seq m \<le> vc_get vc (msg_sender m)"
  by (simp add: idx_ok_def)

lemma idx_ok_latest_cases:
  assumes "idx_ok R ids sq vc"
  obtains "vc_get vc u = 0" | m where "vc_get vc u > 0" "m \<in> R" "msg_sender m = u" "sender_seq m = vc_get vc u"
proof -
  have "vc_get vc u = 0 \<or> vc_get vc u > 0 \<and> (\<exists>m \<in> R. msg_sender m = u \<and> sender_seq m = vc_get vc u)"
    using assms unfolding idx_ok_def by (elim conjE) (erule allE, assumption)
  then show thesis using that by blast
qed

lemma idx_ok_empty: "idx_ok {} {} [] []"
  by (simp add: idx_ok_def)

lemma idx_ok_insert:
  assumes "idx_ok R ids sq vc"
  shows "idx_ok (insert m R) (insert (msg_id m) ids) (seq_put m p sq) (vc_bump m vc)"
  using assms unfolding idx_ok_def
proof (intro conjI; elim conjE)
  assume *: "\<forall>u k. lookup2 sq u k \<noteq> None \<longleftrightarrow> (\<exists>m \<in> R. msg_sender m = u \<and> int_str (sender_seq m) = k)"
  show "\<forall>u k. lookup2 (seq_put m p sq) u k \<noteq> None \<longleftrightarrow>
      (\<exists>m \<in> insert m R. msg_sender m = u \<and> int_str (sender_seq m) = k)"
    using * by (auto simp: lookup2_seq_put)
next
  assume "\<forall>m \<in> R. sender_seq m \<le> vc_get vc (msg_sender m)"
  then show "\<forall>m' \<in> insert m R. sender_seq m' \<le> vc_get (vc_bump m vc) (msg_sender m')"
    by (fastforce simp: vc_bump_def)
next
  assume *: "\<forall>u. vc_get vc u = 0 \<or> vc_get vc u > 0 \<and> (\<exists>m \<in> R. msg_sender m = u \<and> sender_seq m = vc_get vc u)"
  show "\<forall>u. vc_get (vc_bump m vc) u = 0 \<or> vc_get (vc_bump m vc) u > 0 \<and>
      (\<exists>m' \<in> insert m R. msg_sender m' = u \<and> sender_seq m' = vc_get (vc_bump m vc) u)"
  proof
    fix u
    show "vc_get (vc_bump m vc) u = 0 \<or> vc_get (vc_bump m vc) u > 0 \<and>
      (\<exists>m' \<in> insert m R. msg_sender m' = u \<and> sender_seq m' = vc_get (vc_bump m vc) u)"
      using spec[OF *, of u] by (auto simp: vc_bump_def)
  qed
qed auto

text \<open>Two dictionaries that compare equal answer every lookup alike.\<close>

lemma dict_eq_lookup: "dict_eq eq a b \<Longrightarrow> rel_option eq (map_of a k) (map_of b k)"
proof (cases "k \<in> set (dict_keys a @ dict_keys b)")
  case False
  then have "map_of a k = None" "map_of b k = None" by (auto simp: map_of_eq_None_iff)
  then show ?thesis by simp
qed (auto simp: dict_eq_def list_all_iff)

lemma dict_eq_eq: "dict_eq (=) a b \<Longrightarrow> map_of a = map_of b"
  using dict_eq_lookup[of "(=)" a b] by (auto simp: option.rel_eq)

lemma dict_eq_lookup2: "dict_eq (dict_eq (=)) a b \<Longrightarrow> lookup2 a = lookup2 b"
proof (intro ext)
  fix u k
  assume "dict_eq (dict_eq (=)) a b"
  then have "rel_option (dict_eq (=)) (map_of a u) (map_of b u)" by (rule dict_eq_lookup)
  then show "lookup2 a u k = lookup2 b u k"
    by (cases "map_of a u"; cases "map_of b u") (auto simp: lookup2_def get_or_def dest: dict_eq_eq)
qed

lemma idx_ok_cong:
  "idx_ok R ids sq vc \<Longrightarrow> dict_eq (dict_eq (=)) sq sq' \<Longrightarrow> dict_eq (=) vc vc' \<Longrightarrow> idx_ok R ids sq' vc'"
  using dict_eq_lookup2[of sq sq'] dict_eq_eq[of vc vc'] by (simp add: idx_ok_def get_or_def)

lemma offsets_ok_cong: "offsets_ok sq d \<Longrightarrow> dict_eq (dict_eq (=)) sq sq' \<Longrightarrow> offsets_ok sq' d"
  using dict_eq_lookup2[of sq sq'] by (simp add: offsets_ok_def)

lemma offsets_ok_log: "offsets_ok sq d \<Longrightarrow> dk_log d = dk_log d' \<Longrightarrow> offsets_ok sq d'"
  by (simp add: offsets_ok_def read_message_at_offset_def)

lemma offsets_ok_put:
  assumes "offsets_ok sq d" and "0 \<le> p \<Longrightarrow> read_message_at_offset p d = Some m"
  shows "offsets_ok (seq_put m p sq) d"
  using assms by (simp add: offsets_ok_def lookup2_seq_put)

section \<open>Rebuilding and repairing the indexes\<close>

definition entry_ok :: "store_disk \<Rightarrow> source \<times> message \<times> int \<Rightarrow> bool" where
  "entry_ok d x = (case x of (src, m, p) \<Rightarrow> src = FromActive \<longrightarrow> read_message_at_offset p d = Some m)"

lemma iter_entries_ok: "x \<in> set (iter_readable env d) \<Longrightarrow> entry_ok d x"
  by (auto simp: iter_readable_def entry_ok_def read_active_with_offsets_def
      read_message_at_offset_def dest!: read_active_from_at)

lemma repair_fold:
  assumes "\<And>x. x \<in> set xs \<Longrightarrow> entry_ok d x"
    and "foldl repair_step ({}, [], [], False) xs = (ids, sq, vc, dup)"
  shows "idx_ok (set (first_by_id {} (map (\<lambda>(_, m, _). m) xs))) ids sq vc \<and> offsets_ok sq d"
  using assms
proof (induction xs arbitrary: ids sq vc dup rule: rev_induct)
  case Nil
  then show ?case by (simp add: idx_ok_empty offsets_ok_def)
next
  case (snoc x xs)
  obtain src m p where x: "x = (src, m, p)" by (cases x) auto
  obtain ids' sq' vc' dup' where f: "foldl repair_step ({}, [], [], False) xs = (ids', sq', vc', dup')"
    by (metis prod_cases4)
  have IH: "idx_ok (set (first_by_id {} (map (\<lambda>(_, m, _). m) xs))) ids' sq' vc'" "offsets_ok sq' d"
    using snoc.IH[OF _ f] snoc.prems(1) by simp_all
  have ids: "ids' = msg_id ` set (map (\<lambda>(_, m, _). m) xs)"
    using IH(1) by (simp add: idx_ok_def ids_first_by_id)
  have ok: "entry_ok d (src, m, p)" using snoc.prems(1) x by simp
  from snoc.prems(2) x f have step: "repair_step (ids', sq', vc', dup') (src, m, p) = (ids, sq, vc, dup)"
    by simp
  show ?case
  proof (cases "msg_id m \<in> ids'")
    case True
    with step have "ids = ids'" "sq = sq'" "vc = vc'" by (simp_all add: repair_step_def)
    with IH True ids x show ?thesis by (simp add: first_by_id_snoc)
  next
    case False
    with step have e: "ids = insert (msg_id m) ids'" "vc = vc_bump m vc'"
      "sq = seq_put m (if src = FromActive then p else - 1) sq'" by (auto simp: repair_step_def)
    have "offsets_ok sq d"
      unfolding e using IH(2) ok by (intro offsets_ok_put) (auto simp: entry_ok_def split: if_splits)
    with idx_ok_insert[OF IH(1)] False ids x e show ?thesis by (simp add: first_by_id_snoc)
  qed
qed

lemma repair_scan_ok:
  "repair_scan env d = (ids, sq, vc, dup) \<Longrightarrow> idx_ok (stored env d) ids sq vc \<and> offsets_ok sq d"
  unfolding repair_scan_def stored_first readable_def
  by (rule repair_fold[OF iter_entries_ok])

lemma rebuild_fold:
  "idx_ok (set ms) (set (map msg_id ms)) (foldl (\<lambda>sq m. seq_put m (- 1) sq) [] ms)
     (vector_clock_for_messages ms) \<and> offsets_ok (foldl (\<lambda>sq m. seq_put m (- 1) sq) [] ms) d"
proof (induction ms rule: rev_induct)
  case Nil
  then show ?case by (simp add: vector_clock_for_messages_def idx_ok_empty offsets_ok_def)
next
  case (snoc m ms)
  then show ?case
    using idx_ok_insert[of "set ms" _ _ _ m "- 1"] offsets_ok_put[where p = "- 1" and m = m]
    by (simp add: vector_clock_for_messages_def)
qed

section \<open>The invariant of the store\<close>

definition index_ok :: "store_env \<Rightarrow> store \<Rightarrow> bool" where
  "index_ok env s \<longleftrightarrow>
     idx_ok (stored env (st_disk s)) (st_ids s) (st_seq s) (st_latest s) \<and> offsets_ok (st_seq s) (st_disk s)"

definition disk_ok :: "store_env \<Rightarrow> store_disk \<Rightarrow> bool" where
  "disk_ok env d \<longleftrightarrow> meta_wf d \<and> inj_on msg_id (set (readable env d))"

definition store_inv :: "store_env \<Rightarrow> store \<Rightarrow> bool" where
  "store_inv env s \<longleftrightarrow> index_ok env s \<and> disk_ok env (st_disk s)"

lemma store_inv_ids: "store_inv env s \<Longrightarrow> st_ids s = msg_id ` stored env (st_disk s)"
  unfolding store_inv_def index_ok_def by (elim conjE) (rule idx_ok_ids)

lemma disk_cong:
  assumes "dk_log d = dk_log d'" and "dk_data d = dk_data d'" and "dk_meta d = dk_meta d'"
  shows "readable env d = readable env d'" "stored env d = stored env d'" "disk_ok env d = disk_ok env d'"
    "read_all_messages env d = read_all_messages env d'" "repair_scan env d = repair_scan env d'"
    "offsets_ok sq d = offsets_ok sq d'"
  using iter_cong[OF assms] assms
  by (simp_all add: readable_def stored_first disk_ok_def meta_wf_def read_all_messages_def
      repair_scan_def offsets_ok_def read_message_at_offset_def)

lemma flush_fields [simp]:
  "st_ids (flush_indexes s) = st_ids s" "st_seq (flush_indexes s) = st_seq s"
  "st_latest (flush_indexes s) = st_latest s" "st_force (flush_indexes s) = st_force s"
  "st_rebuild (flush_indexes s) = st_rebuild s" "st_threshold (flush_indexes s) = st_threshold s"
  "dk_log (st_disk (flush_indexes s)) = dk_log (st_disk s)"
  "dk_data (st_disk (flush_indexes s)) = dk_data (st_disk s)"
  "dk_meta (st_disk (flush_indexes s)) = dk_meta (st_disk s)"
  by (simp_all add: flush_indexes_def)

lemma flush_disk [simp]:
  "readable env (st_disk (flush_indexes s)) = readable env (st_disk s)"
  "stored env (st_disk (flush_indexes s)) = stored env (st_disk s)"
  "disk_ok env (st_disk (flush_indexes s)) = disk_ok env (st_disk s)"
  "read_all_messages env (st_disk (flush_indexes s)) = read_all_messages env (st_disk s)"
  "offsets_ok sq (st_disk (flush_indexes s)) = offsets_ok sq (st_disk s)"
  by (rule disk_cong; simp)+

lemma flush_inv [simp]: "index_ok env (flush_indexes s) = index_ok env s"
  "store_inv env (flush_indexes s) = store_inv env s"
  by (simp_all add: index_ok_def store_inv_def)

lemma rebuild_indexes_ok:
  "index_ok env (rebuild_indexes env s)" "st_disk (rebuild_indexes env s) = st_disk s"
  using rebuild_fold[of "read_all_messages env (st_disk s)" "st_disk s"]
  by (simp_all add: rebuild_indexes_def index_ok_def stored_def Let_def)

text \<open>Whatever the index files held, after a repair the indexes describe what can be read;
  only the index files change.\<close>

lemma repair_cases:
  obtains (changed) ids sq vc dup force rebuild where "repair_scan env (st_disk s) = (ids, sq, vc, dup)"
      "repair_indexes env s = flush_indexes (s\<lparr>st_force := force, st_rebuild := rebuild,
         st_ids := ids, st_seq := sq, st_latest := vc\<rparr>)"
      "has_sender_sequence_gaps sq \<or> \<not> st_ids s \<subseteq> ids \<Longrightarrow> force"
  | (same) ids sq vc dup where "repair_scan env (st_disk s) = (ids, sq, vc, dup)"
      "ids = st_ids s" "dict_eq (dict_eq (=)) sq (st_seq s)" "dict_eq (=) vc (st_latest s)"
      "repair_indexes env s = flush_indexes (s\<lparr>st_force := True, st_rebuild := True\<rparr>)
       \<or> repair_indexes env s = s \<and> \<not> has_sender_sequence_gaps sq"
proof -
  obtain ids sq vc dup where f: "repair_scan env (st_disk s) = (ids, sq, vc, dup)"
    by (metis prod_cases4)
  show thesis
  proof (cases "dup \<or> ids \<noteq> st_ids s \<or> \<not> dict_eq (dict_eq (=)) sq (st_seq s) \<or> \<not> dict_eq (=) vc (st_latest s)")
    case True
    define lost where "lost = (has_unreadable_snapshot env (st_disk s) \<or> has_snapshot_sequence_gaps (st_disk s) \<or>
      active_log_had_invalid_lines (st_disk s) \<or> has_sender_sequence_gaps sq \<or> \<not> st_ids s \<subseteq> ids)"
    have "repair_indexes env s = flush_indexes (s\<lparr>st_force := st_force s \<or> lost,
        st_rebuild := st_rebuild s \<or> lost, st_ids := ids, st_seq := sq, st_latest := vc\<rparr>)"
      using True by (simp add: repair_indexes_def f Let_def lost_def)
    then show thesis by (rule changed[OF f]) (auto simp: lost_def)
  next
    case False
    then show thesis
      by (intro same[OF f]) (auto simp: repair_indexes_def f Let_def)
  qed
qed

lemma repair_ok:
  "index_ok env (repair_indexes env s)"
  "stored env (st_disk (repair_indexes env s)) = stored env (st_disk s)"
  "disk_ok env (st_disk (repair_indexes env s)) = disk_ok env (st_disk s)"
proof -
  have "index_ok env (repair_indexes env s) \<and>
    stored env (st_disk (repair_indexes env s)) = stored env (st_disk s) \<and>
    disk_ok env (st_disk (repair_indexes env s)) = disk_ok env (st_disk s)"
  proof (rule repair_cases[of env s], goal_cases)
    case (1 ids sq vc dup force rebuild)
    with repair_scan_ok[OF 1(1)] show ?case by (simp add: index_ok_def)
  next
    case (2 ids sq vc dup)
    with repair_scan_ok[OF 2(1)] have "index_ok env s"
      by (auto simp: index_ok_def intro: idx_ok_cong offsets_ok_cong)
    with 2(5) show ?case by (auto simp: index_ok_def)
  qed
  then show "index_ok env (repair_indexes env s)"
    "stored env (st_disk (repair_indexes env s)) = stored env (st_disk s)"
    "disk_ok env (st_disk (repair_indexes env s)) = disk_ok env (st_disk s)" by blast+
qed

lemma open_store_ok:
  "index_ok env (open_store env t d)" "stored env (st_disk (open_store env t d)) = stored env d"
  "disk_ok env (st_disk (open_store env t d)) = disk_ok env d"
  using repair_ok[of env "load_indexes t d"] by (simp_all add: open_store_def load_indexes_def)

section \<open>Snapshots lose nothing\<close>

text \<open>A disk on which the same set of messages can be read stores the same messages.\<close>

lemma same_readable_stored:
  assumes "disk_ok env d" and "set (readable env d') = set (readable env d)"
  shows "inj_on msg_id (set (readable env d'))" and "stored env d' = stored env d"
  using assms stored_inj_readable[of env d] stored_inj_readable[of env d'] by (simp_all add: disk_ok_def)

lemma write_snapshot_readable:
  assumes "meta_wf d" and "read_snapshot_messages env d sid = []"
  shows "set (readable env (snd (write_snapshot_files env sid ms d))) = set (readable env d) \<union> set ms"
proof -
  have "read_active_messages (snd (write_snapshot_files env sid ms d)) = read_active_messages d"
    by (simp add: read_active_messages_def read_active_with_offsets_def)
  moreover have "{m. \<exists>x. m \<in> set (if x = sid then ms else read_snapshot_messages env d x)} =
      {m. \<exists>x. m \<in> set (read_snapshot_messages env d x)} \<union> set ms"
    using assms(2) by (rule members_update)
  ultimately show ?thesis
    using assms(1) by (auto simp: set_readable meta_wf_write read_snapshot_write)
qed

text \<open>A data file without metadata is not read.\<close>

lemma write_data_unread:
  assumes "meta_wf d" and "map_of (dk_meta d) (sid @ ''.meta.json'') = None"
  shows "read_snapshot_messages env (write_snapshot_data sid ms d) x = read_snapshot_messages env d x"
proof (cases "meta_dict (map_of (dk_meta d) (x @ ''.meta.json''))")
  case (Some meta)
  with assms(2) have "x \<noteq> sid" by auto
  with Some meta_wfD[OF assms(1) Some] show ?thesis
    by (simp add: read_snapshot_messages_def write_snapshot_data_def map_of_dict_set)
qed (simp add: read_snapshot_messages_def write_snapshot_data_def)

lemma compacted_disk:
  assumes "disk_ok env d"
  defines "d' \<equiv> (snd (write_snapshot_files env (next_snapshot_id d) (read_active_messages d) d))\<lparr>dk_log := []\<rparr>"
  shows "disk_ok env d'" and "stored env d' = stored env d"
proof -
  let ?w = "snd (write_snapshot_files env (next_snapshot_id d) (read_active_messages d) d)"
  have wf: "meta_wf d" using assms(1) by (simp add: disk_ok_def)
  have r: "read_snapshot_messages env d' = read_snapshot_messages env ?w"
    by (rule read_snapshot_cong) (simp_all add: d'_def)
  have e: "read_snapshot_messages env d (next_snapshot_id d) = []"
    by (rule read_snapshot_no_meta[OF next_snapshot_fresh])
  have act: "read_active_messages d' = []"
    by (simp add: d'_def read_active_messages_def read_active_with_offsets_def)
  have wf': "meta_wf d'"
    unfolding meta_wf_def d'_def using meta_wf_write[OF wf, of env] unfolding meta_wf_def by simp
  have sr: "set (readable env d') = set (readable env d)"
  proof -
    have "set (readable env d') = {m. \<exists>sid. m \<in> set (read_snapshot_messages env ?w sid)}"
      unfolding set_readable[OF wf'] r act by simp
    also have "\<dots> = {m. \<exists>sid. m \<in> set (read_snapshot_messages env d sid)} \<union> set (read_active_messages d)"
      unfolding read_snapshot_write[OF wf] using e by (rule members_update)
    finally show ?thesis using set_readable[OF wf] by simp
  qed
  show "disk_ok env d'" "stored env d' = stored env d"
    using wf' same_readable_stored[OF assms(1) sr] by (simp_all add: disk_ok_def)
qed

lemma create_snapshot_compacts:
  assumes "disk_ok env (st_disk s)" and "index_ok env s"
  shows "store_inv env (snd (create_snapshot env None True s))"
    and "stored env (st_disk (snd (create_snapshot env None True s))) = stored env (st_disk s)"
  using assms compacted_disk[OF assms(1)]
  by (simp_all add: create_snapshot_def Let_def store_inv_def rebuild_indexes_ok case_prod_unfold)

lemma maybe_create_snapshot_ok:
  assumes "store_inv env s"
  shows "store_inv env (maybe_create_snapshot env s)"
    and "stored env (st_disk (maybe_create_snapshot env s)) = stored env (st_disk s)"
  using assms create_snapshot_compacts[of env s]
  by (auto simp: maybe_create_snapshot_def store_inv_def split: option.splits)

lemma rebuilt_disk:
  fixes env :: store_env and ms :: "message list" and k :: nat
  assumes "meta_wf d" and "0 < n"
  defines "d' \<equiv> write_active_log_messages env (drop k ms)
     (foldl (write_chunk env) (delete_snapshot_files d) (enumerate 1 (slices n (take k ms))))"
  shows "meta_wf d'" and "set (readable env d') = set ms"
proof -
  let ?f = "foldl (write_chunk env) (delete_snapshot_files d) (enumerate 1 (slices n (take k ms)))"
  have w: "meta_wf ?f"
    "{m. \<exists>sid. m \<in> set (read_snapshot_messages env ?f sid)} = set (take k ms)"
    using write_chunks[OF meta_wf_delete[OF assms(1)], of 1 env "slices n (take k ms)"] assms(2)
    by (simp_all add: read_snapshot_deleted concat_slices)
  have r: "read_snapshot_messages env d' = read_snapshot_messages env ?f"
    by (rule read_snapshot_cong) (simp_all add: d'_def write_active_log_messages_def)
  show wf: "meta_wf d'" using w(1) by (simp add: d'_def write_active_log_messages_def meta_wf_def)
  have "read_active_messages d' = drop k ms"
    by (simp add: d'_def write_active_log_messages_def read_active_messages_def read_active_with_offsets_def)
  then show "set (readable env d') = set ms"
    using w(2) by (simp add: set_readable[OF wf] r) (metis append_take_drop_id set_append)
qed

lemma rebuild_snapshots_ok:
  assumes "store_inv env s"
  shows "store_inv env (rebuild_snapshots env s)"
    and "stored env (st_disk (rebuild_snapshots env s)) = stored env (st_disk s)"
proof -
  let ?ms = "read_all_messages env (st_disk s)"
  have "store_inv env (rebuild_snapshots env s) \<and>
    stored env (st_disk (rebuild_snapshots env s)) = stored env (st_disk s)"
  proof (cases "?ms = []")
    case True
    with assms show ?thesis by (simp add: rebuild_snapshots_def)
  next
    case False
    define n where "n = (case st_threshold s of Some t \<Rightarrow> if t > 0 then nat t else length ?ms | None \<Rightarrow> length ?ms)"
    define k where "k = (case st_threshold s of Some t \<Rightarrow> if t > 0 then length ?ms div n * n else length ?ms
      | None \<Rightarrow> length ?ms)"
    define d where "d = write_active_log_messages env (drop k ?ms)
      (foldl (write_chunk env) (delete_snapshot_files (st_disk s)) (enumerate 1 (slices n (take k ?ms))))"
    have n: "0 < n" using False by (auto simp: n_def split: option.splits)
    have wf: "meta_wf (st_disk s)" using assms by (simp add: store_inv_def disk_ok_def)
    have d: "meta_wf d" "set (readable env d) = stored env (st_disk s)"
      using rebuilt_disk[OF wf n, of env k ?ms] by (simp_all add: d_def stored_def)
    then have inj: "inj_on msg_id (set (readable env d))" by (simp add: stored_inj)
    have "rebuild_snapshots env s =
      flush_indexes (rebuild_indexes env (s\<lparr>st_disk := d, st_rebuild := False, st_force := False\<rparr>))"
      using False unfolding rebuild_snapshots_def Let_def d_def k_def n_def by (simp only: if_False)
    moreover have "disk_ok env d" using d(1) inj by (simp add: disk_ok_def)
    ultimately show ?thesis
      using d(2) stored_inj_readable[OF inj] by (simp add: store_inv_def rebuild_indexes_ok)
  qed
  then show "store_inv env (rebuild_snapshots env s)"
    "stored env (st_disk (rebuild_snapshots env s)) = stored env (st_disk s)" by simp_all
qed

lemma maybe_rebuild_ok:
  assumes "store_inv env s"
  shows "store_inv env (maybe_rebuild_snapshots env s)"
    and "stored env (st_disk (maybe_rebuild_snapshots env s)) = stored env (st_disk s)"
  using assms rebuild_snapshots_ok[OF assms] by (simp_all add: maybe_rebuild_snapshots_def)

section \<open>Saving\<close>

lemma append_readable:
  "readable env (d\<lparr>dk_log := dk_log d @ log_lines env [m]\<rparr>) = readable env d @ [m]"
proof -
  let ?d = "d\<lparr>dk_log := dk_log d @ log_lines env [m]\<rparr>"
  have "read_snapshot_messages env ?d = read_snapshot_messages env d"
    by (rule read_snapshot_cong) simp_all
  moreover have "list_snapshots ?d = list_snapshots d" by (simp add: list_snapshots_def)
  ultimately show ?thesis by (simp only: readable_split read_active_append_line append_assoc)
qed

lemma append_stored:
  assumes "msg_id m \<notin> msg_id ` stored env d"
  shows "stored env (d\<lparr>dk_log := dk_log d @ log_lines env [m]\<rparr>) = insert m (stored env d)"
proof -
  have "msg_id m \<notin> msg_id ` set (readable env d)" using assms by (simp only: ids_stored) simp
  then show ?thesis by (simp only: stored_first append_readable first_by_id_snoc) simp
qed

lemma append_offsets:
  fixes env :: store_env and m :: message
  assumes "offsets_ok sq d"
  defines "d' \<equiv> d\<lparr>dk_log := dk_log d @ log_lines env [m]\<rparr>"
  shows "offsets_ok (seq_put m (int (log_size (dk_log d))) sq) d'"
proof (rule offsets_ok_put)
  have "read_message_at_offset p d' = Some x" if "read_message_at_offset p d = Some x" for p x
    using that line_at_append[of "nat p" "dk_log d" _ "log_lines env [m]"]
    by (auto simp: read_message_at_offset_def d'_def bind_eq_Some_conv split: if_splits)
  with assms(1) show "offsets_ok sq d'" unfolding offsets_ok_def by blast
  show "read_message_at_offset (int (log_size (dk_log d))) d' = Some m"
    by (simp add: read_message_at_offset_def d'_def line_at_end)
qed

lemma save_new:
  assumes "store_inv env s" and "msg_id m \<notin> st_ids s"
  shows "fst (save env m s)" and "store_inv env (snd (save env m s))"
    and "stored env (st_disk (snd (save env m s))) = insert m (stored env (st_disk s))"
proof -
  let ?d = "(st_disk s)\<lparr>dk_log := dk_log (st_disk s) @ log_lines env [m]\<rparr>"
  define s2 where "s2 = flush_indexes (s\<lparr>st_disk := ?d, st_ids := insert (msg_id m) (st_ids s),
     st_seq := seq_put m (int (log_size (dk_log (st_disk s)))) (st_seq s), st_latest := vc_bump m (st_latest s)\<rparr>)"
  have idx: "idx_ok (stored env (st_disk s)) (st_ids s) (st_seq s) (st_latest s)"
    and off: "offsets_ok (st_seq s) (st_disk s)" and dk: "disk_ok env (st_disk s)"
    using assms(1) by (simp_all add: store_inv_def index_ok_def)
  have fresh: "msg_id m \<notin> msg_id ` stored env (st_disk s)" using assms(2) idx by (simp add: idx_ok_def)
  have "inj_on msg_id (set (readable env ?d))"
    using dk fresh by (simp only: append_readable disk_ok_def ids_stored) auto
  then have inv: "store_inv env s2"
    using idx_ok_insert[OF idx] append_offsets[OF off] append_stored[OF fresh] dk
    by (simp add: s2_def store_inv_def index_ok_def disk_ok_def meta_wf_def)
  have st: "stored env (st_disk s2) = insert m (stored env (st_disk s))"
    using append_stored[OF fresh] by (simp add: s2_def)
  have "save env m s = (True, if st_rebuild s2 then maybe_rebuild_snapshots env s2 else maybe_create_snapshot env s2)"
    using assms(2) by (simp add: save_def append_to_log_def Let_def s2_def)
  then show "fst (save env m s)" "store_inv env (snd (save env m s))"
    "stored env (st_disk (snd (save env m s))) = insert m (stored env (st_disk s))"
    using maybe_rebuild_ok[OF inv] maybe_create_snapshot_ok[OF inv] st by simp_all
qed

lemma save_known: "msg_id m \<in> st_ids s \<Longrightarrow> save env m s = (False, s)"
  by (simp add: save_def)

section \<open>The recovery cursor\<close>

lemma safe_int_str_int_str [simp]: "safe_int_str (int_str q) = q"
  by (simp add: safe_int_str_def)

lemma no_gaps_covers:
  assumes "\<not> has_sender_sequence_gaps sq" and "lookup2 sq u (int_str q') \<noteq> None"
    and "0 < q" and "q \<le> q'"
  shows "\<exists>k. lookup2 sq u k \<noteq> None \<and> safe_int_str k = q"
proof -
  let ?sm = "get_or sq u []"
  have key: "int_str q' \<in> set (dict_keys ?sm)"
    using assms(2) by (auto simp: lookup2_def dest: map_of_in_keys)
  then have "?sm \<noteq> []" by auto
  then have "?sm \<in> set (dict_values sq)"
    by (auto simp: get_or_def split: option.splits dest!: map_of_SomeD intro: rev_image_eqI)
  moreover have mem: "q' \<in> set (seqs_of ?sm)"
    using key assms(3,4) by (auto simp: seqs_of_def image_iff) (metis fst_conv safe_int_str_int_str)
  ultimately have "seqs_of ?sm = [1..last (seqs_of ?sm)]"
    using assms(1) by (fastforce simp: has_sender_sequence_gaps_def list_ex_iff Let_def)
  then have "set (seqs_of ?sm) = {1..last (seqs_of ?sm)}" by (metis set_upto)
  with mem assms(3,4) have "q \<in> set (seqs_of ?sm)" by auto
  then obtain k where "k \<in> set (dict_keys ?sm)" "safe_int_str k = q" by (auto simp: seqs_of_def)
  then show ?thesis by (auto simp: lookup2_def map_of_eq_None_iff)
qed

lemma no_gaps_stored:
  assumes "\<not> has_sender_sequence_gaps sq" and "idx_ok R ids sq vc"
    and "0 < q" and "q \<le> vc_get vc u"
  shows "\<exists>m \<in> R. msg_sender m = u \<and> sender_seq m = q"
proof -
  from assms(3,4) obtain m' where "m' \<in> R" "msg_sender m' = u" "sender_seq m' = vc_get vc u"
    by (cases rule: idx_ok_latest_cases[OF assms(2), of u]) auto
  then have "lookup2 sq u (int_str (vc_get vc u)) \<noteq> None"
    unfolding idx_ok_keys[OF assms(2)] by auto
  from no_gaps_covers[OF assms(1) this assms(3,4)]
  obtain k where "lookup2 sq u k \<noteq> None" "safe_int_str k = q" by blast
  then show ?thesis unfolding idx_ok_keys[OF assms(2)] by auto
qed

lemma cursor_stored:
  "stored env (st_disk (snd (get_latest_vector_clock env s))) = stored env (st_disk s)"
  "index_ok env (snd (get_latest_vector_clock env s))"
  "disk_ok env (st_disk (snd (get_latest_vector_clock env s))) = disk_ok env (st_disk s)"
  using repair_ok[of env s] by (simp_all add: get_latest_vector_clock_def Let_def index_ok_def)

lemma repair_unforced_no_gaps:
  assumes "\<not> st_force (repair_indexes env s)"
  obtains ids sq vc dup where "repair_scan env (st_disk s) = (ids, sq, vc, dup)"
    "\<not> has_sender_sequence_gaps sq" "dict_eq (=) vc (st_latest (repair_indexes env s))
       \<or> vc = st_latest (repair_indexes env s)"
proof (rule repair_cases[of env s])
  fix ids sq vc dup force rebuild
  assume "repair_scan env (st_disk s) = (ids, sq, vc, dup)"
    "repair_indexes env s = flush_indexes (s\<lparr>st_force := force, st_rebuild := rebuild,
       st_ids := ids, st_seq := sq, st_latest := vc\<rparr>)"
    "has_sender_sequence_gaps sq \<or> \<not> st_ids s \<subseteq> ids \<Longrightarrow> force"
  with assms show thesis by (intro that[of ids sq vc dup]) auto
next
  fix ids sq vc dup
  assume "repair_scan env (st_disk s) = (ids, sq, vc, dup)" "dict_eq (=) vc (st_latest s)"
    "repair_indexes env s = flush_indexes (s\<lparr>st_force := True, st_rebuild := True\<rparr>)
       \<or> repair_indexes env s = s \<and> \<not> has_sender_sequence_gaps sq"
  with assms show thesis by (intro that[of ids sq vc dup]) auto
qed

text \<open>Whatever sequence number the cursor claims, the store can read that message: a gap
  makes the cursor empty.\<close>

lemma cursor_covers:
  assumes "0 < q" and "q \<le> vc_get (fst (get_latest_vector_clock env s)) u"
  shows "\<exists>m \<in> stored env (st_disk s). msg_sender m = u \<and> sender_seq m = q"
proof (cases "st_force (repair_indexes env s)")
  case True
  have idx: "idx_ok (stored env (st_disk s)) (st_ids (repair_indexes env s))
      (st_seq (repair_indexes env s)) (st_latest (repair_indexes env s))"
    using repair_ok(1,2)[of env s] by (simp add: index_ok_def)
  show ?thesis
  proof (cases "has_sender_sequence_gaps (st_seq (repair_indexes env s))")
    case True
    with \<open>st_force (repair_indexes env s)\<close> assms show ?thesis
      by (simp add: get_latest_vector_clock_def)
  next
    case False
    from no_gaps_stored[OF False idx assms(1)] True assms(2) False show ?thesis
      by (simp add: get_latest_vector_clock_def Let_def)
  qed
next
  case False
  then obtain ids sq vc dup where r: "repair_scan env (st_disk s) = (ids, sq, vc, dup)"
    "\<not> has_sender_sequence_gaps sq" "dict_eq (=) vc (st_latest (repair_indexes env s))
       \<or> vc = st_latest (repair_indexes env s)"
    by (rule repair_unforced_no_gaps)
  then have "vc_get vc u = vc_get (fst (get_latest_vector_clock env s)) u"
    using False by (auto simp: get_latest_vector_clock_def Let_def get_or_def dest: dict_eq_eq)
  with no_gaps_stored[OF r(2) conjunct1[OF repair_scan_ok[OF r(1)]] assms(1)] assms(2)
  show ?thesis by simp
qed

lemma empty_disk_ok: "disk_ok env empty_disk"
  by (simp add: disk_ok_def meta_wf_def empty_disk_def readable_def iter_readable_def list_snapshots_def
      read_active_with_offsets_def List.map_filter_simps)

lemma empty_stored: "stored env empty_disk = {}"
  by (simp add: stored_first empty_disk_def readable_def iter_readable_def list_snapshots_def
      read_active_with_offsets_def List.map_filter_simps)

end
