(* ===== verification/Recovery.thy ===== *)
theory Recovery
  imports Store_Invariant Broadcast_Node
begin

text \<open>
  Recovery of missed messages: \<open>recovery_stream.py\<close>, \<open>recovery_fanout.py\<close>,
  \<open>node_setup.py\<close> and \<open>history_service.py\<close> of \<open>message_history/storage\<close>.
  A transport message carries its payload as JSON text; it is represented by the JSON value
  (\<open>None\<close> for a content \<open>json.loads\<close> rejects) and its destination. \<open>uuid4()\<close> is an
  argument. What the handlers send is part of their result; \<open>send_to_peer\<close> itself is in
  \<^theory_text>\<open>Broadcast_Node\<close>.

  Shown, through an interface that only states what saving and the cursor promise: after
  asking a peer for what is missing and saving what it streams, a node holds every
  sequenced message the peer held.
\<close>

section \<open>Streaming\<close>

definition HISTORY_CHUNK :: string where "HISTORY_CHUNK = ''history_chunk''"

definition RECOVER_REQUEST :: string where "RECOVER_REQUEST = ''recover_request''"

type_synonym sends = "(addr \<times> json) list"

record stream_stats =
  ss_transfer_id :: string
  ss_target :: addr
  ss_chunks_sent :: nat
  ss_messages_sent :: nat

text \<open>\<open>transfer_id or str(uuid.uuid4())\<close>.\<close>

definition or_uuid :: "string option \<Rightarrow> string \<Rightarrow> string" where
  "or_uuid tid uuid = (case tid of None \<Rightarrow> uuid | Some t \<Rightarrow> if t = [] then uuid else t)"

definition chunk_payload :: "string \<Rightarrow> history_chunk \<Rightarrow> json" where
  "chunk_payload self c = JObj
     [(''type'', JStr HISTORY_CHUNK), (''transfer_id'', JStr (hc_transfer_id c)),
      (''chunk_id'', JInt (int (hc_chunk_id c))), (''is_snapshot'', JBool False),
      (''is_last'', JBool (hc_is_last c)), (''messages'', JList (hc_messages c)),
      (''source_user_id'', JStr self)]"

text \<open>\<open>None\<close> is the \<open>ValueError\<close> of \<open>build_history_chunks\<close>.\<close>

definition stream_missing_history ::
  "store_env \<Rightarrow> string \<Rightarrow> addr \<Rightarrow> (string, json) dict \<Rightarrow> string option \<Rightarrow> string \<Rightarrow> int \<Rightarrow> store \<Rightarrow>
   (stream_stats \<times> sends) option" where
  "stream_missing_history env self target have tid uuid chunk_size s =
     (let transfer_id = or_uuid tid uuid in
      map_option (\<lambda>chunks.
        (\<lparr>ss_transfer_id = transfer_id, ss_target = target, ss_chunks_sent = length chunks,
          ss_messages_sent = sum_list (map (\<lambda>c. length (hc_messages c)) chunks)\<rparr>,
         map (\<lambda>c. (target, chunk_payload self c)) chunks))
      (build_history_chunks env have transfer_id chunk_size s))"

definition clock_json :: "clock \<Rightarrow> (string, json) dict" where
  "clock_json vc = map (\<lambda>(u, q). (u, JInt q)) vc"

definition send_recover_request ::
  "store_env \<Rightarrow> string \<Rightarrow> addr \<Rightarrow> addr \<Rightarrow> string option \<Rightarrow> string \<Rightarrow> store \<Rightarrow> (clock \<times> sends) \<times> store" where
  "send_recover_request env self provider requester tid uuid s =
     (let (have, s') = get_latest_vector_clock env s in
      ((have, [(provider, JObj
         [(''type'', JStr RECOVER_REQUEST), (''transfer_id'', JStr (or_uuid tid uuid)),
          (''requester_id'', JStr self), (''requester_host'', JStr (fst requester)),
          (''requester_port'', JInt (snd requester)), (''have_vector_clock'', JObj (clock_json have))])]), s'))"

section \<open>Handling recovery messages\<close>

datatype handle_error = AttributeError | TypeError

datatype handled =
    NotHandled string
  | RecoverHandled stream_stats
  | ChunkHandled "json option" "json option" bool save_counts

definition handle_recover_request ::
  "store_env \<Rightarrow> string \<Rightarrow> string \<Rightarrow> json \<Rightarrow> store \<Rightarrow> handled \<times> sends" where
  "handle_recover_request env self uuid payload s =
     (case (jget payload ''requester_host'' \<bind> as_str, jget payload ''requester_port'' \<bind> py_int_of) of
        (Some host, Some port) \<Rightarrow>
          let have = (case jget payload ''have_vector_clock'' of Some (JObj kvs) \<Rightarrow> kvs | _ \<Rightarrow> []);
              tid = (case jget payload ''transfer_id'' of Some (JStr t) \<Rightarrow> Some t | _ \<Rightarrow> None)
          in (case stream_missing_history env self (host, port) have tid uuid 100 s of
                Some (stats, out) \<Rightarrow> (RecoverHandled stats, out)
              | None \<Rightarrow> (NotHandled ''invalid_recover_request'', []))
      | _ \<Rightarrow> (NotHandled ''invalid_recover_request'', []))"

definition handle_history_chunk ::
  "store_env \<Rightarrow> json \<Rightarrow> store \<Rightarrow> handle_error + handled \<times> store" where
  "handle_history_chunk env payload s =
     (case jget_or payload ''messages'' as_list [] of
        None \<Rightarrow> Inl TypeError
      | Some raw \<Rightarrow>
          let (r, s') = save_many env (map msg_from_dict raw) s in
          Inr (ChunkHandled (jget payload ''transfer_id'') (jget payload ''chunk_id'')
                 (case jget payload ''is_last'' of None \<Rightarrow> False | Some v \<Rightarrow> truthy v) r, s'))"

definition handle_transport_message ::
  "store_env \<Rightarrow> string \<Rightarrow> string \<Rightarrow> json option \<Rightarrow> store \<Rightarrow> handle_error + handled \<times> sends \<times> store" where
  "handle_transport_message env self uuid content s =
     (case content of
        None \<Rightarrow> Inr (NotHandled ''not_json'', [], s)
      | Some (JObj kvs) \<Rightarrow>
          let payload = JObj kvs in
          if jget payload ''type'' = Some (JStr RECOVER_REQUEST) then
            let (r, out) = handle_recover_request env self uuid payload s in Inr (r, out, s)
          else if jget payload ''type'' = Some (JStr HISTORY_CHUNK) then
            (case handle_history_chunk env payload s of
               Inl e \<Rightarrow> Inl e | Inr (r, s') \<Rightarrow> Inr (r, [], s'))
          else Inr (NotHandled ''not_recovery_message'', [], s)
      | Some _ \<Rightarrow> Inl AttributeError)"

section \<open>Asking every peer\<close>

fun pick_targets :: "string set \<Rightarrow> string set \<Rightarrow> addr list \<Rightarrow> addr list" where
  "pick_targets excluded seen [] = []"
| "pick_targets excluded seen (p # ps) =
     (if addr_str p \<in> excluded \<or> addr_str p \<in> seen then pick_targets excluded seen ps
      else p # pick_targets excluded (insert (addr_str p) seen) ps)"

definition resolve_recovery_targets :: "string \<Rightarrow> addr \<Rightarrow> addr list option \<Rightarrow> addr list \<Rightarrow> addr list" where
  "resolve_recovery_targets self requester peer_addresses registry_peers =
     pick_targets {addr_str requester, self} {}
       (case peer_addresses of None \<Rightarrow> registry_peers | Some ps \<Rightarrow> ps)"

fun request_each ::
  "store_env \<Rightarrow> string \<Rightarrow> addr \<Rightarrow> string \<Rightarrow> addr list \<Rightarrow> store \<Rightarrow> sends \<times> store" where
  "request_each env self requester tid [] s = ([], s)"
| "request_each env self requester tid (p # ps) s =
     (let ((have, out), s') = send_recover_request env self p requester (Some tid) [] s;
          (out', s'') = request_each env self requester tid ps s'
      in (out @ out', s''))"

definition request_missing_history_from_all_peers ::
  "store_env \<Rightarrow> string \<Rightarrow> addr \<Rightarrow> addr list option \<Rightarrow> addr list \<Rightarrow> string option \<Rightarrow> string \<Rightarrow> store \<Rightarrow>
   (string \<times> clock \<times> addr list) \<times> sends \<times> store" where
  "request_missing_history_from_all_peers env self requester peer_addresses registry_peers tid uuid s =
     (let transfer_id = or_uuid tid uuid;
          (have, s') = get_latest_vector_clock env s;
          targets = resolve_recovery_targets self requester peer_addresses registry_peers;
          (out, s'') = request_each env self requester transfer_id targets s'
      in ((transfer_id, have, targets), out, s''))"

section \<open>Wiring a node to its store\<close>

definition to_storage_message :: "message \<Rightarrow> message" where
  "to_storage_message m = \<lparr>msg_content = msg_content m, msg_sender = msg_sender m, msg_id = msg_id m,
     msg_timestamp = msg_timestamp m, msg_signature = msg_signature m, msg_ttl = msg_ttl m,
     msg_vector_clock = msg_vector_clock m\<rparr>"

text \<open>The result names the clock passed to \<open>node.sync_vector_clock\<close>, if any; the node applies it
  with \<open>_apply_vc_sync\<close>.\<close>

definition handle_storage_message ::
  "store_env \<Rightarrow> string \<Rightarrow> string \<Rightarrow> message \<Rightarrow> json option \<Rightarrow> store \<Rightarrow>
   handle_error + handled \<times> sends \<times> clock option \<times> store" where
  "handle_storage_message env self uuid transport_msg content s =
     (case handle_transport_message env self uuid content s of
        Inl e \<Rightarrow> Inl e
      | Inr (NotHandled reason, out, s') \<Rightarrow>
          Inr (NotHandled reason, out, None, snd (save env (to_storage_message transport_msg) s'))
      | Inr (ChunkHandled t c True r, out, s') \<Rightarrow>
          let (vc, s'') = get_latest_vector_clock env s' in Inr (ChunkHandled t c True r, out, Some vc, s'')
      | Inr (r, out, s') \<Rightarrow> Inr (r, out, None, s'))"

definition sync_node_vector_clock :: "store_env \<Rightarrow> store \<Rightarrow> node \<Rightarrow> node \<times> store" where
  "sync_node_vector_clock env s n =
     (let (latest_vc, s') = get_latest_vector_clock env s in
      (if latest_vc \<noteq> [] then n\<lparr>n_vc := merge (n_vc n) latest_vc\<rparr> else n, s'))"

definition wire_node :: "store_env \<Rightarrow> store_disk \<Rightarrow> node \<Rightarrow> node \<times> store" where
  "wire_node env d n =
     sync_node_vector_clock env (open_store env (Some DEFAULT_SNAPSHOT_THRESHOLD) d) n"

section \<open>The service\<close>

record history_service =
  hs_addr :: addr
  hs_clean :: bool
  hs_wiring :: "store option"

datatype service_error = RuntimeError | Escaped handle_error

text \<open>\<open>start\<close> opens the store under the service's storage root, emptied first when
  \<open>clean_storage\<close> is set; it does nothing the second time.\<close>

definition service_start ::
  "store_env \<Rightarrow> store_disk \<Rightarrow> node \<Rightarrow> history_service \<Rightarrow> node \<times> history_service" where
  "service_start env d n hs =
     (case hs_wiring hs of
        Some s \<Rightarrow> (n, hs)
      | None \<Rightarrow>
          let (n', s) = wire_node env (if hs_clean hs then empty_disk else d) n
          in (n', hs\<lparr>hs_wiring := Some s\<rparr>))"

definition require_started :: "history_service \<Rightarrow> service_error + store" where
  "require_started hs = (case hs_wiring hs of None \<Rightarrow> Inl RuntimeError | Some s \<Rightarrow> Inr s)"

definition service_handle_message ::
  "store_env \<Rightarrow> string \<Rightarrow> message \<Rightarrow> json option \<Rightarrow> history_service \<Rightarrow>
   service_error + handled \<times> sends \<times> clock option \<times> history_service" where
  "service_handle_message env uuid m content hs =
     (case require_started hs of
        Inl e \<Rightarrow> Inl e
      | Inr s \<Rightarrow>
          (case handle_storage_message env (addr_str (hs_addr hs)) uuid m content s of
             Inl e \<Rightarrow> Inl (Escaped e)
           | Inr (r, out, vc, s') \<Rightarrow> Inr (r, out, vc, hs\<lparr>hs_wiring := Some s'\<rparr>)))"

definition service_request_missing_history ::
  "store_env \<Rightarrow> addr list option \<Rightarrow> addr list \<Rightarrow> string option \<Rightarrow> string \<Rightarrow> history_service \<Rightarrow>
   service_error + (string \<times> clock \<times> addr list) \<times> sends \<times> history_service" where
  "service_request_missing_history env peer_addresses registry_peers tid uuid hs =
     (case require_started hs of
        Inl e \<Rightarrow> Inl e
      | Inr s \<Rightarrow>
          let (r, out, s') = request_missing_history_from_all_peers env (addr_str (hs_addr hs)) (hs_addr hs)
                peer_addresses registry_peers tid uuid s
          in Inr (r, out, hs\<lparr>hs_wiring := Some s'\<rparr>))"

definition get_recent_messages ::
  "store_env \<Rightarrow> int \<Rightarrow> history_service \<Rightarrow> service_error + (string \<times> string \<times> time \<times> string) list" where
  "get_recent_messages env limit hs =
     (case require_started hs of
        Inl e \<Rightarrow> Inl e
      | Inr s \<Rightarrow> Inr (map (\<lambda>m. (msg_id m, msg_sender m, msg_timestamp m, msg_content m))
                      (get_recent env limit s)))"

section \<open>What recovery needs of a store\<close>

locale message_archive =
  fixes inv :: "'s \<Rightarrow> bool"
    and held :: "'s \<Rightarrow> message set"
    and put :: "message \<Rightarrow> 's \<Rightarrow> bool \<times> 's"
    and cursor :: "'s \<Rightarrow> clock \<times> 's"
  assumes put_known: "inv s \<Longrightarrow> msg_id m \<in> msg_id ` held s \<Longrightarrow> put m s = (False, s)"
    and put_new: "inv s \<Longrightarrow> msg_id m \<notin> msg_id ` held s \<Longrightarrow>
      fst (put m s) \<and> inv (snd (put m s)) \<and> held (snd (put m s)) = insert m (held s)"
    and cursor_keeps: "inv s \<Longrightarrow> inv (snd (cursor s)) \<and> held (snd (cursor s)) = held s"
    and cursor_backed: "inv s \<Longrightarrow> 0 < q \<Longrightarrow> q \<le> vc_get (fst (cursor s)) u \<Longrightarrow>
      \<exists>m \<in> held s. msg_sender m = u \<and> sender_seq m = q"
begin

lemma put_inv: "inv s \<Longrightarrow> inv (snd (put m s))"
  using put_known[of s m] put_new[of s m] by (cases "msg_id m \<in> msg_id ` held s") auto

lemma held_put:
  "inv s \<Longrightarrow> held (snd (put m s)) = (if msg_id m \<in> msg_id ` held s then held s else insert m (held s))"
  using put_known[of s m] put_new[of s m] by auto

text \<open>A state that took in some messages: nothing is lost, nothing else appears, and every
  identifier is known.\<close>

definition absorbed :: "'s \<Rightarrow> message list \<Rightarrow> 's \<Rightarrow> bool" where
  "absorbed s ms t \<longleftrightarrow> inv t \<and> held s \<subseteq> held t \<and> held t \<subseteq> held s \<union> set ms \<and>
     msg_id ` held t = msg_id ` held s \<union> msg_id ` set ms"

lemma absorbed_same: "inv t \<Longrightarrow> held t = held s \<Longrightarrow> absorbed s [] t"
  by (simp add: absorbed_def)

lemma absorbed_inv: "absorbed s ms t \<Longrightarrow> inv t"
  by (simp add: absorbed_def)

lemma absorbed_put: "inv s \<Longrightarrow> absorbed s [m] (snd (put m s))"
  using put_inv[of s m] held_put[of s m] by (auto simp: absorbed_def split: if_splits)

lemma absorbed_trans: "absorbed s ms t \<Longrightarrow> absorbed t ns u \<Longrightarrow> absorbed s (ms @ ns) u"
  unfolding absorbed_def by (elim conjE, intro conjI, assumption, blast, fastforce, simp add: image_Un Un_assoc)

text \<open>The requester holds every sequenced message of the provider once it has taken in what
  the provider has beyond the requester's cursor.\<close>

lemma recovered:
  assumes "inv a" and "absorbed (snd (cursor a)) ms t"
    and beyond: "set ms = {m \<in> P. sender_seq m > vc_get (fst (cursor a)) (msg_sender m)}"
    and agree: "\<And>m m'. m \<in> held a \<union> P \<Longrightarrow> m' \<in> P \<Longrightarrow> msg_id m = msg_id m' \<or>
      msg_sender m = msg_sender m' \<and> sender_seq m = sender_seq m' \<and> sender_seq m > 0 \<Longrightarrow> m = m'"
    and "m \<in> P" and "0 < sender_seq m"
  shows "m \<in> held t"
proof (cases "sender_seq m > vc_get (fst (cursor a)) (msg_sender m)")
  case True
  have p: "held t \<subseteq> held a \<union> set ms" "msg_id ` held t = msg_id ` held a \<union> msg_id ` set ms"
    using assms(2) cursor_keeps[OF assms(1)] by (simp_all add: absorbed_def)
  from True assms(5) beyond have "msg_id m \<in> msg_id ` set ms" by auto
  then have "msg_id m \<in> msg_id ` held t" unfolding p(2) by (rule UnI2)
  then obtain m' where m': "m' \<in> held t" "msg_id m' = msg_id m" by (elim imageE) simp
  with p(1) beyond have "m' \<in> held a \<union> P" by auto
  with agree[of m' m] m' assms(5) show ?thesis by simp
next
  case False
  with cursor_backed[OF assms(1,6), of "msg_sender m"]
  obtain m' where "m' \<in> held a" "msg_sender m' = msg_sender m" "sender_seq m' = sender_seq m" by auto
  with agree[of m' m] assms(5,6) have "m \<in> held a" by simp
  with cursor_keeps[OF assms(1)] assms(2) show ?thesis by (auto simp: absorbed_def)
qed

end

text \<open>The message store is such an archive.\<close>

interpretation archive: message_archive
  "store_inv env" "\<lambda>s. stored env (st_disk s)" "save env" "get_latest_vector_clock env" for env
proof unfold_locales
  show "save env m s = (False, s)" if "store_inv env s" "msg_id m \<in> msg_id ` stored env (st_disk s)" for s m
    using that store_inv_ids[of env s] by (intro save_known) simp
  show "fst (save env m s) \<and> store_inv env (snd (save env m s)) \<and>
      stored env (st_disk (snd (save env m s))) = insert m (stored env (st_disk s))"
    if "store_inv env s" "msg_id m \<notin> msg_id ` stored env (st_disk s)" for s m
    using that save_new[of env s m] store_inv_ids[of env s] by simp
  show "store_inv env (snd (get_latest_vector_clock env s)) \<and>
      stored env (st_disk (snd (get_latest_vector_clock env s))) = stored env (st_disk s)"
    if "store_inv env s" for s
    using that by (simp add: store_inv_def cursor_stored)
qed (rule cursor_covers)

section \<open>Taking in chunks\<close>

lemma save_each_absorbed:
  assumes "store_inv env s"
  shows "archive.absorbed env s ms (snd (save_each env (map Some ms) s r))"
  using assms
proof (induction ms arbitrary: s r)
  case (Cons m ms)
  have p: "archive.absorbed env s [m] (snd (save env m s))"
    using Cons.prems by (rule archive.absorbed_put)
  show ?case
    using archive.absorbed_trans[OF p Cons.IH[OF archive.absorbed_inv[OF p]]]
    by (simp add: case_prod_unfold Let_def)
qed (simp add: archive.absorbed_same)

lemma save_many_absorbed:
  assumes "store_inv env s"
  shows "archive.absorbed env s ms (snd (save_many env (map Some ms) s))"
proof -
  let ?t = "snd (save_each env (map Some ms) s \<lparr>sc_saved = 0, sc_duplicates = 0, sc_invalid = 0\<rparr>)"
  have e: "archive.absorbed env s ms ?t" using assms by (rule save_each_absorbed)
  note i = archive.absorbed_inv[OF e]
  have "archive.absorbed env ?t [] (maybe_rebuild_snapshots env ?t)"
    using maybe_rebuild_ok[OF i] by (intro archive.absorbed_same)
  from archive.absorbed_trans[OF e this] e show ?thesis
    by (simp add: save_many_def case_prod_unfold Let_def)
qed

lemma save_each_counts:
  "sc_saved (fst (save_each env ms s r)) + sc_duplicates (fst (save_each env ms s r)) =
     sc_saved r + sc_duplicates r + length (filter (\<lambda>m. m \<noteq> None) ms)"
  "sc_invalid (fst (save_each env ms s r)) = sc_invalid r + length (filter (\<lambda>m. m = None) ms)"
proof (induction ms arbitrary: s r)
  case (Cons x ms)
  { case 1 show ?case using Cons(1) by (cases x) (simp_all add: case_prod_unfold Let_def) }
  { case 2 show ?case using Cons(2) by (cases x) (simp_all add: case_prod_unfold Let_def) }
qed simp_all

text \<open>Handing received payloads to the streamer one after the other.\<close>

fun deliver_all :: "store_env \<Rightarrow> string \<Rightarrow> string \<Rightarrow> sends \<Rightarrow> store \<Rightarrow> handle_error + store" where
  "deliver_all env self uuid [] s = Inr s"
| "deliver_all env self uuid ((to, payload) # out) s =
     (case handle_transport_message env self uuid (Some payload) s of
        Inl e \<Rightarrow> Inl e
      | Inr (r, _, s') \<Rightarrow> deliver_all env self uuid out s')"

lemma handle_chunk_payload:
  assumes "hc_messages c = map msg_to_dict ms"
  shows "\<exists>r. handle_transport_message env self uuid (Some (chunk_payload src c)) s =
    Inr (r, [], snd (save_many env (map Some ms) s))"
  using assms
  by (simp add: handle_transport_message_def chunk_payload_def handle_history_chunk_def jget_or_def
      HISTORY_CHUNK_def RECOVER_REQUEST_def Let_def case_prod_unfold comp_def)

lemma deliver_chunks:
  assumes "store_inv env s" and "list_all2 (\<lambda>c ms. hc_messages c = map msg_to_dict ms) cs mss"
  shows "\<exists>t. deliver_all env self uuid (map (\<lambda>c. (to, chunk_payload src c)) cs) s = Inr t \<and>
    archive.absorbed env s (concat mss) t"
  using assms(2,1)
proof (induction cs mss arbitrary: s rule: list_all2_induct)
  case Nil
  then show ?case by (simp add: archive.absorbed_same)
next
  case (Cons c cs ms mss)
  let ?s = "snd (save_many env (map Some ms) s)"
  have a: "archive.absorbed env s ms ?s" using Cons.prems by (rule save_many_absorbed)
  from Cons.IH[OF archive.absorbed_inv[OF a]]
  obtain t where t: "deliver_all env self uuid (map (\<lambda>c. (to, chunk_payload src c)) cs) ?s = Inr t"
    "archive.absorbed env ?s (concat mss) t" by blast
  obtain r where r: "handle_transport_message env self uuid (Some (chunk_payload src c)) s = Inr (r, [], ?s)"
    using handle_chunk_payload[OF Cons.hyps(1)] by blast
  have "deliver_all env self uuid (map (\<lambda>c. (to, chunk_payload src c)) (c # cs)) s = Inr t"
    by (simp only: list.map deliver_all.simps r sum.case prod.case t(1))
  moreover have "archive.absorbed env s (concat (ms # mss)) t"
    using archive.absorbed_trans[OF a t(2)] by simp
  ultimately show ?case by blast
qed

section \<open>What the provider streams\<close>

lemma vc_of_clock_json [simp]: "safe_int (get_or (clock_json vc) u (JInt 0)) = vc_get vc u"
  by (induction vc) (auto simp: clock_json_def safe_int_def)

lemma missing_read_all:
  "get_missing_since env have s =
     filter (\<lambda>m. sender_seq m > safe_int (get_or have (msg_sender m) (JInt 0)))
       (read_all_messages env (st_disk s))"
  using first_by_id_distinct[OF distinct_read_all, of env "st_disk s" "{}"] by (simp add: get_missing_since_def)

lemma build_chunks:
  assumes "0 < chunk_size"
  shows "\<exists>cs. build_history_chunks env have tid chunk_size s = Some cs \<and>
    list_all2 (\<lambda>c ms. hc_messages c = map msg_to_dict ms) cs (slices (nat chunk_size) (get_missing_since env have s))"
  using assms by (auto simp: build_history_chunks_def Let_def list_all2_conv_all_nth nth_enumerate_eq)

end
