(* ===== verification/History_Properties.thy ===== *)
theory History_Properties
  imports Recovery
begin

text \<open>
  The properties of the message history: what saving, opening, compacting and recovery
  guarantee, and where they do not.
\<close>

section \<open>A concrete store\<close>

definition wit_env :: store_env where
  "wit_env = \<lparr>sv_len = (\<lambda>_. 40), sv_sha = (\<lambda>ls. nat_str (length ls)), sv_now = 0\<rparr>"

definition wit_msg :: "string \<Rightarrow> string \<Rightarrow> int \<Rightarrow> time \<Rightarrow> message" where
  "wit_msg i u q t = \<lparr>msg_content = ''hi'', msg_sender = u, msg_id = i, msg_timestamp = t,
     msg_signature = [], msg_ttl = 3, msg_vector_clock = [(u, q)]\<rparr>"

lemma new_store_inv: "store_inv env (open_store env t empty_disk)"
  by (simp add: store_inv_def open_store_ok empty_disk_ok)

lemma saved_store_inv: "store_inv env s \<Longrightarrow> store_inv env (snd (save_many env (map Some ms) s))"
  by (rule archive.absorbed_inv[OF save_many_absorbed])

definition wit_store :: "message list \<Rightarrow> store" where
  "wit_store ms = snd (save_many wit_env (map Some ms) (open_store wit_env (Some 2) empty_disk))"

lemma wit_store_inv: "store_inv wit_env (wit_store ms)"
  unfolding wit_store_def by (rule saved_store_inv[OF new_store_inv])

section \<open>Saving\<close>

text \<open>C14. In a store that satisfies its invariant, saving a message with an unknown identifier
  returns True and afterwards exactly that message is readable in addition, in time order
  and without duplicate identifiers, whether or not the save triggers a compaction or a
  rebuild of the snapshots; saving a message with a known identifier returns False and
  changes nothing. The invariant holds again.\<close>

theorem save_stores_exactly:
  assumes "store_inv env s"
  shows "save env m s = (False, s) \<and> has_message s (msg_id m) \<or>
    \<not> has_message s (msg_id m) \<and> fst (save env m s) \<and> has_message (snd (save env m s)) (msg_id m) \<and>
    store_inv env (snd (save env m s)) \<and>
    mset (read_all_messages env (st_disk (snd (save env m s)))) =
      add_mset m (mset (read_all_messages env (st_disk s))) \<and>
    sorted (map msg_timestamp (read_all_messages env (st_disk (snd (save env m s)))))"
proof (cases "msg_id m \<in> st_ids s")
  case True
  then show ?thesis by (simp add: save_known has_message_def)
next
  case False
  note new = save_new[OF assms False]
  have d: "distinct (read_all_messages env d)" for d
    using distinct_read_all[of env d] by (simp add: distinct_map)
  have "m \<notin> stored env (st_disk s)" using False store_inv_ids[OF assms] by auto
  then have "mset (read_all_messages env (st_disk (snd (save env m s)))) =
      add_mset m (mset (read_all_messages env (st_disk s)))"
    using new(3) d[of "st_disk s"] d[of "st_disk (snd (save env m s))"]
    by (simp add: stored_def mset_set_set[symmetric])
  moreover have "msg_id m \<in> st_ids (snd (save env m s))"
    using new(3) store_inv_ids[OF new(2)] by auto
  ultimately show ?thesis
    using False new(1,2) by (simp add: has_message_def read_all_messages_def)
qed

theorem save_stores_exactly_witness:
  "store_inv wit_env (wit_store [wit_msg ''a'' ''x'' 1 5, wit_msg ''b'' ''x'' 2 4]) \<and>
   fst (save wit_env (wit_msg ''c'' ''y'' 1 1) (wit_store [wit_msg ''a'' ''x'' 1 5, wit_msg ''b'' ''x'' 2 4]))"
proof -
  have "\<not> has_message (wit_store [wit_msg ''a'' ''x'' 1 5, wit_msg ''b'' ''x'' 2 4]) (msg_id (wit_msg ''c'' ''y'' 1 1))"
    by code_simp
  with save_stores_exactly[OF wit_store_inv[of "[wit_msg ''a'' ''x'' 1 5, wit_msg ''b'' ''x'' 2 4]"],
      of "wit_msg ''c'' ''y'' 1 1"]
  show ?thesis using wit_store_inv by blast
qed

section \<open>Opening\<close>




section \<open>Compaction\<close>



text \<open>Rebuilding the snapshots after a recovery has no such guarantee: it begins by deleting
  every snapshot, and until the new ones are written only the active log can be
  read.\<close>

theorem rebuild_deletes_first:
  assumes "meta_wf d"
  shows "set (readable env (delete_snapshot_files d)) = set (read_active_messages d)"
proof -
  have "read_active_messages (delete_snapshot_files d) = read_active_messages d"
    by (simp add: delete_snapshot_files_def read_active_messages_def read_active_with_offsets_def)
  then show ?thesis by (simp add: set_readable[OF meta_wf_delete[OF assms]] read_snapshot_deleted)
qed

section \<open>Recovery\<close>

text \<open>C26. The history chunks for a cursor partition, in order, the readable messages beyond the
  cursor into pieces of at most the chunk size, numbered from one, of which only the last is
  marked last; a chunk size that is not positive is a ValueError.\<close>

theorem chunks_partition:
  "build_history_chunks env have tid n s = None \<and> n \<le> 0 \<or>
   (\<exists>cs. build_history_chunks env have tid n s = Some cs \<and> 0 < n \<and>
      concat (map hc_messages cs) = map msg_to_dict (filter
        (\<lambda>m. sender_seq m > safe_int (get_or have (msg_sender m) (JInt 0))) (read_all_messages env (st_disk s))) \<and>
      map hc_chunk_id cs = [1..<length cs + 1] \<and>
      list_all (\<lambda>c. hc_messages c \<noteq> [] \<and> length (hc_messages c) \<le> nat n) cs \<and>
      map hc_is_last cs = (if cs = [] then [] else replicate (length cs - 1) False @ [True]))"
proof (cases "n \<le> 0")
  case True
  then show ?thesis by (simp add: build_history_chunks_def)
next
  case False
  define xs where "xs = get_missing_since env have s"
  define cs where "cs = map (\<lambda>(i, ms). \<lparr>hc_transfer_id = tid, hc_chunk_id = i + 1,
    hc_is_last = (i * nat n + nat n \<ge> length xs), hc_messages = map msg_to_dict ms\<rparr>)
    (enumerate 0 (slices (nat n) xs))"
  have n: "0 < nat n" using False by simp
  have len: "length cs = length (slices (nat n) xs)" by (simp add: cs_def)
  have nth: "cs ! i = \<lparr>hc_transfer_id = tid, hc_chunk_id = i + 1,
      hc_is_last = (i * nat n + nat n \<ge> length xs), hc_messages = map msg_to_dict (slices (nat n) xs ! i)\<rparr>"
    if "i < length cs" for i
    using that by (simp add: cs_def nth_enumerate_eq)
  have msgs: "map hc_messages cs = map (map msg_to_dict) (slices (nat n) xs)"
    by (rule nth_equalityI) (simp_all add: nth len)
  have "build_history_chunks env have tid n s = Some cs"
    using False unfolding build_history_chunks_def Let_def cs_def xs_def by simp
  moreover have "concat (map hc_messages cs) = map msg_to_dict xs"
    unfolding msgs map_concat[symmetric] concat_slices[OF n] ..
  moreover have "map hc_chunk_id cs = [1..<length cs + 1]"
    by (rule nth_equalityI) (simp_all add: nth del: upt_Suc)
  moreover have "list_all (\<lambda>c. hc_messages c \<noteq> [] \<and> length (hc_messages c) \<le> nat n) cs"
    using slices_nonempty[OF n, of _ xs] slices_length[of _ "nat n" xs]
    by (auto simp: list_all_length nth len intro: nth_mem)
  moreover have "map hc_is_last cs = (if cs = [] then [] else replicate (length cs - 1) False @ [True])"
  proof (cases "cs = []")
    case False
    have "map hc_is_last cs = replicate (length cs - 1) False @ [True]"
    proof (rule nth_equalityI)
      fix i assume i: "i < length (map hc_is_last cs)"
      then have "map hc_is_last cs ! i = (Suc i = length cs)"
        using slices_last[OF n, of i xs] by (simp add: nth len)
      with i show "map hc_is_last cs ! i = (replicate (length cs - 1) False @ [True]) ! i"
        by (auto simp: nth_append)
    qed (use False in simp)
    with False show ?thesis by simp
  qed simp
  ultimately show ?thesis
    using False missing_read_all[of env "have" s] unfolding xs_def by auto
qed




section \<open>Chat messages\<close>



section \<open>Clocks after a restart\<close>

text \<open>Wiring a node to its history raises the node's clock to every positive readable
  sequence number, unless the history has a gap: then the cursor is empty and the clock stays as it
  was.\<close>

theorem wired_clock_covers_history:
  assumes "wire_node env d n = (n', s)"
  shows "(\<forall>m \<in> stored env d. 0 < sender_seq m \<longrightarrow> sender_seq m \<le> vc_get (n_vc n') (msg_sender m)) \<or>
    n' = n \<and> fst (get_latest_vector_clock env (open_store env (Some DEFAULT_SNAPSHOT_THRESHOLD) d)) = []"
proof (cases "fst (get_latest_vector_clock env (open_store env (Some DEFAULT_SNAPSHOT_THRESHOLD) d)) = []")
  case True
  with assms show ?thesis by (auto simp: wire_node_def sync_node_vector_clock_def case_prod_unfold Let_def)
next
  case False
  let ?o = "open_store env (Some DEFAULT_SNAPSHOT_THRESHOLD) d"
  let ?r = "repair_indexes env ?o"
  have l: "fst (get_latest_vector_clock env ?o) = st_latest ?r"
    using False by (auto simp: get_latest_vector_clock_def Let_def split: if_splits)
  have i: "idx_ok (stored env d) (st_ids ?r) (st_seq ?r) (st_latest ?r)"
    using repair_ok(1,2)[of env ?o] open_store_ok(2)[of env "Some DEFAULT_SNAPSHOT_THRESHOLD" d]
    by (simp add: index_ok_def)
  have "n_vc n' = merge (n_vc n) (st_latest ?r)"
    using assms False l by (auto simp: wire_node_def sync_node_vector_clock_def case_prod_unfold Let_def)
  then have "sender_seq m \<le> vc_get (n_vc n') (msg_sender m)" if "m \<in> stored env d" "0 < sender_seq m" for m
    using idx_ok_latest_le[OF i that(1)] that(2) merge_mono_right[of "st_latest ?r" "msg_sender m" "n_vc n"] by simp
  then show ?thesis by blast
qed

definition wit_disk :: "store_disk" where
  "wit_disk = empty_disk\<lparr>dk_log := log_lines wit_env [wit_msg ''a'' ''n:1'' 1 5, wit_msg ''b'' ''n:1'' 2 6]\<rparr>"

theorem wired_clock_covers_history_witness:
  "vc_get (n_vc (fst (wire_node wit_env wit_disk (new_node ''n'' 1 False)))) ''n:1'' \<ge> 2"
proof -
  have m: "wit_msg ''b'' ''n:1'' 2 6 \<in> stored wit_env wit_disk"
    unfolding stored_def by code_simp
  have ne: "fst (get_latest_vector_clock wit_env (open_store wit_env (Some DEFAULT_SNAPSHOT_THRESHOLD) wit_disk)) \<noteq> []"
    by code_simp
  have "sender_seq (wit_msg ''b'' ''n:1'' 2 6) = 2" "msg_sender (wit_msg ''b'' ''n:1'' 2 6) = ''n:1''"
    by (simp_all add: sender_seq_def wit_msg_def)
  with wired_clock_covers_history[of wit_env wit_disk "new_node ''n'' 1 False"] m ne
  show ?thesis by (metis prod.collapse zero_less_numeral)
qed

text \<open>A node whose history lost the middle one of its own messages starts numbering at one
  again, although its messages 1 and 3 are stored: the cursor it is wired with is the
  empty one meant for requesting everything.\<close>

definition damaged_disk :: store_disk where
  "damaged_disk = empty_disk\<lparr>dk_log := log_lines wit_env [wit_msg ''a'' ''n:1'' 1 5] @ (9, Invalid) #
     log_lines wit_env [wit_msg ''c'' ''n:1'' 3 7]\<rparr>"

theorem damaged_history_reuses_numbers:
  "map sender_seq (read_all_messages wit_env damaged_disk) = [1, 3] \<and>
   map msg_vector_clock (fst (snd (do_broadcast \<lparr>env_sec = None, env_hook = None\<rparr>
     (fst (wire_node wit_env damaged_disk (new_node ''n'' 1 False))) (wit_msg ''d'' ''n:1'' 0 8)))) = [[(''n:1'', 1)]]"
  by code_simp

section \<open>Recent messages\<close>

text \<open>The recent messages are the newest ones in time order, as many as asked for; asking for
  none gives all of them.\<close>

theorem recent_messages:
  "get_recent env 0 s = read_all_messages env (st_disk s) \<and>
   (0 < limit \<longrightarrow> get_recent env limit s =
      drop (length (read_all_messages env (st_disk s)) - nat limit) (read_all_messages env (st_disk s)))"
  by (auto simp: get_recent_def py_slice_from_def Let_def nat_diff_distrib)

end
