(* ===== verification/Discovery.thy ===== *)
theory Discovery
  imports Membership_Router Broadcast_Node
begin

text \<open>
  \<open>peer_discovery/network\<close> and the facade \<open>membership_integration/service.py\<close>: joining,
  gossip and heartbeats carried in the content of ordinary messages. The facade passes every
  call on to the coordinator, so the service is the record \<^typ>\<open>coord\<close>; no validator is
  registered on a discovery node. The content of a message is its text together with the
  value \<open>json.loads\<close> reads from it (\<open>None\<close> when it is not JSON). What a handler
  sends is part of its result: the broadcast or direct messages, by content.

  A node's state is the record \<open>discovery\<close>. Threads are steps: a received message, one
  heartbeat, one tick. While \<open>attempt_bootstrap\<close> waits, other threads run; their effect
  is an argument of the model.
\<close>

section \<open>Envelopes: \<open>protocol.py\<close>\<close>

definition DISCOVERY_TYPE_PREFIX :: string where "DISCOVERY_TYPE_PREFIX = ''discovery_''"

definition SUBTYPE_JOIN_REQUEST :: string where "SUBTYPE_JOIN_REQUEST = ''discovery_join_request''"

definition SUBTYPE_JOIN_RESPONSE :: string where "SUBTYPE_JOIN_RESPONSE = ''discovery_join_response''"

definition SUBTYPE_GOSSIP :: string where "SUBTYPE_GOSSIP = ''discovery_gossip''"

definition SUBTYPE_HEARTBEAT :: string where "SUBTYPE_HEARTBEAT = ''discovery_heartbeat''"

text \<open>\<open>x in s\<close> for strings.\<close>

fun contains :: "string \<Rightarrow> string \<Rightarrow> bool" where
  "contains x [] = (x = [])"
| "contains x (c # cs) = (take (length x) (c # cs) = x \<or> contains x cs)"

definition is_discovery_message :: "string \<Rightarrow> bool" where
  "is_discovery_message content =
     (let q = [char_of (34::nat)] in
      contains (q @ ''type'' @ q @ '': '' @ q @ DISCOVERY_TYPE_PREFIX) content \<or>
      contains (q @ ''type'' @ q @ '':'' @ q @ DISCOVERY_TYPE_PREFIX) content)"

text \<open>\<open>None\<close> is \<open>ProtocolError\<close>.\<close>

definition encode_discovery_envelope :: "string \<Rightarrow> string \<Rightarrow> (string \<times> json) list \<Rightarrow> json option" where
  "encode_discovery_envelope subtype sender_pub_pem body =
     (if strip_prefix DISCOVERY_TYPE_PREFIX subtype = None then None
      else Some (JObj [(''type'', JStr subtype), (''sender_public_key_pem_b64'', JStr (b64encode sender_pub_pem)),
                       (''payload'', JObj body)]))"

definition decode_discovery_envelope ::
  "json option \<Rightarrow> (string \<times> string \<times> (string \<times> json) list) option" where
  "decode_discovery_envelope content =
     (case content of
        Some (JObj kvs) \<Rightarrow>
          (case (map_of kvs ''type'',
                 (case map_of kvs ''payload'' of None \<Rightarrow> JObj [] | Some v \<Rightarrow> v)) of
             (Some (JStr subtype), JObj body) \<Rightarrow>
               if strip_prefix DISCOVERY_TYPE_PREFIX subtype = None then None
               else
                 (case map_of kvs ''sender_public_key_pem_b64'' of
                    Some (JStr pub_b64) \<Rightarrow>
                      if pub_b64 = [] then Some (subtype, [], body)
                      else map_option (\<lambda>pub. (subtype, pub, body)) (b64decode pub_b64)
                  | Some v \<Rightarrow> if truthy v then None else Some (subtype, [], body)
                  | None \<Rightarrow> Some (subtype, [], body))
           | _ \<Rightarrow> None)
      | _ \<Rightarrow> None)"

text \<open>The retained codec of the former listener.\<close>

datatype message_type = MT_JOIN_REQUEST | MT_JOIN_RESPONSE | MT_EVENT_BROADCAST | MT_SNAPSHOT_SYNC | MT_HEARTBEAT

record network_message =
  nm_type :: message_type
  nm_sender_id :: string
  nm_payload :: "(string \<times> json) list"

fun message_type_value :: "message_type \<Rightarrow> string" where
  "message_type_value MT_JOIN_REQUEST = ''JOIN_REQUEST''"
| "message_type_value MT_JOIN_RESPONSE = ''JOIN_RESPONSE''"
| "message_type_value MT_EVENT_BROADCAST = ''EVENT_BROADCAST''"
| "message_type_value MT_SNAPSHOT_SYNC = ''SNAPSHOT_SYNC''"
| "message_type_value MT_HEARTBEAT = ''HEARTBEAT''"

definition message_type_of :: "string \<Rightarrow> message_type option" where
  "message_type_of s = List.find (\<lambda>t. message_type_value t = s)
     [MT_JOIN_REQUEST, MT_JOIN_RESPONSE, MT_EVENT_BROADCAST, MT_SNAPSHOT_SYNC, MT_HEARTBEAT]"

definition encode_message :: "network_message \<Rightarrow> json" where
  "encode_message m = JObj [(''type'', JStr (message_type_value (nm_type m))),
     (''sender_id'', JStr (nm_sender_id m)), (''payload'', JObj (nm_payload m))]"

definition decode_message :: "json option \<Rightarrow> network_message option" where
  "decode_message content =
     (case content of
        Some (JObj raw) \<Rightarrow>
          (case (map_of raw ''type'', map_of raw ''sender_id'', map_of raw ''payload'') of
             (Some (JStr msg_type), Some (JStr sender_id), Some (JObj body)) \<Rightarrow>
               if msg_type = [] \<or> sender_id = [] then None
               else map_option (\<lambda>t. \<lparr>nm_type = t, nm_sender_id = sender_id, nm_payload = body\<rparr>)
                      (message_type_of msg_type)
           | _ \<Rightarrow> None)
      | _ \<Rightarrow> None)"

section \<open>The node\<close>

record discovery_config =
  cf_advertise_address :: string
  cf_bootstrap_peers :: "string list"
  cf_public_key_override :: "string option"
  cf_heartbeat_interval :: time
  cf_tick_interval :: time
  cf_auto_complete_backfill :: bool
  cf_bootstrap_timeout :: time

definition default_config :: "string \<Rightarrow> discovery_config" where
  "default_config advertise_address =
     \<lparr>cf_advertise_address = advertise_address, cf_bootstrap_peers = [], cf_public_key_override = None,
      cf_heartbeat_interval = 5, cf_tick_interval = 1, cf_auto_complete_backfill = True,
      cf_bootstrap_timeout = 30\<rparr>"

text \<open>\<open>dn_transport\<close>: a \<open>BroadcastNode\<close> was given. \<open>dn_pending\<close>: the events of
  waiting bootstrap attempts and whether they are set. \<open>dn_auto\<close>: the default history
  handler is registered. \<open>dn_seen\<close>: the gossip dispatcher's \<open>OrderedDict\<close>, oldest
  first. \<open>dn_beating\<close> and \<open>dn_last_target_count\<close>: the heartbeat manager.\<close>

record discovery =
  dn_config :: discovery_config
  dn_room :: string
  dn_transport :: bool
  dn_public_key :: string
  dn_pending :: "(string, bool) dict"
  dn_service :: coord
  dn_auto :: bool
  dn_running :: bool
  dn_seen :: "string list"
  dn_beating :: bool
  dn_last_target_count :: int

datatype outgoing = Broadcast "json" | SendTo addr "json"

definition advertise_address :: "discovery \<Rightarrow> string" where
  "advertise_address d = cf_advertise_address (dn_config d)"

definition new_discovery :: "string \<Rightarrow> discovery_config \<Rightarrow> disk \<Rightarrow> bool \<Rightarrow> time \<Rightarrow> discovery" where
  "new_discovery room_id config disk transport now =
     \<lparr>dn_config = config, dn_room = room_id, dn_transport = transport,
      dn_public_key = (case cf_public_key_override config of None \<Rightarrow> [] | Some k \<Rightarrow> k),
      dn_pending = [],
      dn_service = fst (recover now (new_coord room_id (Some (cf_advertise_address config)) False disk)),
      dn_auto = False, dn_running = False, dn_seen = [], dn_beating = False, dn_last_target_count = - 1\<rparr>"

definition auto_complete_backfill_handler :: "time \<Rightarrow> history_handler" where
  "auto_complete_backfill_handler now user_id event c =
     (case handle_start_backfill now user_id c of
        (c', Some err) \<Rightarrow> c'
      | (c', None) \<Rightarrow> fst (handle_complete_backfill now user_id c'))"

text \<open>\<open>self.service.join_member\<close>, with the registered history handler. Without a validator
  the context is not read.\<close>

definition join_member ::
  "string \<Rightarrow> time \<Rightarrow> string \<Rightarrow> string \<Rightarrow> string \<Rightarrow> discovery \<Rightarrow> coord \<times> (mem_error + join_result)" where
  "join_member uid now user_id display_name public_key d =
     handle_join None (if dn_auto d then Some (auto_complete_backfill_handler now) else None)
       uid now user_id display_name (Some public_key) None (dn_service d)"

section \<open>Gossip: \<open>gossip.py\<close>\<close>

definition MAX_SEEN_EVENTS :: nat where "MAX_SEEN_EVENTS = 10000"

definition mark_seen :: "string \<Rightarrow> string list \<Rightarrow> bool \<times> string list" where
  "mark_seen event_id seen =
     (if event_id \<in> set seen then (True, removeAll event_id seen @ [event_id])
      else
        let seen' = seen @ [event_id]
        in (False, if length seen' > MAX_SEEN_EVENTS then tl seen' else seen'))"

definition gossip_id :: "membership_event \<Rightarrow> string" where
  "gossip_id e =
     (let originator = (case ev_originator e of Some x \<Rightarrow> if x = [] then ev_user_id e else x
                        | None \<Rightarrow> ev_user_id e)
      in originator @ '':'' @ int_str (ev_seq_no e) @ '':'' @ event_value (ev_type e) @ '':'' @ ev_user_id e)"

text \<open>\<open>encode_discovery_envelope\<close> cannot fail for the module's own subtypes.\<close>

definition envelope :: "string \<Rightarrow> discovery \<Rightarrow> (string \<times> json) list \<Rightarrow> json" where
  "envelope subtype d body =
     (case encode_discovery_envelope subtype (dn_public_key d) body of Some j \<Rightarrow> j | None \<Rightarrow> JNull)"

definition gossip :: "membership_event \<Rightarrow> discovery \<Rightarrow> discovery \<times> outgoing list" where
  "gossip e d =
     (if \<not> dn_transport d then (d, [])
      else (d\<lparr>dn_seen := snd (mark_seen (gossip_id e) (dn_seen d))\<rparr>,
            [Broadcast (envelope SUBTYPE_GOSSIP d [(''event'', event_to_dict e)])]))"

definition dispatch :: "membership_event \<Rightarrow> discovery \<Rightarrow> discovery \<times> outgoing list" where
  "dispatch e d = (if ev_source e = ''remote'' then (d, []) else gossip e d)"

text \<open>The handle under which the dispatcher subscribes. A call into the service appends the
  notices it causes to the coordinator's record; \<open>after_service\<close> passes the new ones of
  the dispatcher on.\<close>

definition GOSSIP_HANDLE :: string where "GOSSIP_HANDLE = ''gossip''"

fun dispatch_all :: "membership_event list \<Rightarrow> discovery \<Rightarrow> discovery \<times> outgoing list" where
  "dispatch_all [] d = (d, [])"
| "dispatch_all (e # es) d =
     (let (d1, out) = dispatch e d; (d2, out') = dispatch_all es d1 in (d2, out @ out'))"

definition new_notices :: "coord \<Rightarrow> coord \<Rightarrow> membership_event list" where
  "new_notices c c' =
     map (\<lambda>(_, e, _). e) (filter (\<lambda>(h, _, _). h = GOSSIP_HANDLE) (drop (length (c_out c)) (c_out c')))"

definition after_service :: "coord \<Rightarrow> discovery \<Rightarrow> discovery \<times> outgoing list" where
  "after_service c' d = dispatch_all (new_notices (dn_service d) c') (d\<lparr>dn_service := c'\<rparr>)"

section \<open>Inbound messages: \<open>discovery_node.py\<close>\<close>

datatype disc_result = DHandled | DNotHandled "string option"

text \<open>What may escape \<open>handle_message\<close>: an event that cannot be read, or the service's
  error.\<close>

datatype disc_error = BadEvent | ServiceError mem_error

definition send_join_response ::
  "string \<Rightarrow> bool \<Rightarrow> string option \<Rightarrow> json list \<Rightarrow> discovery \<Rightarrow> outgoing list" where
  "send_join_response target ok reason events d =
     (if \<not> dn_transport d then []
      else (case parse_address target of
              None \<Rightarrow> []
            | Some hp \<Rightarrow>
                [SendTo hp (envelope SUBTYPE_JOIN_RESPONSE d
                   ([(''accepted'', JBool ok), (''events'', JList events)] @
                    (case reason of None \<Rightarrow> [] | Some r \<Rightarrow> [(''reason'', JStr r)])))]))"

definition handle_join_request ::
  "string \<Rightarrow> time \<Rightarrow> string \<Rightarrow> string \<Rightarrow> (string \<times> json) list \<Rightarrow> discovery \<Rightarrow>
   discovery \<times> outgoing list \<times> (disc_error + disc_result)" where
  "handle_join_request uid now sender_id sender_pub_pem body d =
     (let display_name = (case map_of body ''display_name'' of Some (JStr n) \<Rightarrow> n | _ \<Rightarrow> ''Unknown'');
          (c, res) = join_member uid now sender_id display_name sender_pub_pem d;
          (d1, out) = after_service c d
      in case res of
           Inl err \<Rightarrow> (d1, out, Inl (ServiceError err))
         | Inr jr \<Rightarrow>
             if \<not> jr_accepted jr then
               (d1, out @ send_join_response sender_id False (jr_reason jr) [] d1, Inr DHandled)
             else
               (d1, out @ send_join_response sender_id True None
                      (map event_to_dict (get_events_since 0 (c_log (dn_service d1)))) d1, Inr DHandled))"

definition wake_pending :: "string \<Rightarrow> discovery \<Rightarrow> discovery" where
  "wake_pending sender_id d =
     (if sender_id \<in> set (dict_keys (dn_pending d))
      then d\<lparr>dn_pending := dict_set sender_id True (dn_pending d)\<rparr> else d)"

definition handle_join_response ::
  "time \<Rightarrow> string \<Rightarrow> (string \<times> json) list \<Rightarrow> discovery \<Rightarrow>
   discovery \<times> outgoing list \<times> (disc_error + disc_result)" where
  "handle_join_response now sender_id body d =
     (if \<not> truthy (get_or body ''accepted'' (JBool False)) then (wake_pending sender_id d, [], Inr DHandled)
      else
        (case as_list (get_or body ''events'' (JList [])) \<bind> map_opt event_from_dict of
           None \<Rightarrow> (d, [], Inl BadEvent)
         | Some events \<Rightarrow>
             let (d1, out) = after_service (apply_remote_snapshot now events (dn_service d)) d
             in (wake_pending sender_id d1, out, Inr DHandled)))"

definition handle_gossip ::
  "time \<Rightarrow> (string \<times> json) list \<Rightarrow> discovery \<Rightarrow> discovery \<times> outgoing list \<times> (disc_error + disc_result)" where
  "handle_gossip now body d =
     (let event_data = get_or body ''event'' JNull in
      if \<not> truthy event_data then (d, [], Inr DHandled)
      else
        (case event_from_dict event_data of
           None \<Rightarrow> (d, [], Inr DHandled)
         | Some event \<Rightarrow>
             let (dup, seen) = mark_seen (gossip_id event) (dn_seen d); d1 = d\<lparr>dn_seen := seen\<rparr> in
             if dup then (d1, [], Inr DHandled)
             else
               let (d2, out) = after_service (apply_remote_event now event (dn_service d1)) d1
               in (d2, out, Inr DHandled)))"

definition handle_heartbeat_msg ::
  "time \<Rightarrow> string \<Rightarrow> discovery \<Rightarrow> discovery \<times> outgoing list \<times> (disc_error + disc_result)" where
  "handle_heartbeat_msg now sender_id d =
     (if sender_id \<notin> set (dict_keys (sn_members (c_snap (dn_service d)))) then (d, [], Inr DHandled)
      else
        let (c, err) = handle_heartbeat now sender_id (dn_service d);
            (d1, out) = after_service c d
        in (d1, out, case err of None \<Rightarrow> Inr DHandled | Some e \<Rightarrow> Inl (ServiceError e)))"

definition handle_message ::
  "string \<Rightarrow> time \<Rightarrow> message \<Rightarrow> json option \<Rightarrow> discovery \<Rightarrow>
   discovery \<times> outgoing list \<times> (disc_error + disc_result)" where
  "handle_message uid now msg content d =
     (if \<not> is_discovery_message (msg_content msg) then (d, [], Inr (DNotHandled None))
      else
        (case decode_discovery_envelope content of
           None \<Rightarrow> (d, [], Inr (DNotHandled (Some ''malformed_discovery_envelope'')))
         | Some (subtype, sender_pub_pem, body) \<Rightarrow>
             if subtype = SUBTYPE_JOIN_REQUEST
             then handle_join_request uid now (msg_sender msg) sender_pub_pem body d
             else if subtype = SUBTYPE_JOIN_RESPONSE
             then handle_join_response now (msg_sender msg) body d
             else if subtype = SUBTYPE_GOSSIP then handle_gossip now body d
             else if subtype = SUBTYPE_HEARTBEAT then handle_heartbeat_msg now (msg_sender msg) d
             else (d, [], Inr (DNotHandled (Some (''unknown_subtype:'' @ subtype))))))"

text \<open>The hook that runs before signatures are verified. The registry is the in-memory one
  (the router has no \<open>add_peer\<close>); \<open>loads\<close> is \<open>json.loads\<close>.\<close>

definition decrypted_copy :: "security option \<Rightarrow> string \<Rightarrow> string \<Rightarrow> string" where
  "decrypted_copy sec address content =
     (case sec of
        None \<Rightarrow> content
      | Some s \<Rightarrow>
          if \<not> sec_is_encrypted s content then content
          else (case sec_private_key s of
                  None \<Rightarrow> content
                | Some pem \<Rightarrow>
                    if pem = [] then content
                    else (case sec_decrypt s content address pem of None \<Rightarrow> content | Some plain \<Rightarrow> plain)))"

definition lazy_register_pubkey ::
  "(string \<Rightarrow> json option) \<Rightarrow> security option \<Rightarrow> string \<Rightarrow> discovery \<Rightarrow> message \<Rightarrow> in_memory \<Rightarrow> in_memory" where
  "lazy_register_pubkey loads sec address d msg registry =
     (if \<not> dn_transport d then registry
      else
        let content = decrypted_copy sec address (msg_content msg) in
        if \<not> is_discovery_message content then registry
        else
          (case decode_discovery_envelope (loads content) of
             None \<Rightarrow> registry
           | Some (_, pub, _) \<Rightarrow>
               if pub = [] then registry
               else (case parse_address (msg_sender msg) of
                       None \<Rightarrow> registry
                     | Some (host, port) \<Rightarrow>
                         if get_pub_key registry (host, port) \<noteq> [] then registry
                         else add_peer host port pub registry)))"

section \<open>Joining the network: \<open>bootstrap.py\<close>\<close>

text \<open>\<open>host, port_str = peer.split(":")\<close>: exactly one colon.\<close>

definition parse_peer :: "string \<Rightarrow> addr option" where
  "parse_peer peer =
     (if length (filter (\<lambda>c. c = CHR '':'') peer) = 1 then parse_address peer else None)"

text \<open>One attempt: the entry is announced as pending and the request is sent; when the wait is over,
  \<open>event.wait\<close> returns whether the event was set by then, and the entry is removed.\<close>

definition begin_attempt :: "string \<Rightarrow> addr \<Rightarrow> string \<Rightarrow> discovery \<Rightarrow> discovery \<times> outgoing" where
  "begin_attempt peer hp display_name d =
     (let d1 = d\<lparr>dn_pending := dict_set peer False (dn_pending d)\<rparr>
      in (d1, SendTo hp (envelope SUBTYPE_JOIN_REQUEST d1 [(''display_name'', JStr display_name)])))"

definition end_attempt :: "string \<Rightarrow> discovery \<Rightarrow> discovery \<times> bool" where
  "end_attempt peer d =
     (d\<lparr>dn_pending := dict_pop peer (dn_pending d)\<rparr>,
      map_of (dn_pending d) peer = Some True \<and> sd_active_count (get_snapshot (c_snap (dn_service d))) > 0)"

text \<open>\<open>meanwhile\<close> stands for what other threads do while this one waits for the response of
  a peer.\<close>

fun attempt_peers ::
  "(string \<Rightarrow> discovery \<Rightarrow> discovery) \<Rightarrow> string \<Rightarrow> string list \<Rightarrow> discovery \<Rightarrow>
   discovery \<times> outgoing list \<times> bool" where
  "attempt_peers meanwhile display_name [] d = (d, [], False)"
| "attempt_peers meanwhile display_name (peer # peers) d =
     (case parse_peer peer of
        None \<Rightarrow> attempt_peers meanwhile display_name peers d
      | Some hp \<Rightarrow>
          let (d1, req) = begin_attempt peer hp display_name d;
              (d3, joined) = end_attempt peer (meanwhile peer d1)
          in if joined then (d3, [req], True)
             else let (d4, out, ok) = attempt_peers meanwhile display_name peers d3 in (d4, req # out, ok))"

definition attempt_bootstrap ::
  "(string \<Rightarrow> discovery \<Rightarrow> discovery) \<Rightarrow> string \<Rightarrow> time \<Rightarrow> string \<Rightarrow> discovery \<Rightarrow>
   discovery \<times> outgoing list \<times> (disc_error + bool)" where
  "attempt_bootstrap meanwhile uid now display_name d =
     (if cf_bootstrap_peers (dn_config d) = [] then
        let (c, res) = join_member uid now (advertise_address d) display_name (dn_public_key d) d;
            (d1, out) = after_service c d
        in (d1, out, case res of Inl e \<Rightarrow> Inl (ServiceError e) | Inr jr \<Rightarrow> Inr (jr_accepted jr))
      else if \<not> dn_transport d then (d, [], Inr False)
      else let (d1, out, ok) = attempt_peers meanwhile display_name (cf_bootstrap_peers (dn_config d)) d
           in (d1, out, Inr ok))"

text \<open>\<open>DiscoveryNode.start\<close> and \<open>stop\<close>. \<open>external\<close>: another component registered a
  history handler.\<close>

definition start_flags :: "bool \<Rightarrow> discovery \<Rightarrow> discovery" where
  "start_flags external d = d\<lparr>dn_auto := cf_auto_complete_backfill (dn_config d) \<and> \<not> external, dn_running := True\<rparr>"

definition start_background :: "discovery \<Rightarrow> discovery \<times> outgoing list" where
  "start_background d =
     (let (d1, out) = after_service (subscribe GOSSIP_HANDLE 0 (dn_service d)) d in (d1\<lparr>dn_beating := True\<rparr>, out))"

definition discovery_start ::
  "(string \<Rightarrow> discovery \<Rightarrow> discovery) \<Rightarrow> bool \<Rightarrow> string \<Rightarrow> time \<Rightarrow> string \<Rightarrow> discovery \<Rightarrow>
   discovery \<times> outgoing list \<times> disc_error option" where
  "discovery_start meanwhile external uid now display_name d =
     (case attempt_bootstrap meanwhile uid now display_name (start_flags external d) of
        (d2, out, Inl err) \<Rightarrow> (d2, out, Some err)
      | (d2, out, Inr _) \<Rightarrow> (case start_background d2 of (d3, out') \<Rightarrow> (d3, out @ out', None)))"

definition discovery_stop :: "discovery \<Rightarrow> discovery" where
  "discovery_stop d = d\<lparr>dn_running := False, dn_beating := False\<rparr>"

section \<open>Background threads: \<open>heartbeat.py\<close>\<close>

definition heartbeat_targets :: "discovery \<Rightarrow> string list" where
  "heartbeat_targets d =
     map fst (filter (\<lambda>(uid, m). mi_state m \<in> {ACTIVE, JOINING, BACKFILLING, SUSPECTED}
                        \<and> uid \<noteq> advertise_address d)
              (sd_members (get_snapshot (c_snap (dn_service d)))))"

definition broadcast_heartbeat :: "discovery \<Rightarrow> discovery \<times> outgoing list" where
  "broadcast_heartbeat d =
     (if \<not> dn_transport d then (d, [])
      else
        let targets = heartbeat_targets d;
            d1 = d\<lparr>dn_last_target_count := int (length targets)\<rparr>
        in if targets = [] then (d1, [])
           else (d1, [Broadcast (envelope SUBTYPE_HEARTBEAT d1 [])]))"

text \<open>One round of each loop; an error is logged and the loop goes on.\<close>

definition heartbeat_round :: "discovery \<Rightarrow> discovery \<times> outgoing list" where
  "heartbeat_round d = (if dn_beating d then broadcast_heartbeat d else (d, []))"

definition tick_round :: "time \<Rightarrow> discovery \<Rightarrow> discovery \<times> outgoing list" where
  "tick_round now d = (if dn_beating d then after_service (fst (tick now (dn_service d))) d else (d, []))"

section \<open>The tick scheduler of the facade\<close>

record tick_scheduler =
  ts_running :: bool
  ts_interval :: time
  ts_timer :: bool

definition schedule_next_tick :: "tick_scheduler \<Rightarrow> tick_scheduler" where
  "schedule_next_tick ts = (if \<not> ts_running ts then ts else ts\<lparr>ts_timer := True\<rparr>)"

definition start_tick_scheduler :: "time \<Rightarrow> tick_scheduler \<Rightarrow> tick_scheduler" where
  "start_tick_scheduler interval_s ts =
     (if ts_running ts then ts else schedule_next_tick (ts\<lparr>ts_interval := interval_s, ts_running := True\<rparr>))"

definition stop_tick_scheduler :: "tick_scheduler \<Rightarrow> tick_scheduler" where
  "stop_tick_scheduler ts = ts\<lparr>ts_running := False, ts_timer := False\<rparr>"

text \<open>The timer fires.\<close>

definition run_tick :: "time \<Rightarrow> coord \<Rightarrow> tick_scheduler \<Rightarrow> coord \<times> tick_scheduler" where
  "run_tick now c ts =
     (if \<not> ts_running ts then (c, ts) else (fst (tick now c), schedule_next_tick ts))"

end
