(* ===== verification/Json_Text.thy ===== *)
theory Json_Text
  imports Json_Base64
begin

text \<open>
  \<open>json.loads\<close> on text, as the decoder of the Python library reads it: white space between tokens,
  escapes in strings, a number that is an integer unless it has a fraction or an exponent, and
  of a repeated key the last value. How the text of a float is rounded is the argument \<open>pf\<close>.
  Code points above 255 have no character here; such an escape, \<open>NaN\<close> and the infinities read as an
  error, like every text the decoder rejects (\<open>None\<close>).

  Shown: the decoder reads every text of a value, whatever white space separates the tokens, and
  \<open>json.dumps\<close> writes such a text, with any of the separators and with the indentation the
  programs use.
\<close>

section \<open>The decoder\<close>

definition json_ws :: "char \<Rightarrow> bool" where
  "json_ws c = ((of_char c :: nat) \<in> {9, 10, 13, 32})"

abbreviation skip_ws :: "string \<Rightarrow> string" where
  "skip_ws \<equiv> dropWhile json_ws"

fun hex_val :: "char \<Rightarrow> nat option" where
  "hex_val c =
     (let n = (of_char c :: nat) in
      if 48 \<le> n \<and> n \<le> 57 then Some (n - 48)
      else if 97 \<le> n \<and> n \<le> 102 then Some (n - 87)
      else if 65 \<le> n \<and> n \<le> 70 then Some (n - 55)
      else None)"

definition hex4 :: "char \<Rightarrow> char \<Rightarrow> char \<Rightarrow> char \<Rightarrow> char option" where
  "hex4 a b c d =
     (case (hex_val a, hex_val b, hex_val c, hex_val d) of
        (Some w, Some x, Some y, Some z) \<Rightarrow>
          let n = ((w * 16 + x) * 16 + y) * 16 + z in if n < 256 then Some (char_of n) else None
      | _ \<Rightarrow> None)"

definition unescape :: "char \<Rightarrow> char option" where
  "unescape c =
     map_of [(CHR 0x22, CHR 0x22), (CHR 0x5C, CHR 0x5C), (CHR 0x2F, CHR 0x2F), (CHR ''b'', CHR 0x08), (CHR ''f'', CHR 0x0C),
             (CHR ''n'', CHR 0x0A), (CHR ''r'', CHR 0x0D), (CHR ''t'', CHR 0x09)] c"

text \<open>\<open>scanstring\<close> after the opening quote: the string and what follows the closing quote.\<close>

fun scan_str :: "string \<Rightarrow> (string \<times> string) option" where
  "scan_str [] = None"
| "scan_str (c # s) =
     (if c = CHR 0x22 then Some ([], s)
      else if c = CHR 0x5C then
        (case s of
           [] \<Rightarrow> None
         | e # s' \<Rightarrow>
             if e = CHR ''u'' then
               (case s' of
                  h1 # h2 # h3 # h4 # s'' \<Rightarrow>
                    (case hex4 h1 h2 h3 h4 of
                       None \<Rightarrow> None
                     | Some x \<Rightarrow> map_option (\<lambda>(t, r). (x # t, r)) (scan_str s''))
                | _ \<Rightarrow> None)
             else
               (case unescape e of
                  None \<Rightarrow> None
                | Some x \<Rightarrow> map_option (\<lambda>(t, r). (x # t, r)) (scan_str s')))
      else if (of_char c :: nat) < 32 then None
      else map_option (\<lambda>(t, r). (c # t, r)) (scan_str s))"

text \<open>The groups of \<open>NUMBER_RE\<close>: sign and integer, fraction, exponent. Each yields what it matched and the
  rest of the text.\<close>

definition scan_digits :: "string \<Rightarrow> string \<times> string" where
  "scan_digits s = (takeWhile is_digit s, dropWhile is_digit s)"

definition scan_sign :: "char list \<Rightarrow> string \<Rightarrow> string \<times> string" where
  "scan_sign signs s = (case s of [] \<Rightarrow> ([], []) | c # r \<Rightarrow> if c \<in> set signs then ([c], r) else ([], s))"

definition scan_integer :: "string \<Rightarrow> (string \<times> string) option" where
  "scan_integer s =
     (case s of
        [] \<Rightarrow> None
      | c # r \<Rightarrow> if c = CHR ''0'' then Some ([c], r) else if is_digit c then Some (scan_digits s) else None)"

definition scan_frac :: "string \<Rightarrow> string \<times> string" where
  "scan_frac s =
     (case s of
        [] \<Rightarrow> ([], [])
      | c # r \<Rightarrow>
          if c = CHR ''.'' then (case scan_digits r of (ds, r') \<Rightarrow> if ds = [] then ([], s) else (c # ds, r')) else ([], s))"

definition scan_exp :: "string \<Rightarrow> string \<times> string" where
  "scan_exp s =
     (case s of
        [] \<Rightarrow> ([], [])
      | c # r \<Rightarrow>
          if c = CHR ''e'' \<or> c = CHR ''E'' then
            (case scan_sign ''+-'' r of
               (sg, r') \<Rightarrow> (case scan_digits r' of (ds, r'') \<Rightarrow> if ds = [] then ([], s) else (c # sg @ ds, r'')))
          else ([], s))"

definition scan_number :: "(string \<Rightarrow> rat) \<Rightarrow> string \<Rightarrow> (json \<times> string) option" where
  "scan_number pf s =
     (case scan_sign ''-'' s of
        (sg, s1) \<Rightarrow>
          (case scan_integer s1 of
             None \<Rightarrow> None
           | Some (ds, s2) \<Rightarrow>
               (case scan_frac s2 of
                  (fr, s3) \<Rightarrow>
                    (case scan_exp s3 of
                       (ex, s4) \<Rightarrow>
                         if fr = [] \<and> ex = [] then map_option (\<lambda>i. (JInt i, s4)) (py_int (sg @ ds))
                         else Some (JFloat (pf (sg @ ds @ fr @ ex)), s4)))))"

definition scan_literal :: "(string \<Rightarrow> rat) \<Rightarrow> string \<Rightarrow> (json \<times> string) option" where
  "scan_literal pf s =
     (case strip_prefix ''null'' s of
        Some r \<Rightarrow> Some (JNull, r)
      | None \<Rightarrow>
          (case strip_prefix ''true'' s of
             Some r \<Rightarrow> Some (JBool True, r)
           | None \<Rightarrow>
               (case strip_prefix ''false'' s of Some r \<Rightarrow> Some (JBool False, r) | None \<Rightarrow> scan_number pf s)))"

text \<open>A dictionary from its pairs.\<close>

definition dict_of :: "('k \<times> 'v) list \<Rightarrow> ('k, 'v) dict" where
  "dict_of kvs = foldl (\<lambda>d (k, v). dict_set k v d) [] kvs"

text \<open>\<open>scan_once\<close>, \<open>JSONArray\<close> and \<open>JSONObject\<close>. Every call consumes a character, so the length of
  the text bounds the recursion.\<close>

fun scan_value :: "(string \<Rightarrow> rat) \<Rightarrow> nat \<Rightarrow> string \<Rightarrow> (json \<times> string) option"
  and scan_elems :: "(string \<Rightarrow> rat) \<Rightarrow> nat \<Rightarrow> string \<Rightarrow> (json list \<times> string) option"
  and scan_members :: "(string \<Rightarrow> rat) \<Rightarrow> nat \<Rightarrow> string \<Rightarrow> ((string \<times> json) list \<times> string) option" where
  "scan_value pf 0 s = None"
| "scan_value pf (Suc n) s =
     (case s of
        [] \<Rightarrow> None
      | c # r \<Rightarrow>
          if c = CHR 0x22 then map_option (\<lambda>(t, r'). (JStr t, r')) (scan_str r)
          else if c = CHR 0x7B then
            (case skip_ws r of
               [] \<Rightarrow> None
             | d # r' \<Rightarrow>
                 if d = CHR 0x7D then Some (JObj [], r')
                 else map_option (\<lambda>(kvs, r''). (JObj (dict_of kvs), r'')) (scan_members pf n (d # r')))
          else if c = CHR 0x5B then
            (case skip_ws r of
               [] \<Rightarrow> None
             | d # r' \<Rightarrow>
                 if d = CHR 0x5D then Some (JList [], r')
                 else map_option (\<lambda>(xs, r''). (JList xs, r'')) (scan_elems pf n (d # r')))
          else scan_literal pf s)"
| "scan_elems pf 0 s = None"
| "scan_elems pf (Suc n) s =
     (case scan_value pf n s of
        None \<Rightarrow> None
      | Some (v, r) \<Rightarrow>
          (case skip_ws r of
             [] \<Rightarrow> None
           | d # r' \<Rightarrow>
               if d = CHR 0x5D then Some ([v], r')
               else if d = CHR '','' then map_option (\<lambda>(vs, r''). (v # vs, r'')) (scan_elems pf n (skip_ws r'))
               else None))"
| "scan_members pf 0 s = None"
| "scan_members pf (Suc n) s =
     (case s of
        [] \<Rightarrow> None
      | q # s1 \<Rightarrow>
          if q \<noteq> CHR 0x22 then None
          else
            (case scan_str s1 of
               None \<Rightarrow> None
             | Some (k, s2) \<Rightarrow>
                 (case skip_ws s2 of
                    [] \<Rightarrow> None
                  | e # s3 \<Rightarrow>
                      if e \<noteq> CHR '':'' then None
                      else
                        (case scan_value pf n (skip_ws s3) of
                           None \<Rightarrow> None
                         | Some (v, r) \<Rightarrow>
                             (case skip_ws r of
                                [] \<Rightarrow> None
                              | d # r' \<Rightarrow>
                                  if d = CHR 0x7D then Some ([(k, v)], r')
                                  else if d = CHR '','' then
                                    map_option (\<lambda>(kvs, r''). ((k, v) # kvs, r'')) (scan_members pf n (skip_ws r'))
                                  else None)))))"

definition json_loads :: "(string \<Rightarrow> rat) \<Rightarrow> string \<Rightarrow> json option" where
  "json_loads pf s =
     (case scan_value pf (length s) (skip_ws s) of
        None \<Rightarrow> None
      | Some (v, r) \<Rightarrow> if skip_ws r = [] then Some v else None)"

section \<open>Strings\<close>

lemma hex_digit_val: "d < 16 \<Longrightarrow> hex_val (hex_digit d) = Some d"
proof -
  have "\<forall>d \<in> set [0..<16]. hex_val (hex_digit d) = Some d" by code_simp
  then show "d < 16 \<Longrightarrow> hex_val (hex_digit d) = Some d" by auto
qed

lemma hex4_escape:
  assumes "n < 256"
  shows "hex4 (CHR ''0'') (CHR ''0'') (hex_digit (n div 16)) (hex_digit (n mod 16)) = Some (char_of n)"
proof -
  have "hex_val (hex_digit (n div 16)) = Some (n div 16)" "hex_val (hex_digit (n mod 16)) = Some (n mod 16)"
    using assms by (simp_all add: hex_digit_val del: hex_val.simps)
  moreover have "hex_val (CHR ''0'') = Some 0" by code_simp
  ultimately show ?thesis using assms by (simp add: hex4_def del: hex_val.simps)
qed

lemma special_chars:
  "char_of (34::nat) = CHR 0x22" "char_of (92::nat) = CHR 0x5C" "char_of (10::nat) = CHR 0x0A" "char_of (13::nat) = CHR 0x0D"
  "char_of (9::nat) = CHR 0x09" "char_of (12::nat) = CHR 0x0C" "char_of (8::nat) = CHR 0x08"
  by code_simp+

lemma escapes:
  "json_escape (CHR 0x22) = [CHR 0x5C, CHR 0x22]" "json_escape (CHR 0x5C) = [CHR 0x5C, CHR 0x5C]"
  "json_escape (CHR 0x0A) = [CHR 0x5C, CHR ''n'']" "json_escape (CHR 0x0D) = [CHR 0x5C, CHR ''r'']"
  "json_escape (CHR 0x09) = [CHR 0x5C, CHR ''t'']" "json_escape (CHR 0x0C) = [CHR 0x5C, CHR ''f'']"
  "json_escape (CHR 0x08) = [CHR 0x5C, CHR ''b'']"
  by code_simp+

lemma unescapes:
  "unescape (CHR 0x22) = Some (CHR 0x22)" "unescape (CHR 0x5C) = Some (CHR 0x5C)" "unescape (CHR ''n'') = Some (CHR 0x0A)"
  "unescape (CHR ''r'') = Some (CHR 0x0D)" "unescape (CHR ''t'') = Some (CHR 0x09)" "unescape (CHR ''f'') = Some (CHR 0x0C)"
  "unescape (CHR ''b'') = Some (CHR 0x08)"
  by (simp_all add: unescape_def)

lemma special_escape:
  assumes "(of_char c :: nat) \<in> {34, 92, 10, 13, 9, 12, 8}"
  shows "\<exists>e. json_escape c = [CHR 0x5C, e] \<and> e \<noteq> CHR ''u'' \<and> unescape e = Some c"
proof -
  have "c \<in> {CHR 0x22, CHR 0x5C, CHR 0x0A, CHR 0x0D, CHR 0x09, CHR 0x0C, CHR 0x08}"
    using imageI[OF assms, of "char_of :: nat \<Rightarrow> char"] by (simp add: special_chars)
  then show ?thesis by (elim insertE emptyE) (simp_all add: escapes unescapes)
qed

lemma scan_escape: "scan_str (json_escape c @ s) = map_option (\<lambda>(t, r). (c # t, r)) (scan_str s)"
proof -
  let ?n = "of_char c :: nat"
  consider (special) "?n \<in> {34, 92, 10, 13, 9, 12, 8}"
    | (plain) "?n \<notin> {34, 92, 10, 13, 9, 12, 8}" "32 \<le> ?n" "?n \<le> 126"
    | (hex) "?n \<notin> {34, 92, 10, 13, 9, 12, 8}" "\<not> (32 \<le> ?n \<and> ?n \<le> 126)" by blast
  then show ?thesis
  proof cases
    case special
    from special_escape[OF this] show ?thesis by auto
  next
    case plain
    then have "json_escape c = [c]" "c \<noteq> CHR 0x22" "c \<noteq> CHR 0x5C" by (auto simp: json_escape_def)
    with plain show ?thesis by simp
  next
    case hex
    then have e: "json_escape c = [CHR 0x5C, CHR ''u'', CHR ''0'', CHR ''0'', hex_digit (?n div 16), hex_digit (?n mod 16)]"
      by (auto simp: json_escape_def Let_def special_chars)
    have "hex4 (CHR ''0'') (CHR ''0'') (hex_digit (?n div 16)) (hex_digit (?n mod 16)) = Some c"
      using hex4_escape[of ?n] by simp
    then show ?thesis unfolding e by simp
  qed
qed

lemma scan_quoted: "scan_str (concat (map json_escape s) @ CHR 0x22 # r) = Some (s, r)"
  by (induction s) (simp_all add: scan_escape del: scan_str.simps(2), simp)

section \<open>Numbers\<close>

text \<open>What may follow a number without being read as part of it.\<close>

definition ends :: "string \<Rightarrow> bool" where
  "ends s = list_all (\<lambda>c. \<not> is_digit c \<and> c \<notin> {CHR ''.'', CHR ''e'', CHR ''E'', CHR ''+'', CHR ''-''}) (take 1 s)"

lemma scan_digits_append:
  assumes "ends r" "scan_digits t = (ds, s)"
  shows "scan_digits (t @ r) = (ds, s @ r)"
proof (cases "\<forall>x \<in> set t. is_digit x")
  case True
  moreover have "takeWhile is_digit r = []" "dropWhile is_digit r = r" using assms(1) by (cases r; simp add: ends_def)+
  ultimately show ?thesis using assms(2) by (auto simp: scan_digits_def takeWhile_append2 dropWhile_append2 takeWhile_eq_all_conv[THEN iffD2])
next
  case False
  with assms(2) show ?thesis by (auto simp: scan_digits_def takeWhile_append1 dropWhile_append1)
qed

lemma scan_sign_append: "ends r \<Longrightarrow> set sg \<subseteq> {CHR ''+'', CHR ''-''} \<Longrightarrow> scan_sign sg t = (m, s) \<Longrightarrow> scan_sign sg (t @ r) = (m, s @ r)"
  by (cases t; cases r) (auto simp: scan_sign_def ends_def split: if_splits)

lemma scan_integer_append: "ends r \<Longrightarrow> scan_integer t = Some (m, s) \<Longrightarrow> scan_integer (t @ r) = Some (m, s @ r)"
  using scan_digits_append[of r t m s] by (cases t) (auto simp: scan_integer_def split: if_splits)

lemma scan_frac_append: "ends r \<Longrightarrow> scan_frac t = (m, s) \<Longrightarrow> scan_frac (t @ r) = (m, s @ r)"
  using scan_digits_append[of r "tl t"]
  by (cases t; cases r) (auto simp: scan_frac_def ends_def split: if_splits prod.splits)

lemma scan_exp_append:
  assumes r: "ends r" and t: "scan_exp t = (m, s)"
  shows "scan_exp (t @ r) = (m, s @ r)"
proof (cases t)
  case Nil
  with r t show ?thesis by (cases r) (auto simp: scan_exp_def ends_def)
next
  case (Cons c u)
  obtain sg u1 where sg: "scan_sign ''+-'' u = (sg, u1)" by fastforce
  obtain ds u2 where ds: "scan_digits u1 = (ds, u2)" by fastforce
  from scan_sign_append[OF r _ sg] scan_digits_append[OF r ds] show ?thesis
    using t unfolding Cons by (auto simp: scan_exp_def sg ds split: if_splits)
qed

lemma scan_number_append:
  assumes r: "ends r" and t: "scan_number pf t = Some (v, s)"
  shows "scan_number pf (t @ r) = Some (v, s @ r)"
proof -
  obtain sg s1 where 1: "scan_sign ''-'' t = (sg, s1)" by fastforce
  with t obtain ds s2 where 2: "scan_integer s1 = Some (ds, s2)" by (auto simp: scan_number_def split: option.splits)
  obtain fr s3 where 3: "scan_frac s2 = (fr, s3)" by fastforce
  obtain ex s4 where 4: "scan_exp s3 = (ex, s4)" by fastforce
  from scan_sign_append[OF r _ 1] scan_integer_append[OF r 2] scan_frac_append[OF r 3] scan_exp_append[OF r 4]
  show ?thesis using t by (auto simp: scan_number_def 1 2 3 4 split: if_splits)
qed

lemma nat_str_head: "hd (nat_str n) = CHR ''0'' \<longleftrightarrow> n = 0"
proof (induction n rule: nat_str.induct)
  case (1 n)
  show ?case
  proof (cases "n < 10")
    case True
    then have "\<forall>m \<in> set [0..<10]. hd (nat_str m) = CHR ''0'' \<longleftrightarrow> m = (0::nat)" by code_simp
    with True show ?thesis by auto
  next
    case False
    then have "hd (nat_str n) = hd (nat_str (n div 10))" by (subst nat_str.simps) simp
    with 1[OF False] False show ?thesis by auto
  qed
qed

lemma scan_integer_nat: "scan_integer (nat_str n) = Some (nat_str n, [])"
proof (cases "n = 0")
  case True
  show ?thesis unfolding True by code_simp
next
  case False
  obtain c cs where c: "nat_str n = c # cs" by (cases "nat_str n") auto
  have "is_digit x" if "x \<in> set (c # cs)" for x using nat_str_digits[of x n] that unfolding c .
  with nat_str_head[of n] False c show ?thesis
    by (auto simp: scan_integer_def scan_digits_def takeWhile_eq_all_conv dropWhile_eq_Nil_conv)
qed

lemma scan_number_int: "scan_number pf (int_str i) = Some (JInt i, [])"
proof -
  have e: "scan_frac [] = ([], [])" "scan_exp [] = ([], [])" by (simp_all add: scan_frac_def scan_exp_def)
  show ?thesis
  proof (cases "i < 0")
    case True
    then have i: "int_str i = CHR ''-'' # nat_str (nat (- i))" by (simp add: int_str_def)
    then have "scan_sign ''-'' (int_str i) = (''-'', nat_str (nat (- i)))" by (simp add: scan_sign_def)
    with i show ?thesis using py_int_int_str[of i] by (simp add: scan_number_def scan_integer_nat e)
  next
    case False
    then have i: "int_str i = nat_str (nat i)" by (simp add: int_str_def)
    have "scan_sign ''-'' (nat_str (nat i)) = ([], nat_str (nat i))"
      using nat_str_digits[of _ "nat i"] digit_not_sign by (cases "nat_str (nat i)") (auto simp: scan_sign_def)
    with i show ?thesis using py_int_int_str[of i] by (simp add: scan_number_def scan_integer_nat e)
  qed
qed

section \<open>The texts of a value\<close>

abbreviation blank :: "string \<Rightarrow> bool" where
  "blank w \<equiv> list_all json_ws w"

text \<open>The decoder reads the printed float back.\<close>

definition float_ok :: "(rat \<Rightarrow> string) \<Rightarrow> (string \<Rightarrow> rat) \<Rightarrow> rat \<Rightarrow> bool" where
  "float_ok fr pf x \<longleftrightarrow> scan_number pf (fr x) = Some (JFloat x, [])"

inductive json_text :: "(rat \<Rightarrow> string) \<Rightarrow> (string \<Rightarrow> rat) \<Rightarrow> json \<Rightarrow> string \<Rightarrow> bool"
  and elems_text :: "(rat \<Rightarrow> string) \<Rightarrow> (string \<Rightarrow> rat) \<Rightarrow> json list \<Rightarrow> string \<Rightarrow> bool"
  and members_text :: "(rat \<Rightarrow> string) \<Rightarrow> (string \<Rightarrow> rat) \<Rightarrow> (string \<times> json) list \<Rightarrow> string \<Rightarrow> bool"
  for fr pf where
  null_text: "json_text fr pf JNull ''null''"
| true_text: "json_text fr pf (JBool True) ''true''"
| false_text: "json_text fr pf (JBool False) ''false''"
| int_text: "json_text fr pf (JInt i) (int_str i)"
| float_text: "float_ok fr pf x \<Longrightarrow> json_text fr pf (JFloat x) (fr x)"
| str_text: "json_text fr pf (JStr s) (json_quote s)"
| empty_list_text: "blank w \<Longrightarrow> json_text fr pf (JList []) (''['' @ w @ '']'')"
| list_text: "blank w \<Longrightarrow> elems_text fr pf xs t \<Longrightarrow> json_text fr pf (JList xs) (''['' @ w @ t @ '']'')"
| empty_obj_text: "blank w \<Longrightarrow> json_text fr pf (JObj []) (''{'' @ w @ ''}'')"
| obj_text: "blank w \<Longrightarrow> wf_dict kvs \<Longrightarrow> members_text fr pf kvs t \<Longrightarrow> json_text fr pf (JObj kvs) (''{'' @ w @ t @ ''}'')"
| last_elem: "json_text fr pf x t \<Longrightarrow> blank w \<Longrightarrow> elems_text fr pf [x] (t @ w)"
| more_elems: "json_text fr pf x t \<Longrightarrow> blank w \<Longrightarrow> blank w' \<Longrightarrow> elems_text fr pf xs ts \<Longrightarrow>
    elems_text fr pf (x # xs) (t @ w @ '','' @ w' @ ts)"
| last_member: "json_text fr pf x t \<Longrightarrow> blank w1 \<Longrightarrow> blank w2 \<Longrightarrow> blank w \<Longrightarrow>
    members_text fr pf [(k, x)] (json_quote k @ w1 @ '':'' @ w2 @ t @ w)"
| more_members: "json_text fr pf x t \<Longrightarrow> blank w1 \<Longrightarrow> blank w2 \<Longrightarrow> blank w \<Longrightarrow> blank w' \<Longrightarrow> members_text fr pf kvs ts \<Longrightarrow>
    members_text fr pf ((k, x) # kvs) (json_quote k @ w1 @ '':'' @ w2 @ t @ w @ '','' @ w' @ ts)"

lemma skip_blank: "blank w \<Longrightarrow> skip_ws (w @ s) = skip_ws s"
  by (induction w) auto

lemma quote_eq: "json_quote s = CHR 0x22 # concat (map json_escape s) @ [CHR 0x22]"
  by (simp add: json_quote_def special_chars)

lemma scan_number_start:
  assumes "scan_number pf t = Some (v, r)"
  shows "t \<noteq> [] \<and> (is_digit (hd t) \<or> hd t = CHR ''-'')"
  using assms by (cases t) (auto simp: scan_number_def scan_sign_def scan_integer_def is_digit_def split: if_splits option.splits)

lemma scan_literal_number:
  assumes "scan_number pf t = Some (v, [])" "ends r"
  shows "scan_literal pf (t @ r) = Some (v, r)"
proof -
  have n: "scan_number pf (t @ r) = Some (v, r)" using scan_number_append[OF assms(2,1)] by simp
  obtain c cs where c: "t @ r = c # cs" "is_digit c \<or> c = CHR ''-''"
    using scan_number_start[OF n] by (cases "t @ r") auto
  then have "c \<notin> {CHR ''n'', CHR ''t'', CHR ''f''}" by (auto simp: is_digit_def)
  with c have "strip_prefix ''null'' (t @ r) = None" "strip_prefix ''true'' (t @ r) = None" "strip_prefix ''false'' (t @ r) = None"
    by (auto simp: strip_prefix_def)
  with n show ?thesis by (simp add: scan_literal_def)
qed

lemma scan_value_number:
  assumes "scan_number pf t = Some (v, [])" "ends r"
  shows "scan_value pf (Suc n) (t @ r) = Some (v, r)"
proof -
  obtain c cs where c: "t @ r = c # cs" "is_digit c \<or> c = CHR ''-''"
    using scan_number_start[OF assms(1)] by (cases t) auto
  then have "c \<notin> {CHR 0x22, CHR 0x7B, CHR 0x5B}" by (auto simp: is_digit_def)
  with scan_literal_number[OF assms] c(1) show ?thesis by simp
qed

lemma ends_blank: "blank w \<Longrightarrow> ends (w @ c # r) = (w \<noteq> [] \<or> ends [c])"
  by (cases w) (auto simp: ends_def json_ws_def is_digit_def)

lemma ends_punct [simp]: "ends (CHR '','' # r)" "ends (CHR 0x5D # r)" "ends (CHR 0x7D # r)" "ends []"
  by (simp_all add: ends_def is_digit_def)

lemma ends_after [simp]:
  assumes "blank w"
  shows "ends (w @ CHR '','' # r)" "ends (w @ CHR 0x5D # r)" "ends (w @ CHR 0x7D # r)" "ends w"
  using assms by (simp_all add: ends_blank) (cases w, auto simp: ends_def json_ws_def is_digit_def)

lemma punct_not_ws [simp]:
  "\<not> json_ws (CHR '','')" "\<not> json_ws (CHR '':'')" "\<not> json_ws (CHR 0x5D)" "\<not> json_ws (CHR 0x7D)" "\<not> json_ws (CHR 0x22)"
  by (simp_all add: json_ws_def)

text \<open>The first character of a value is neither white space nor a closing bracket.\<close>

definition value_start :: "string \<Rightarrow> bool" where
  "value_start t = (t \<noteq> [] \<and> \<not> json_ws (hd t) \<and> hd t \<noteq> CHR 0x5D \<and> hd t \<noteq> CHR 0x7D)"

lemma number_value_start: "scan_number pf t = Some (v, r) \<Longrightarrow> value_start t"
  using scan_number_start[of pf t v r] by (auto simp: value_start_def json_ws_def is_digit_def)

lemma texts_start:
  "json_text fr pf j t \<Longrightarrow> value_start t"
  "elems_text fr pf xs u \<Longrightarrow> value_start u"
  "members_text fr pf kvs v \<Longrightarrow> value_start v"
proof (induction rule: json_text_elems_text_members_text.inducts)
  case (int_text i)
  show ?case by (rule number_value_start[OF scan_number_int])
next
  case (float_text x)
  then show ?case unfolding float_ok_def by (rule number_value_start)
qed (auto simp: value_start_def quote_eq json_ws_def)

lemma skip_value_start: "value_start t \<Longrightarrow> skip_ws (t @ r) = t @ r"
  by (cases t) (auto simp: value_start_def)

lemma dict_of_wf: "wf_dict kvs \<Longrightarrow> dict_of kvs = kvs"
proof -
  have "foldl (\<lambda>d (k, v). dict_set k v d) d kvs = d @ kvs" if "wf_dict (d @ kvs)" for d
    using that by (induction kvs arbitrary: d) (auto simp: keys_update_new)
  then show "wf_dict kvs \<Longrightarrow> dict_of kvs = kvs" by (simp add: dict_of_def)
qed

section \<open>The decoder reads every text\<close>

lemma scan_literals:
  "scan_value pf (Suc n) (''null'' @ r) = Some (JNull, r)" "scan_value pf (Suc n) (''true'' @ r) = Some (JBool True, r)"
  "scan_value pf (Suc n) (''false'' @ r) = Some (JBool False, r)"
  by (simp_all add: scan_literal_def strip_prefix_def)

lemma scan_value_str: "scan_value pf (Suc n) (json_quote s @ r) = Some (JStr s, r)"
  by (simp add: quote_eq scan_quoted del: scan_str.simps)

lemma scan_simple:
  assumes "0 < n"
  shows "scan_value pf n (''null'' @ r) = Some (JNull, r)" "scan_value pf n (''true'' @ r) = Some (JBool True, r)"
    "scan_value pf n (''false'' @ r) = Some (JBool False, r)" "scan_value pf n (json_quote s @ r) = Some (JStr s, r)"
    "blank w \<Longrightarrow> scan_value pf n ((''['' @ w @ '']'') @ r) = Some (JList [], r)"
    "blank w \<Longrightarrow> scan_value pf n ((''{'' @ w @ ''}'') @ r) = Some (JObj [], r)"
  using assms by (cases n; simp only: scan_literals scan_value_str; simp add: skip_blank)+

lemma scan_value_list:
  assumes "blank w" "value_start t" "scan_elems pf n (t @ CHR 0x5D # r) = Some (xs, r)"
  shows "scan_value pf (Suc n) ((''['' @ w @ t @ '']'') @ r) = Some (JList xs, r)"
proof -
  obtain c cs where t: "t = c # cs" "\<not> json_ws c" "c \<noteq> CHR 0x5D" using assms(2) by (cases t) (auto simp: value_start_def)
  with assms(1,3) show ?thesis by (simp add: skip_blank del: scan_elems.simps)
qed

lemma scan_value_obj:
  assumes "blank w" "value_start t" "scan_members pf n (t @ CHR 0x7D # r) = Some (kvs, r)" "wf_dict kvs"
  shows "scan_value pf (Suc n) ((''{'' @ w @ t @ ''}'') @ r) = Some (JObj kvs, r)"
proof -
  obtain c cs where t: "t = c # cs" "\<not> json_ws c" "c \<noteq> CHR 0x7D" using assms(2) by (cases t) (auto simp: value_start_def)
  with assms(1,3,4) show ?thesis by (simp add: skip_blank dict_of_wf del: scan_members.simps)
qed

lemma scan_key:
  assumes "blank w1" "blank w2" "value_start t" "scan_value pf n (t @ r) = Some (v, r)"
  shows "scan_members pf (Suc n) ((json_quote k @ w1 @ '':'' @ w2 @ t) @ r) =
    (case skip_ws r of
       [] \<Rightarrow> None
     | d # r' \<Rightarrow>
         if d = CHR 0x7D then Some ([(k, v)], r')
         else if d = CHR '','' then map_option (\<lambda>(kvs, r''). ((k, v) # kvs, r'')) (scan_members pf n (skip_ws r'))
         else None)"
proof -
  have s: "scan_str (concat (map json_escape k) @ CHR 0x22 # w1 @ CHR '':'' # w2 @ t @ r) = Some (k, w1 @ CHR '':'' # w2 @ t @ r)"
    by (rule scan_quoted)
  have w: "skip_ws (w1 @ CHR '':'' # w2 @ t @ r) = CHR '':'' # w2 @ t @ r" "skip_ws (w2 @ t @ r) = t @ r"
    using assms(1-3) by (simp_all add: skip_blank skip_value_start)
  show ?thesis using assms(4) by (simp add: quote_eq s w cong: list.case_cong del: scan_str.simps scan_value.simps)
qed

lemma scan_texts:
  "json_text fr pf j t \<Longrightarrow> length t \<le> n \<Longrightarrow> ends r \<Longrightarrow> scan_value pf n (t @ r) = Some (j, r)"
  "elems_text fr pf xs u \<Longrightarrow> length u < n \<Longrightarrow> scan_elems pf n (u @ CHR 0x5D # r) = Some (xs, r)"
  "members_text fr pf kvs v \<Longrightarrow> length v < n \<Longrightarrow> scan_members pf n (v @ CHR 0x7D # r) = Some (kvs, r)"
proof (induction arbitrary: n r and n r and n r rule: json_text_elems_text_members_text.inducts)
  case (int_text i)
  then obtain m where "n = Suc m" using scan_number_start[OF scan_number_int[of undefined i]] by (cases n) auto
  then show ?case using scan_value_number[OF scan_number_int int_text(2)] by simp
next
  case (float_text x)
  then obtain m where "n = Suc m" using scan_number_start[of pf "fr x"] by (cases n) (auto simp: float_ok_def)
  then show ?case using scan_value_number[OF _ float_text(3)] float_text(1) by (simp add: float_ok_def)
next
  case (list_text w xs t)
  then obtain m where m: "n = Suc m" "length t < m" by (cases n) auto
  show ?case unfolding m(1) by (rule scan_value_list[OF list_text(1) texts_start(2)[OF list_text(2)] list_text(3)[OF m(2)]])
next
  case (obj_text w kvs t)
  then obtain m where m: "n = Suc m" "length t < m" by (cases n) auto
  show ?case unfolding m(1)
    by (rule scan_value_obj[OF obj_text(1) texts_start(3)[OF obj_text(3)] obj_text(4)[OF m(2)] obj_text(2)])
next
  case (last_elem x t w)
  then obtain m where m: "n = Suc m" "length t \<le> m" by (cases n) auto
  have "scan_value pf m (t @ w @ CHR 0x5D # r) = Some (x, w @ CHR 0x5D # r)" using last_elem m by simp
  then show ?case using last_elem(3) by (simp add: m(1) skip_blank del: scan_value.simps)
next
  case (more_elems x t w w' xs ts)
  then obtain m where m: "n = Suc m" "length t \<le> m" "length ts < m" by (cases n) auto
  have "scan_value pf m (t @ w @ CHR '','' # w' @ ts @ CHR 0x5D # r) = Some (x, w @ CHR '','' # w' @ ts @ CHR 0x5D # r)"
    using more_elems m by simp
  then show ?case using more_elems(4)[OF m(3), of r] more_elems(5,6) texts_start(2)[OF more_elems(3)]
    by (simp add: m(1) skip_blank skip_value_start del: scan_value.simps)
next
  case (last_member x t w1 w2 w k)
  then obtain m where m: "n = Suc m" "length t \<le> m" by (cases n) auto
  have "scan_value pf m (t @ w @ CHR 0x7D # r) = Some (x, w @ CHR 0x7D # r)" using last_member m by simp
  from scan_key[OF last_member(3,4) texts_start(1)[OF last_member(1)] this, of k] show ?case
    using last_member(5) by (simp add: m(1) skip_blank del: scan_members.simps)
next
  case (more_members x t w1 w2 w w' kvs ts k)
  then obtain m where m: "n = Suc m" "length t \<le> m" "length ts < m" by (cases n) auto
  have "scan_value pf m (t @ w @ CHR '','' # w' @ ts @ CHR 0x7D # r) = Some (x, w @ CHR '','' # w' @ ts @ CHR 0x7D # r)"
    using more_members m by simp
  from scan_key[OF more_members(5,6) texts_start(1)[OF more_members(1)] this, of k] show ?case
    using more_members(4)[OF m(3), of r] more_members(7,8) texts_start(3)[OF more_members(3)]
    by (simp add: m(1) skip_blank skip_value_start del: scan_members.simps)
qed (rule scan_simple; simp add: quote_eq)+

theorem loads_text:
  assumes "json_text fr pf j t" "blank w" "blank w'"
  shows "json_loads pf (w @ t @ w') = Some j"
proof -
  have "scan_value pf (length (w @ t @ w')) (t @ w') = Some (j, w')" using scan_texts(1)[OF assms(1)] assms(3) by simp
  moreover have "skip_ws (w @ t @ w') = t @ w'"
    using assms(2) texts_start(1)[OF assms(1)] by (simp add: skip_blank skip_value_start)
  moreover have "skip_ws w' = []" using assms(3) by (simp add: list_all_iff)
  ultimately show ?thesis by (simp add: json_loads_def)
qed

section \<open>The encoder writes such a text\<close>

text \<open>\<open>json.dumps(v, indent=2)\<close> at a nesting depth.\<close>

definition newline_indent :: "nat \<Rightarrow> string" where
  "newline_indent depth = CHR 0x0A # replicate (2 * depth) (CHR '' '')"

fun json_indented :: "(rat \<Rightarrow> string) \<Rightarrow> nat \<Rightarrow> json \<Rightarrow> string" where
  "json_indented fr depth (JList xs) =
     (if xs = [] then ''[]''
      else ''['' @ newline_indent (Suc depth) @
             join_with ('','' @ newline_indent (Suc depth)) (map (json_indented fr (Suc depth)) xs) @ newline_indent depth @ '']'')"
| "json_indented fr depth (JObj kvs) =
     (if kvs = [] then ''{}''
      else ''{'' @ newline_indent (Suc depth) @
             join_with ('','' @ newline_indent (Suc depth))
               (map (\<lambda>(k, v). json_quote k @ '': '' @ json_indented fr (Suc depth) v) kvs) @ newline_indent depth @ ''}'')"
| "json_indented fr depth v = json_dumps fr '', '' '': '' v"

text \<open>A value of Python dictionaries, whose keys are distinct, with floats that are read back.\<close>

fun json_ok :: "(rat \<Rightarrow> string) \<Rightarrow> (string \<Rightarrow> rat) \<Rightarrow> json \<Rightarrow> bool" where
  "json_ok fr pf (JFloat x) = float_ok fr pf x"
| "json_ok fr pf (JList xs) = (\<forall>x \<in> set xs. json_ok fr pf x)"
| "json_ok fr pf (JObj kvs) = (wf_dict kvs \<and> (\<forall>(k, v) \<in> set kvs. json_ok fr pf v))"
| "json_ok fr pf v = True"

lemma elems_join:
  assumes "xs \<noteq> []" "\<forall>x \<in> set xs. json_text fr pf x (f x)" "blank w" "blank w'"
  shows "elems_text fr pf xs (join_with ('','' @ w') (map f xs) @ w)"
  using assms(1,2)
proof (induction xs rule: induct_list012)
  case (2 x)
  then show ?case using last_elem[of fr pf x "f x" w] assms(3) by simp
next
  case (3 x y zs)
  then show ?case using more_elems[of fr pf x "f x" "[]" w'] assms(4) by simp
qed simp

lemma members_join:
  assumes "kvs \<noteq> []" "\<forall>(k, v) \<in> set kvs. json_text fr pf v (f v)" "blank w" "blank w'" "blank w2"
  shows "members_text fr pf kvs (join_with ('','' @ w') (map (\<lambda>(k, v). json_quote k @ ('':'' @ w2) @ f v) kvs) @ w)"
  using assms(1,2)
proof (induction kvs rule: induct_list012)
  case (2 kv)
  then show ?case using last_member[of fr pf "snd kv" "f (snd kv)" "[]" w2 w "fst kv"] assms(3,5) by (auto simp: case_prod_beta)
next
  case (3 kv kv' zs)
  then show ?case using more_members[of fr pf "snd kv" "f (snd kv)" "[]" w2 "[]" w' _ _ "fst kv"] assms(4,5)
    by (auto simp: case_prod_beta)
qed simp

lemma dumps_text:
  assumes "blank w" "blank w2"
  shows "json_ok fr pf j \<Longrightarrow> json_text fr pf j (json_dumps fr ('','' @ w) ('':'' @ w2) j)"
proof (induction j)
  case (JBool b)
  then show ?case by (cases b) (auto intro: true_text false_text)
next
  case (JList xs)
  then show ?case
    using elems_join[of xs fr pf "json_dumps fr ('','' @ w) ('':'' @ w2)" "[]" w] assms(1)
      empty_list_text[of "[]"] list_text[of "[]" fr pf xs] by (cases "xs = []") auto
next
  case (JObj kvs)
  then have "\<forall>(k, v) \<in> set kvs. json_text fr pf v (json_dumps fr ('','' @ w) ('':'' @ w2) v)" by fastforce
  with JObj.prems show ?case
    using members_join[of kvs fr pf "json_dumps fr ('','' @ w) ('':'' @ w2)" "[]" w w2] assms
      empty_obj_text[of "[]"] obj_text[of "[]" kvs fr pf] by (cases "kvs = []") auto
qed (auto intro: json_text_elems_text_members_text.intros)

lemma blank_newline [simp]: "blank (newline_indent depth)"
  by (simp add: newline_indent_def json_ws_def list_all_iff)

lemma indented_text: "json_ok fr pf j \<Longrightarrow> json_text fr pf j (json_indented fr depth j)"
proof (induction j arbitrary: depth)
  case (JBool b)
  then show ?case by (cases b) (auto intro: true_text false_text)
next
  case (JList xs)
  let ?w = "newline_indent depth" and ?w' = "newline_indent (Suc depth)"
  show ?case
  proof (cases "xs = []")
    case False
    then have "elems_text fr pf xs (join_with ('','' @ ?w') (map (json_indented fr (Suc depth)) xs) @ ?w)"
      by (rule elems_join) (use JList in auto)
    from list_text[OF blank_newline this, of "Suc depth"] False show ?thesis by simp
  qed (use empty_list_text[of "[]"] in simp)
next
  case (JObj kvs)
  let ?w = "newline_indent depth" and ?w' = "newline_indent (Suc depth)"
  show ?case
  proof (cases "kvs = []")
    case False
    then have "members_text fr pf kvs (join_with ('','' @ ?w') (map (\<lambda>(k, v). json_quote k @ ('':'' @ '' '') @ json_indented fr (Suc depth) v) kvs) @ ?w)"
      by (rule members_join) (use JObj in \<open>fastforce simp: json_ws_def\<close>)+
    from obj_text[OF blank_newline _ this, of "Suc depth"] False JObj.prems show ?thesis by simp
  qed (use empty_obj_text[of "[]"] in simp)
qed (auto intro: json_text_elems_text_members_text.intros)

lemma loads_dumps:
  "json_ok fr pf j \<Longrightarrow> json_loads pf (json_dumps fr '','' '':'' j) = Some j"
  "json_ok fr pf j \<Longrightarrow> json_loads pf (json_dumps fr '', '' '': '' j) = Some j"
  using loads_text[OF dumps_text[of "[]" "[]" fr pf j], of "[]" "[]"]
    loads_text[OF dumps_text[of "'' ''" "'' ''" fr pf j], of "[]" "[]"] by (simp_all add: json_ws_def)

lemma loads_indented:
  "json_ok fr pf j \<Longrightarrow> blank w \<Longrightarrow> blank w' \<Longrightarrow> json_loads pf (w @ json_indented fr 0 j @ w') = Some j"
  by (rule loads_text[OF indented_text])

end
