(* ===== verification/Discovery_Properties.thy ===== *)
theory Discovery_Properties
  imports Discovery Coordinator_Behaviour Json_Text
begin

text \<open>
  Properties of peer discovery: the envelope codec, the bounded memory of the gossip
  dispatcher, gossip that does not echo, the join handshake, and trust on first use.
\<close>

section \<open>Envelopes\<close>

lemma contains_append: "contains x (a @ x @ b)"
proof (induction a)
  case Nil
  have "take (length x) (x @ b) = x" by simp
  then show ?case by (cases "x @ b") (simp_all del: append_eq_conv_conj)
qed simp

lemma dumps_object_first:
  "\<exists>rest. json_dumps fr comma colon (JObj ((k, v) # kvs)) =
     ''{'' @ (json_quote k @ colon @ json_dumps fr comma colon v) @ rest"
  by (cases kvs) auto

lemma quote_prefix: "\<exists>rest. json_quote (p @ s) = char_of (34::nat) # concat (map json_escape p) @ rest"
  by (simp add: json_quote_def)

lemma escape_prefix: "concat (map json_escape DISCOVERY_TYPE_PREFIX) = DISCOVERY_TYPE_PREFIX"
  by code_simp

lemma quote_type: "json_quote ''type'' = char_of (34::nat) # ''type'' @ [char_of (34::nat)]"
  by code_simp

lemma dumps_sniffed:
  assumes "strip_prefix DISCOVERY_TYPE_PREFIX st = Some s"
  shows "is_discovery_message (json_dumps fr '', '' '': '' (JObj ((''type'', JStr st) # kvs)))"
proof -
  let ?q = "[char_of (34::nat)] :: string"
  from assms have st: "st = DISCOVERY_TYPE_PREFIX @ s" by (simp add: strip_prefix_Some)
  obtain r where r: "json_dumps fr '', '' '': '' (JObj ((''type'', JStr st) # kvs)) =
      ''{'' @ (json_quote ''type'' @ '': '' @ json_quote st) @ r"
    using dumps_object_first[of fr "'', ''" "'': ''" "''type''" "JStr st" kvs] by auto
  obtain r' where r': "json_quote st = ?q @ DISCOVERY_TYPE_PREFIX @ r'"
    using quote_prefix[of DISCOVERY_TYPE_PREFIX s] by (auto simp: st escape_prefix)
  have "json_dumps fr '', '' '': '' (JObj ((''type'', JStr st) # kvs)) =
      ''{'' @ (?q @ ''type'' @ ?q @ '': '' @ ?q @ DISCOVERY_TYPE_PREFIX) @ (r' @ r)"
    unfolding r r' quote_type by simp
  then show ?thesis
    unfolding is_discovery_message_def Let_def by (metis contains_append)
qed

text \<open>A discovery envelope is rejected when its subtype lacks the prefix, and otherwise its
  text passes the quick check of the receiver and decodes to the subtype, the sender's key
  and the payload it was made from.\<close>

theorem envelope_roundtrip:
  assumes "json_ok fr pf (JObj body)"
  shows "encode_discovery_envelope st pub body = None \<and> strip_prefix DISCOVERY_TYPE_PREFIX st = None \<or>
   (\<exists>j. encode_discovery_envelope st pub body = Some j \<and>
      is_discovery_message (json_dumps fr '', '' '': '' j) \<and>
      decode_discovery_envelope (json_loads pf (json_dumps fr '', '' '': '' j)) = Some (st, pub, body))"
proof (cases "strip_prefix DISCOVERY_TYPE_PREFIX st")
  case None
  then show ?thesis by (simp add: encode_discovery_envelope_def)
next
  case (Some s)
  let ?j = "JObj [(''type'', JStr st), (''sender_public_key_pem_b64'', JStr (b64encode pub)), (''payload'', JObj body)]"
  have "encode_discovery_envelope st pub body = Some ?j" using Some by (simp add: encode_discovery_envelope_def)
  moreover have "json_loads pf (json_dumps fr '', '' '': '' ?j) = Some ?j"
    by (rule loads_dumps(2)) (use assms in auto)
  then have "decode_discovery_envelope (json_loads pf (json_dumps fr '', '' '': '' ?j)) = Some (st, pub, body)"
    using Some by (simp add: decode_discovery_envelope_def b64_roundtrip del: json_dumps.simps)
  ultimately show ?thesis using dumps_sniffed[OF Some] by blast
qed

lemma network_message_roundtrip:
  "nm_sender_id m \<noteq> [] \<Longrightarrow> decode_message (Some (encode_message m)) = Some m"
  by (cases "nm_type m") (simp_all add: decode_message_def encode_message_def message_type_of_def)

section \<open>The memory of the gossip dispatcher\<close>

abbreviation last_n :: "nat \<Rightarrow> 'a list \<Rightarrow> 'a list" where
  "last_n n xs \<equiv> drop (length xs - n) xs"

lemma remdups_snoc: "remdups (xs @ [x]) = removeAll x (remdups xs) @ [x]"
  by (induction xs) auto

lemma last_n_split:
  obtains a s where "xs = a @ s" "last_n n xs = s" "length s \<le> n" "a = [] \<or> length s = n"
proof (rule that[of "take (length xs - n) xs" "last_n n xs"])
  show "take (length xs - n) xs = [] \<or> length (last_n n xs) = n" by (cases "length xs \<le> n") auto
qed auto

lemma last_n_append: "length s = n \<Longrightarrow> last_n n (a @ s) = s"
  by simp

lemma fst_mark_seen: "fst (mark_seen i s) = (i \<in> set s)"
  by (simp add: mark_seen_def Let_def)

lemma mark_seen_step:
  assumes d: "distinct xs" and n: "0 < MAX_SEEN_EVENTS"
  shows "snd (mark_seen i (last_n MAX_SEEN_EVENTS xs)) = last_n MAX_SEEN_EVENTS (removeAll i xs @ [i])"
proof -
  obtain a s where s: "xs = a @ s" "last_n MAX_SEEN_EVENTS xs = s" "length s \<le> MAX_SEEN_EVENTS"
    "a = [] \<or> length s = MAX_SEEN_EVENTS" by (rule last_n_split)
  show ?thesis
  proof (cases "i \<in> set s")
    case True
    then have "i \<notin> set a" using d s(1) by auto
    then have r: "removeAll i xs @ [i] = a @ (removeAll i s @ [i])" by (simp add: s(1))
    have l: "length (removeAll i s @ [i]) = length s"
      using True d s(1) length_removeAll_less[of i s]
      by (simp add: distinct_remove1_removeAll[symmetric] length_remove1 Suc_pred length_pos_if_in_set)
    have "last_n MAX_SEEN_EVENTS (removeAll i xs @ [i]) = removeAll i s @ [i]"
      using s(3,4) l unfolding r by auto
    with True s(2) show ?thesis by (simp add: mark_seen_def)
  next
    case False
    then have r: "removeAll i xs @ [i] = removeAll i a @ (s @ [i])" by (simp add: s(1))
    show ?thesis
    proof (cases "length s = MAX_SEEN_EVENTS")
      case True
      with n obtain y ys where y: "s = y # ys" by (cases s) auto
      have "last_n MAX_SEEN_EVENTS ((removeAll i a @ [y]) @ (ys @ [i])) = ys @ [i]"
        by (rule last_n_append) (use True y in simp)
      then have "last_n MAX_SEEN_EVENTS (removeAll i xs @ [i]) = ys @ [i]" unfolding r y by simp
      with False True s(2) y show ?thesis by (simp add: mark_seen_def Let_def)
    next
      case short: False
      with s(4) have "a = []" by simp
      with short s(3) have "last_n MAX_SEEN_EVENTS (removeAll i xs @ [i]) = s @ [i]" unfolding r by simp
      with False short s(2,3) show ?thesis by (simp add: mark_seen_def Let_def)
    qed
  qed
qed

text \<open>The gossip memory is a check-and-mark filter that forgets.\<close>

interpretation gossip_filter: dedup_filter "\<lambda>i s. (\<not> fst (mark_seen i s), snd (mark_seen i s))" set "\<lambda>_. True"
  by unfold_locales
    (auto simp: mark_seen_def MAX_SEEN_EVENTS_def Let_def tl_append split: if_splits list.splits)

text \<open>However many events the gossip dispatcher has seen, its memory is the ten thousand
  most recently seen distinct event identifiers, in order of last use: an identifier is
  recognised as a duplicate exactly when it is one of these.\<close>

theorem gossip_memory_is_lru:
  "foldl (\<lambda>s i. snd (mark_seen i s)) [] ids = last_n 10000 (remdups ids) \<and>
   fst (mark_seen i (foldl (\<lambda>s i. snd (mark_seen i s)) [] ids)) = (i \<in> set (last_n 10000 (remdups ids)))"
proof -
  have "foldl (\<lambda>s i. snd (mark_seen i s)) [] ids = last_n MAX_SEEN_EVENTS (remdups ids)"
  proof (induction ids rule: rev_induct)
    case (snoc i ids)
    have "foldl (\<lambda>s i. snd (mark_seen i s)) [] (ids @ [i]) =
        snd (mark_seen i (last_n MAX_SEEN_EVENTS (remdups ids)))"
      using snoc by simp
    also have "\<dots> = last_n MAX_SEEN_EVENTS (remdups (ids @ [i]))"
      unfolding remdups_snoc by (rule mark_seen_step) (simp_all add: MAX_SEEN_EVENTS_def)
    finally show ?case .
  qed simp
  then show ?thesis by (simp only: fst_mark_seen MAX_SEEN_EVENTS_def)
qed

section \<open>Gossip does not echo\<close>

lemma dispatch_all_remote: "\<forall>e \<in> set es. ev_source e = ''remote'' \<Longrightarrow> dispatch_all es d = (d, [])"
  by (induction es) (simp_all add: dispatch_def)

lemma after_service_frame:
  "dn_service (fst (after_service c d)) = c"
  "dn_public_key (fst (after_service c d)) = dn_public_key d"
  "dn_transport (fst (after_service c d)) = dn_transport d"
  "dn_config (fst (after_service c d)) = dn_config d"
  "dn_pending (fst (after_service c d)) = dn_pending d"
proof -
  have *: "dn_service (fst (dispatch_all es x)) = dn_service x \<and>
      dn_public_key (fst (dispatch_all es x)) = dn_public_key x \<and>
      dn_transport (fst (dispatch_all es x)) = dn_transport x \<and>
      dn_config (fst (dispatch_all es x)) = dn_config x \<and>
      dn_pending (fst (dispatch_all es x)) = dn_pending x" for es x
    by (induction es arbitrary: x) (simp_all add: dispatch_def gossip_def case_prod_unfold Let_def)
  show "dn_service (fst (after_service c d)) = c"
    "dn_public_key (fst (after_service c d)) = dn_public_key d"
    "dn_transport (fst (after_service c d)) = dn_transport d"
    "dn_config (fst (after_service c d)) = dn_config d"
    "dn_pending (fst (after_service c d)) = dn_pending d"
    by (simp_all add: after_service_def *)
qed

lemma registered_alive: "snd (record_heartbeat now u (register_member now u p)) = []"
  by (simp add: record_heartbeat_def register_member_def map_of_dict_set Let_def)

lemma remote_event_out:
  "\<exists>e' dl. c_out (apply_remote_event now e c) = c_out c @ nt_dispatch e' dl (c_subs c) \<and> ev_source e' = ''remote''"
proof -
  obtain le l where a: "append_remote e (c_log c) = (le, l)" by fastforce
  obtain s dl where ap: "apply_event (c_snap c) le = (s, dl)" by fastforce
  have src: "ev_source le = ''remote''" using a by (auto simp: append_remote_def Let_def)
  let ?c = "notify le dl (c\<lparr>c_log := l, c_snap := s\<rparr>)"
  have hb: "c_out (fst (presence_heartbeat now u (presence_register now u ?c))) = c_out ?c" for u
    using registered_alive[of now u "c_presence ?c"]
    by (auto simp: presence_heartbeat_def presence_register_def split: prod.splits)
  have "c_out (apply_remote_event now e c) = c_out c @ nt_dispatch le dl (c_subs c)"
    using hb by (simp add: apply_remote_event_def a ap Let_def)
  with src show ?thesis by blast
qed

lemma remote_events_out:
  "\<exists>ns. c_out (apply_remote_snapshot now es c) = c_out c @ ns \<and> (\<forall>(h, e, dl) \<in> set ns. ev_source e = ''remote'')"
proof (induction es arbitrary: c)
  case Nil
  then show ?case by (simp add: apply_remote_snapshot_def)
next
  case (Cons e es)
  obtain e' dl where e: "c_out (apply_remote_event now e c) = c_out c @ nt_dispatch e' dl (c_subs c)"
    "ev_source e' = ''remote''" using remote_event_out by blast
  obtain ns where ns: "c_out (apply_remote_snapshot now es (apply_remote_event now e c)) =
      c_out (apply_remote_event now e c) @ ns" "\<forall>(h, e, dl) \<in> set ns. ev_source e = ''remote''"
    using Cons by blast
  have "\<forall>(h, x, d) \<in> set (nt_dispatch e' dl (c_subs c)). ev_source x = ''remote''"
    using e(2) by (auto simp: nt_dispatch_def split: option.splits)
  with e(1) ns show ?case
    by (intro exI[of _ "nt_dispatch e' dl (c_subs c) @ ns"]) (auto simp: apply_remote_snapshot_def)
qed

lemma after_remote_silent:
  "after_service (apply_remote_snapshot now es (dn_service d)) d =
     (d\<lparr>dn_service := apply_remote_snapshot now es (dn_service d)\<rparr>, [])"
proof -
  obtain ns where ns: "c_out (apply_remote_snapshot now es (dn_service d)) = c_out (dn_service d) @ ns"
    "\<forall>(h, e, dl) \<in> set ns. ev_source e = ''remote''" using remote_events_out by blast
  then have "\<forall>e \<in> set (new_notices (dn_service d) (apply_remote_snapshot now es (dn_service d))). ev_source e = ''remote''"
    by (auto simp: new_notices_def)
  then show ?thesis unfolding after_service_def by (rule dispatch_all_remote)
qed

lemma after_remote_event_silent:
  "after_service (apply_remote_event now e (dn_service d)) d =
     (d\<lparr>dn_service := apply_remote_event now e (dn_service d)\<rparr>, [])"
  using after_remote_silent[of now "[e]" d] by (simp add: apply_remote_snapshot_def)

lemma mark_seen_twice: "fst (mark_seen i (snd (mark_seen i s)))"
proof -
  have "i \<in> set (snd (mark_seen i s))" by (auto simp: mark_seen_def Let_def MAX_SEEN_EVENTS_def) (cases s; simp)
  then show ?thesis by (simp add: fst_mark_seen)
qed

lemma handle_gossip_read:
  assumes "truthy (get_or body ''event'' JNull)" "event_from_dict (get_or body ''event'' JNull) = Some e"
  shows "handle_gossip now body d =
    (if fst (mark_seen (gossip_id e) (dn_seen d))
     then (d\<lparr>dn_seen := snd (mark_seen (gossip_id e) (dn_seen d))\<rparr>, [], Inr DHandled)
     else (d\<lparr>dn_seen := snd (mark_seen (gossip_id e) (dn_seen d)),
             dn_service := apply_remote_event now e (dn_service d)\<rparr>, [], Inr DHandled))"
  using assms after_remote_event_silent[of now e "d\<lparr>dn_seen := snd (mark_seen (gossip_id e) (dn_seen d))\<rparr>"]
  by (simp add: handle_gossip_def Let_def case_prod_unfold)

text \<open>C28. Gossip travels one hop: whatever a gossip message contains, handling it sends nothing.
  A readable event is applied the first time it arrives; delivered again at once it changes
  the membership no further.\<close>

theorem gossip_does_not_echo:
  "snd (handle_gossip now body d) = ([], Inr DHandled) \<and>
   dn_service (fst (handle_gossip t body (fst (handle_gossip now body d)))) =
     dn_service (fst (handle_gossip now body d))"
proof (cases "event_from_dict (get_or body ''event'' JNull)")
  case None
  then show ?thesis by (simp add: handle_gossip_def Let_def)
next
  case (Some e)
  show ?thesis
  proof (cases "truthy (get_or body ''event'' JNull)")
    case True
    show ?thesis using mark_seen_twice[of "gossip_id e" "dn_seen d"] by (simp add: handle_gossip_read[OF True Some])
  qed (simp add: handle_gossip_def Let_def)
qed

section \<open>The join handshake\<close>

lemma handler_ok_auto: "handler_ok s0 (Some (auto_complete_backfill_handler now))"
  unfolding handler_ok_def auto_complete_backfill_handler_def
  using coord_inv_start_backfill coord_inv_complete_backfill
  by (auto split: prod.splits option.splits) (metis fst_conv)+

lemma join_member_inv:
  "coord_inv s0 (dn_service d) \<Longrightarrow> coord_inv s0 (fst (join_member uid now u nm pub d))"
  unfolding join_member_def by (rule coord_inv_join) (auto simp: handler_ok_auto, simp add: handler_ok_def)

lemma remote_event_log: "c_log (apply_remote_event now e c) = snd (append_remote e (c_log c))"
proof -
  obtain le l where a: "append_remote e (c_log c) = (le, l)" by fastforce
  obtain s dl where ap: "apply_event (c_snap c) le = (s, dl)" by fastforce
  let ?c = "notify le dl (c\<lparr>c_log := l, c_snap := s\<rparr>)"
  have hb: "c_log (fst (presence_heartbeat now u (presence_register now u ?c))) = c_log ?c" for u
    using registered_alive[of now u "c_presence ?c"]
    by (auto simp: presence_heartbeat_def presence_register_def split: prod.splits)
  show ?thesis using hb by (simp add: apply_remote_event_def a ap Let_def)
qed

lemma remote_snapshot_events:
  "user_events u (el_log (c_log (apply_remote_snapshot now es c))) =
     user_events u (el_log (c_log c)) @ user_events u es"
  by (induction es arbitrary: c)
    (simp_all add: apply_remote_snapshot_def remote_event_log append_remote_def Let_def)

lemma joiner_state:
  assumes "coord_inv (new_snap room) c" and "el_log (c_log c) = []"
  shows "member_st (c_snap (apply_remote_snapshot now es c)) u = foldl next_state None (user_events u es)"
  using coord_member_state[OF coord_inv_remote_snapshot[OF assms(1)], of now es u] assms(2)
  by (simp add: remote_snapshot_events new_snap_def)

lemma accepted_response:
  assumes j: "join_member uid now a (case map_of body ''display_name'' of Some (JStr n) \<Rightarrow> n | _ \<Rightarrow> ''Unknown'') pub d = (c, Inr jr)"
    and "jr_accepted jr" and "dn_transport d" and "parse_address a = Some hp"
  shows "\<exists>out d'. handle_join_request uid now a pub body d =
      (d', out @ [SendTo hp (envelope SUBTYPE_JOIN_RESPONSE d'
         [(''accepted'', JBool True), (''events'', JList (map event_to_dict (get_events_since 0 (c_log c))))])], Inr DHandled)
    \<and> dn_service d' = c \<and> dn_public_key d' = dn_public_key d"
proof -
  obtain d' out where o: "after_service c d = (d', out)" by fastforce
  have f: "dn_service d' = c" "dn_public_key d' = dn_public_key d" "dn_transport d' = dn_transport d"
    using after_service_frame[of c d] o by simp_all
  with assms o show ?thesis
    by (auto simp: handle_join_request_def Let_def send_join_response_def)
qed

lemma decode_envelope:
  assumes "strip_prefix DISCOVERY_TYPE_PREFIX st \<noteq> None"
  shows "decode_discovery_envelope (Some (envelope st d body)) = Some (st, dn_public_key d, body)"
  using assms by (auto simp: envelope_def encode_discovery_envelope_def decode_discovery_envelope_def b64_roundtrip)

lemma join_response_prefix: "strip_prefix DISCOVERY_TYPE_PREFIX SUBTYPE_JOIN_RESPONSE \<noteq> None"
  by code_simp

text \<open>What a fresh joiner knows after the response: the states that the events still in the
  seed's log lead to.\<close>

lemma handshake:
  assumes inv: "coord_inv s0 (dn_service seed)"
    and "dn_transport seed" and "parse_address a = Some hp"
    and j: "join_member uid now a (case map_of body ''display_name'' of Some (JStr n) \<Rightarrow> n | _ \<Rightarrow> ''Unknown'') pub seed = (c, Inr jr)"
    and "jr_accepted jr"
    and fresh: "coord_inv (new_snap room) (dn_service jn)" "el_log (c_log (dn_service jn)) = []"
  shows "\<exists>seed' out resp payld. handle_join_request uid now a pub body seed = (seed', out @ [SendTo hp resp], Inr DHandled) \<and>
    dn_service seed' = c \<and>
    decode_discovery_envelope (Some resp) = Some (SUBTYPE_JOIN_RESPONSE, dn_public_key seed, payld) \<and>
    (\<forall>u. member_st (c_snap (dn_service (fst (handle_join_response t sa payld jn)))) u =
       foldl next_state None (user_events u (el_log (c_log c))))"
proof -
  from accepted_response[OF j assms(5,2,3)]
  obtain out seed' where o: "handle_join_request uid now a pub body seed =
      (seed', out @ [SendTo hp (envelope SUBTYPE_JOIN_RESPONSE seed'
         [(''accepted'', JBool True), (''events'', JList (map event_to_dict (get_events_since 0 (c_log c))))])], Inr DHandled)"
    "dn_service seed' = c" "dn_public_key seed' = dn_public_key seed" by blast
  let ?p = "[(''accepted'', JBool True), (''events'', JList (map event_to_dict (get_events_since 0 (c_log c))))]"
  have "coord_inv s0 c" using join_member_inv[OF inv] j by (metis fst_conv)
  then have wf: "get_events_since 0 (c_log c) = el_log (c_log c)" by (simp add: coord_inv_def events_since_zero)
  have r: "handle_join_response t sa ?p jn =
      (wake_pending sa (jn\<lparr>dn_service := apply_remote_snapshot t (map norm_event (el_log (c_log c))) (dn_service jn)\<rparr>), [], Inr DHandled)"
    by (simp add: handle_join_response_def decode_events wf after_remote_silent)
  have "member_st (c_snap (dn_service (fst (handle_join_response t sa ?p jn)))) u =
       foldl next_state None (user_events u (el_log (c_log c)))" for u
    unfolding r using joiner_state[OF fresh, of t "map norm_event (el_log (c_log c))" u]
    by (simp add: wake_pending_def filter_map comp_def)
  with o decode_envelope[OF join_response_prefix, of seed' ?p] show ?thesis by (metis o(3))
qed


definition demo_seed :: discovery where
  "demo_seed = (new_discovery ''room'' (default_config ''s:1'') [] True 0)\<lparr>dn_auto := True\<rparr>"

definition demo_joiner :: discovery where
  "demo_joiner = new_discovery ''room'' (default_config ''j:2'') [] True 0"

lemma fresh_service:
  "dn_service (new_discovery room cfg [] tr now) = new_coord room (Some (cf_advertise_address cfg)) False []"
proof -
  have "dur_recover room \<lparr>du_disk = [], du_interval = 100\<rparr> = None"
    by (simp add: dur_recover_def list_checkpoints_def List.map_filter_simps)
  then show ?thesis by (simp add: new_discovery_def recover_def new_coord_def)
qed

lemma fresh_discovery_inv:
  "coord_inv (new_snap room) (dn_service (new_discovery room cfg [] tr now))"
  "el_log (c_log (dn_service (new_discovery room cfg [] tr now))) = []"
  unfolding fresh_service by (rule coord_inv_new, simp add: new_coord_def new_log_def)

lemma join_member_result:
  assumes "\<not> isl (snd (join_member uid now u nm pub d))"
  shows "join_member uid now u nm pub d =
    (fst (join_member uid now u nm pub d), Inr (projr (snd (join_member uid now u nm pub d))))"
  using assms by (cases "join_member uid now u nm pub d"; cases "snd (join_member uid now u nm pub d)") auto


text \<open>A seed restarted from a checkpoint omits members: its log holds only the events since
  the checkpoint, so a member without any of those keeps its state at the seed but is
  unknown to a joiner that has processed the seed's response.\<close>

theorem restarted_seed_omits_members:
  assumes "coord_inv s0 (dn_service seed)"
    and "dn_transport seed" and "parse_address a = Some hp"
    and "join_member uid now a (case map_of body ''display_name'' of Some (JStr n) \<Rightarrow> n | _ \<Rightarrow> ''Unknown'') pub seed = (c, Inr jr)"
    and "jr_accepted jr"
    and "coord_inv (new_snap room') (dn_service jn)" and "el_log (c_log (dn_service jn)) = []"
    and quiet: "user_events u (el_log (c_log c)) = []"
  shows "\<exists>seed' out resp payld. handle_join_request uid now a pub body seed = (seed', out @ [SendTo hp resp], Inr DHandled) \<and>
    decode_discovery_envelope (Some resp) = Some (SUBTYPE_JOIN_RESPONSE, dn_public_key seed, payld) \<and>
    member_st (c_snap (dn_service seed')) u = member_st s0 u \<and>
    member_st (c_snap (dn_service (fst (handle_join_response t sa payld jn)))) u = None"
proof -
  have inv: "coord_inv s0 c" using join_member_inv[OF assms(1)] assms(4) by (metis fst_conv)
  have "member_st (c_snap c) u = member_st s0 u" using coord_member_state[OF inv, of u] quiet by simp
  from handshake[OF assms(1-7), of t sa] obtain seed' out resp payld where
    h: "handle_join_request uid now a pub body seed = (seed', out @ [SendTo hp resp], Inr DHandled)"
      "dn_service seed' = c"
      "decode_discovery_envelope (Some resp) = Some (SUBTYPE_JOIN_RESPONSE, dn_public_key seed, payld)"
      "\<forall>u. member_st (c_snap (dn_service (fst (handle_join_response t sa payld jn)))) u =
       foldl next_state None (user_events u (el_log (c_log c)))" by blast
  have "member_st (c_snap (dn_service (fst (handle_join_response t sa payld jn)))) u = None"
    using spec[OF h(4), of u] unfolding quiet by (simp only: foldl.simps)
  with h \<open>member_st (c_snap c) u = member_st s0 u\<close> show ?thesis by blast
qed

definition old_snap :: snap where
  "old_snap = (new_snap ''room'')\<lparr>sn_members := [(''m:9'', \<lparr>mi_user_id = ''m:9'', mi_display_name = ''M'',
     mi_state = ACTIVE, mi_joined_at = 0, mi_last_heartbeat = 0, mi_version = 3, mi_public_key = None\<rparr>)],
     sn_version := 3, sn_as_of := 3\<rparr>"

definition restarted_seed :: discovery where
  "restarted_seed = demo_seed\<lparr>dn_service := (new_coord ''room'' (Some ''s:1'') False [])
     \<lparr>c_snap := old_snap, c_log := (new_log ''room'')\<lparr>el_next := 4\<rparr>\<rparr>\<rparr>"

lemma restarted_inv: "coord_inv old_snap (dn_service restarted_seed)"
  using coord_inv_new[of "''room''" "Some ''s:1''" False "[]"]
  by (simp add: coord_inv_def projects_def restarted_seed_def log_wf_def new_log_def old_snap_def new_coord_def)

theorem restarted_seed_omits_members_witness:
  "\<exists>seed' out resp payld. handle_join_request ''t'' 3 ''j:2'' ''pem'' [] restarted_seed = (seed', out @ [SendTo (''j'', 2) resp], Inr DHandled) \<and>
    decode_discovery_envelope (Some resp) = Some (SUBTYPE_JOIN_RESPONSE, dn_public_key restarted_seed, payld) \<and>
    member_st (c_snap (dn_service seed')) ''m:9'' = Some ACTIVE \<and>
    member_st (c_snap (dn_service (fst (handle_join_response 4 ''s:1'' payld demo_joiner)))) ''m:9'' = None"
proof -
  have st: "member_st old_snap ''m:9'' = Some ACTIVE" by (simp add: old_snap_def)
  have r: "\<not> isl (snd (join_member ''t'' 3 ''j:2'' ''Unknown'' ''pem'' restarted_seed))" by code_simp
  show ?thesis
    unfolding st[symmetric]
  proof (rule restarted_seed_omits_members[OF restarted_inv])
    show "dn_transport restarted_seed" by code_simp
    show "parse_address ''j:2'' = Some (''j'', 2)" by code_simp
    from join_member_result[OF r]
    show "join_member ''t'' 3 ''j:2'' (case map_of [] ''display_name'' of Some (JStr n) \<Rightarrow> n | _ \<Rightarrow> ''Unknown'') ''pem'' restarted_seed =
      (fst (join_member ''t'' 3 ''j:2'' ''Unknown'' ''pem'' restarted_seed),
       Inr (projr (snd (join_member ''t'' 3 ''j:2'' ''Unknown'' ''pem'' restarted_seed))))" by simp
    show "jr_accepted (projr (snd (join_member ''t'' 3 ''j:2'' ''Unknown'' ''pem'' restarted_seed)))" by code_simp
    show "coord_inv (new_snap ''room'') (dn_service demo_joiner)" "el_log (c_log (dn_service demo_joiner)) = []"
      unfolding demo_joiner_def by (rule fresh_discovery_inv)+
    show "user_events ''m:9'' (el_log (c_log (fst (join_member ''t'' 3 ''j:2'' ''Unknown'' ''pem'' restarted_seed)))) = []"
      by code_simp
  qed
qed

section \<open>Trust on first use\<close>

text \<open>Trust on first use: the hook that runs before signatures are verified changes the key
  of no peer but the sender of a discovery envelope that carries a key, and of that one only
  when the registry did not list it. A key once registered is never replaced; a peer listed
  without a key never gets one.\<close>

theorem first_key_stays:
  "get_pub_key (lazy_register_pubkey loads sec address d m reg) hp = get_pub_key reg hp \<or>
   hp \<notin> set (get_peers reg) \<and> parse_address (msg_sender m) = Some hp \<and>
   (\<exists>st body. decode_discovery_envelope (loads (decrypted_copy sec address (msg_content m))) =
      Some (st, get_pub_key (lazy_register_pubkey loads sec address d m reg) hp, body))"
  by (auto simp: lazy_register_pubkey_def Let_def get_pub_key_add split: option.split)

section \<open>Bootstrap and heartbeats\<close>

text \<open>A successful bootstrap through a peer ends with an active member.\<close>

lemma attempt_peers_active:
  "snd (snd (attempt_peers meanwhile nm ps d)) \<Longrightarrow>
   sd_active_count (get_snapshot (c_snap (dn_service (fst (attempt_peers meanwhile nm ps d))))) > 0"
  by (induction ps arbitrary: d)
    (auto simp: Let_def case_prod_unfold end_attempt_def split: option.splits if_splits)

text \<open>A response is matched by the sender's address: when the configured entry is another name of
  the seed, the waiting attempt is not woken.\<close>

lemma other_name_not_woken:
  assumes "sender \<noteq> peer" and "map_of (dn_pending d) peer = Some False"
  shows "map_of (dn_pending (fst (handle_join_response now sender body d))) peer = Some False"
  using assms after_service_frame(5)
  by (auto simp: handle_join_response_def wake_pending_def map_of_dict_set case_prod_unfold Let_def split: option.split)

lemma heartbeat_sent_iff:
  "snd (heartbeat_round d) \<noteq> [] \<longleftrightarrow> dn_beating d \<and> dn_transport d \<and> heartbeat_targets d \<noteq> []"
  by (auto simp: heartbeat_round_def broadcast_heartbeat_def Let_def)

lemma stopped_silent: "heartbeat_round (discovery_stop d) = (discovery_stop d, []) \<and>
  tick_round now (discovery_stop d) = (discovery_stop d, [])"
  by (simp add: heartbeat_round_def tick_round_def discovery_stop_def)

lemma scheduler_stopped: "run_tick now c (stop_tick_scheduler ts) = (c, stop_tick_scheduler ts)"
  by (simp add: run_tick_def stop_tick_scheduler_def)

lemma scheduler_armed:
  "ts_timer (start_tick_scheduler i (stop_tick_scheduler ts))"
  "ts_running ts \<Longrightarrow> ts_timer (snd (run_tick now c ts)) \<and> start_tick_scheduler i ts = ts"
  by (simp_all add: run_tick_def start_tick_scheduler_def stop_tick_scheduler_def schedule_next_tick_def)

end
