(* ===== verification/Discovery_Network.thy ===== *)
theory Discovery_Network
  imports Discovery_Properties
begin

text \<open>
  Any number of discovery nodes that exchange envelopes: requests, responses, gossip and heartbeats travel
  through a set of sent messages, which may be delayed, repeated or lost. The steps are the
  operations of \<open>Discovery\<close> at one node; a bootstrap through a seed is split at the point where its thread
  waits, so that everything else can happen meanwhile.

  Shown: whoever is a member anywhere has asked to join or started a room alone, every event in
  circulation is about such a node, and no handler ever fails.
\<close>

section \<open>Grounded coordinators\<close>

text \<open>\<open>J\<close> are the users that joined. Terms are 1: nothing in a room raises them.\<close>

definition ev_ok :: "string set \<Rightarrow> membership_event \<Rightarrow> bool" where
  "ev_ok J e \<longleftrightarrow> ev_user_id e \<in> J \<and> ev_term e \<le> 1"

definition grounded :: "string set \<Rightarrow> coord \<Rightarrow> bool" where
  "grounded J c \<longleftrightarrow> (\<forall>e \<in> set (el_log (c_log c)). ev_ok J e) \<and> el_term (c_log c) \<le> 1 \<and>
     (\<forall>(h, e, dl) \<in> set (c_out c). ev_ok J e) \<and> set (dict_keys (sn_members (c_snap c))) \<subseteq> J"

lemma grounded_mono: "grounded J c \<Longrightarrow> J \<subseteq> K \<Longrightarrow> grounded K c"
  unfolding grounded_def ev_ok_def by (fastforce simp del: set_map)

lemma grounded_member: "grounded J c \<Longrightarrow> get_member u (c_snap c) = Some m \<Longrightarrow> u \<in> J"
  unfolding grounded_def get_member_def by (auto dest!: map_of_SomeD intro!: image_eqI[where x = "(u, m)"])

lemma grounded_frame [simp]:
  "grounded J (c\<lparr>c_presence := p\<rparr>) = grounded J c" "grounded J (c\<lparr>c_guard := g\<rparr>) = grounded J c"
  "grounded J (c\<lparr>c_subs := nt\<rparr>) = grounded J c" "grounded J (c\<lparr>c_tracer := t\<rparr>) = grounded J c"
  "grounded J (c\<lparr>c_traces := ts\<rparr>) = grounded J c" "grounded J (c\<lparr>c_dur := du\<rparr>) = grounded J c"
  by (simp_all add: grounded_def)

lemma grounded_steps [simp]:
  "grounded J (checkpoint c) = grounded J c" "grounded J (presence_register now u c) = grounded J c"
  "grounded J (presence_unregister u c) = grounded J c" "grounded J (trace_span tid nm now c) = grounded J c"
  "grounded J (finish_trace now u c) = grounded J c" "grounded J (snd (begin_trace uid now u c)) = grounded J c"
  by (simp_all add: checkpoint_def presence_register_def presence_unregister_def trace_span_def finish_trace_def
      begin_trace_def Let_def split: option.split)

lemma grounded_notify [simp]: "ev_ok J e \<Longrightarrow> grounded J (notify e dl c) = grounded J c"
  by (cases dl) (simp_all add: grounded_def notify_def nt_dispatch_def ball_Un split_def)

text \<open>Appending succeeds and keeps the coordinator grounded.\<close>

lemma grounded_log:
  assumes "grounded J c" "ev_ok J e" "el_log l = el_log (c_log c) @ [e]" "el_term l \<le> 1"
  shows "grounded J (c\<lparr>c_log := l, c_snap := snap_step (c_snap c) e\<rparr>)"
  using assms snap_step_keys[of "c_snap c" e] by (auto simp: grounded_def ev_ok_def simp del: set_map)

lemma grounded_append:
  assumes "grounded J c" "u \<in> J"
  obtains e dl c' where "append_apply now et u src nm tr pk c = Inr (e, dl, c')" "ev_ok J e" "grounded J c'"
proof (cases rule: append_apply_cases[of now et u src nm tr pk c])
  case stale
  with assms(1) show thesis by (simp add: grounded_def)
next
  case (ok e d l)
  have "ev_term e \<le> 1" using ok(4) by (auto simp: log_append_def Let_def split: if_splits)
  with ok(12) assms(2) have e: "ev_ok J e" by (simp add: ev_ok_def)
  show thesis by (rule that[OF ok(1) e grounded_log[OF assms(1) e ok(5)]]) (simp add: ok(8))
qed

section \<open>Every operation\<close>

lemma grounded_presence_change:
  assumes "grounded J c"
  shows "grounded J (fst (handle_presence_change now u s c)) \<and> snd (handle_presence_change now u s c) = None"
proof (cases "get_member u (c_snap c)")
  case (Some m)
  show ?thesis
  proof (cases "presence_event s")
    case (Some et)
    obtain e dl c' where "append_apply now et u ''presence'' (mi_display_name m) None None c = Inr (e, dl, c')" "ev_ok J e" "grounded J c'"
      using grounded_append[OF assms grounded_member[OF assms \<open>get_member u (c_snap c) = Some m\<close>]] by metis
    with \<open>get_member u (c_snap c) = Some m\<close> Some show ?thesis by (simp add: handle_presence_change_def Let_def del: presence_event.simps)
  qed (use assms in \<open>simp add: handle_presence_change_def Some del: presence_event.simps\<close>)
qed (simp add: handle_presence_change_def assms)

lemma grounded_presence_heartbeat:
  assumes "grounded J c"
  shows "grounded J (fst (presence_heartbeat now u c)) \<and> snd (presence_heartbeat now u c) = None"
  using assms grounded_presence_change[of J]
  by (auto simp: presence_heartbeat_def Let_def split: prod.split list.split)

lemma grounded_heartbeat:
  assumes "grounded J c"
  shows "grounded J (fst (handle_heartbeat now u c)) \<and> snd (handle_heartbeat now u c) = None"
proof (cases "get_member u (c_snap c)")
  case (Some m)
  obtain e dl c' where a: "append_apply now HEARTBEAT u ''coordinator'' (mi_display_name m) None None c = Inr (e, dl, c')" "grounded J c'"
    using grounded_append[OF assms grounded_member[OF assms Some]] by metis
  obtain c2 where "presence_heartbeat now u c' = (c2, None)" "grounded J c2"
    using grounded_presence_heartbeat[OF a(2)] by (metis prod.collapse)
  with a Some show ?thesis by (simp add: handle_heartbeat_def)
qed (simp add: handle_heartbeat_def assms)

lemma grounded_start_backfill:
  assumes "grounded J c"
  shows "grounded J (fst (handle_start_backfill now u c)) \<and> snd (handle_start_backfill now u c) = None"
proof (cases "get_member u (c_snap c)")
  case (Some m)
  let ?c = "case map_of (c_traces c) u of None \<Rightarrow> c | Some tid \<Rightarrow> trace_span tid ''backfill_started'' now c"
  have "grounded J ?c" using assms by (simp split: option.split)
  from grounded_append[OF this grounded_member[OF assms Some]]
  obtain e dl c' where "append_apply now HISTORY_BACKFILL_STARTED u ''coordinator'' (mi_display_name m) None None ?c = Inr (e, dl, c')"
    "ev_ok J e" "grounded J c'" by metis
  with Some assms show ?thesis by (simp add: handle_start_backfill_def)
qed (simp add: handle_start_backfill_def assms)

lemma grounded_complete_backfill:
  assumes "grounded J c"
  shows "grounded J (fst (handle_complete_backfill now u c)) \<and> snd (handle_complete_backfill now u c) = None"
proof (cases "get_member u (c_snap c)")
  case (Some m)
  have "grounded J (finish_trace now u c)" using assms by simp
  from grounded_append[OF this grounded_member[OF assms Some]]
  obtain e dl c' where "append_apply now HISTORY_BACKFILL_COMPLETE u ''coordinator'' (mi_display_name m) None None (finish_trace now u c) =
      Inr (e, dl, c')" "ev_ok J e" "grounded J c'" by metis
  with Some assms show ?thesis by (simp add: handle_complete_backfill_def)
qed (simp add: handle_complete_backfill_def assms)

lemma grounded_auto: "grounded J c \<Longrightarrow> grounded J (auto_complete_backfill_handler now u e c)"
proof -
  assume "grounded J c"
  from grounded_start_backfill[OF this] obtain c' where "handle_start_backfill now u c = (c', None)" "grounded J c'"
    by (metis prod.collapse)
  with grounded_complete_backfill[of J c'] show ?thesis by (simp add: auto_complete_backfill_handler_def)
qed

lemma grounded_join:
  assumes "grounded J (dn_service d)" "u \<in> J"
  shows "grounded J (fst (join_member uid now u nm pk d)) \<and> \<not> isl (snd (join_member uid now u nm pk d))"
proof -
  let ?h = "if dn_auto d then Some (auto_complete_backfill_handler now) else None"
  have commit: "grounded J (fst (commit_join ?h now u nm tr (Some pk) c)) \<and> \<not> isl (snd (commit_join ?h now u nm tr (Some pk) c))"
    if g: "grounded J c" for c tr
  proof -
    obtain e dl c' where "append_apply now JOIN_ACCEPTED u ''coordinator'' nm tr (Some pk) c = Inr (e, dl, c')" "ev_ok J e" "grounded J c'"
      using grounded_append[OF g assms(2)] by metis
    then show ?thesis by (simp add: commit_join_def Let_def grounded_auto)
  qed
  show ?thesis
    using assms(1) commit[OF grounded_steps(6)[THEN iffD2]]
    by (auto simp: join_member_def handle_join_def accept_join_def Let_def case_prod_unfold)
qed

lemma grounded_check_loop: "grounded J c \<Longrightarrow> grounded J (fst (check_loop now es c)) \<and> snd (check_loop now es c) = None"
proof (induction now es c rule: check_loop.induct)
  case (2 now u entry rest c)
  obtain entry' sg where en: "check_entry (c_presence c) now entry = (entry', sg)" by fastforce
  let ?ms = "pr_members (c_presence c)"
  let ?c = "c\<lparr>c_presence := (c_presence c)\<lparr>pr_members := (if u \<in> set (dict_keys ?ms) then dict_set u entry' ?ms else ?ms)\<rparr>\<rparr>"
  have g: "grounded J ?c" using "2.prems" by simp
  show ?case
  proof (cases sg)
    case None
    then show ?thesis using "2.IH"(1)[OF en[symmetric] refl refl refl] g en by (simp add: Let_def)
  next
    case (Some s)
    obtain c2 where "handle_presence_change now u s ?c = (c2, None)" "grounded J c2"
      using grounded_presence_change[OF g] by (metis prod.collapse)
    then show ?thesis using "2.IH"(2)[OF en[symmetric] refl refl refl Some] en Some by (simp add: Let_def)
  qed
qed simp

lemma grounded_sweep_loop:
  "grounded J c \<Longrightarrow> fst ` set ms \<subseteq> J \<Longrightarrow> grounded J (fst (sweep_loop now ms c)) \<and> snd (sweep_loop now ms c) = None"
proof (induction now ms c rule: sweep_loop.induct)
  case (2 now u m rest c)
  have u: "u \<in> J" using "2.prems"(2) by simp
  obtain e dl c' where "append_apply now DISCONNECT_TIMEOUT u ''coordinator'' (mi_display_name m) None None c = Inr (e, dl, c')"
    "ev_ok J e" "grounded J c'"
    using grounded_append[OF "2.prems"(1) u] by metis
  with 2 show ?case by simp
qed simp

lemma grounded_tick:
  assumes "grounded J c"
  shows "grounded J (fst (tick now c)) \<and> snd (tick now c) = None"
proof -
  obtain c1 where c: "check_loop now (pr_members (c_presence c)) c = (c1, None)" "grounded J c1"
    using grounded_check_loop[OF assms] by (metis prod.collapse)
  have "fst ` set (sd_members (get_snapshot (c_snap c1))) \<subseteq> J" using c(2) by (simp add: get_snapshot_def grounded_def)
  from grounded_sweep_loop[OF c(2) this] c(1) show ?thesis by (simp add: tick_def sweep_backfill_timeouts_def)
qed

lemma grounded_remote:
  assumes "grounded J c" "ev_ok J e"
  shows "grounded J (apply_remote_event now e c)"
proof -
  obtain le l where a: "append_remote e (c_log c) = (le, l)" by fastforce
  then have l: "el_log l = el_log (c_log c) @ [le]" "el_term l \<le> 1" "ev_ok J le"
    using assms by (auto simp: append_remote_def Let_def grounded_def ev_ok_def)
  obtain s dl where d: "apply_event (c_snap c) le = (s, dl)" by fastforce
  have "grounded J (c\<lparr>c_log := l, c_snap := s\<rparr>)" using grounded_log[OF assms(1) l(3,1,2)] d by simp
  then have "grounded J (notify le dl (c\<lparr>c_log := l, c_snap := s\<rparr>))" using l(3) by simp
  then show ?thesis using a d grounded_presence_heartbeat[of J] by (simp add: apply_remote_event_def Let_def)
qed

lemma grounded_remote_snapshot:
  "grounded J c \<Longrightarrow> \<forall>e \<in> set es. ev_ok J e \<Longrightarrow> grounded J (apply_remote_snapshot now es c)"
  by (induction es arbitrary: c) (auto simp: apply_remote_snapshot_def intro: grounded_remote)

lemma grounded_subscribe: "grounded J c \<Longrightarrow> grounded J (subscribe h v c)"
  by (auto simp: subscribe_def grounded_def get_events_since_def Let_def List.map_filter_def split: option.splits)

lemma grounded_new: "grounded J (dn_service (new_discovery room cfg [] tr now))"
  unfolding fresh_service by (simp add: grounded_def new_coord_def new_log_def new_snap_def)

section \<open>Envelopes\<close>

fun payload_of :: "outgoing \<Rightarrow> json" where
  "payload_of (Broadcast j) = j"
| "payload_of (SendTo hp j) = j"

text \<open>What an envelope from \<open>p\<close> promises the node that handles it.\<close>

definition env_ok :: "string set \<Rightarrow> string \<Rightarrow> json \<Rightarrow> bool" where
  "env_ok J p j \<longleftrightarrow>
     (\<forall>st pub body. decode_discovery_envelope (Some j) = Some (st, pub, body) \<longrightarrow>
       (st = SUBTYPE_JOIN_REQUEST \<longrightarrow> p \<in> J) \<and>
       (st = SUBTYPE_GOSSIP \<longrightarrow> (\<forall>e. event_from_dict (get_or body ''event'' JNull) = Some e \<longrightarrow> ev_ok J e)) \<and>
       (st = SUBTYPE_JOIN_RESPONSE \<longrightarrow>
          (\<exists>es. as_list (get_or body ''events'' (JList [])) \<bind> map_opt event_from_dict = Some es \<and> (\<forall>e \<in> set es. ev_ok J e))))"

lemma ev_ok_mono: "ev_ok J e \<Longrightarrow> J \<subseteq> K \<Longrightarrow> ev_ok K e"
  by (auto simp: ev_ok_def)

lemma env_ok_mono:
  assumes "env_ok J p j" "J \<subseteq> K"
  shows "env_ok K p j"
  unfolding env_ok_def
proof (intro allI impI)
  fix st pub body
  assume "decode_discovery_envelope (Some j) = Some (st, pub, body)"
  note a = assms(1)[unfolded env_ok_def, rule_format, OF this]
  have "\<exists>es. as_list (get_or body ''events'' (JList [])) \<bind> map_opt event_from_dict = Some es \<and> (\<forall>e \<in> set es. ev_ok K e)"
    if "st = SUBTYPE_JOIN_RESPONSE" using a that assms(2) ev_ok_mono by blast
  then show "(st = SUBTYPE_JOIN_REQUEST \<longrightarrow> p \<in> K) \<and>
      (st = SUBTYPE_GOSSIP \<longrightarrow> (\<forall>e. event_from_dict (get_or body ''event'' JNull) = Some e \<longrightarrow> ev_ok K e)) \<and>
      (st = SUBTYPE_JOIN_RESPONSE \<longrightarrow>
        (\<exists>es. as_list (get_or body ''events'' (JList [])) \<bind> map_opt event_from_dict = Some es \<and> (\<forall>e \<in> set es. ev_ok K e)))"
    using a assms(2) ev_ok_mono by (intro conjI impI) blast+
qed

lemma subtypes:
  "strip_prefix DISCOVERY_TYPE_PREFIX SUBTYPE_JOIN_REQUEST \<noteq> None" "strip_prefix DISCOVERY_TYPE_PREFIX SUBTYPE_GOSSIP \<noteq> None"
  "strip_prefix DISCOVERY_TYPE_PREFIX SUBTYPE_HEARTBEAT \<noteq> None"
  "distinct [SUBTYPE_JOIN_REQUEST, SUBTYPE_JOIN_RESPONSE, SUBTYPE_GOSSIP, SUBTYPE_HEARTBEAT]"
  by code_simp+

lemma request_ok: "p \<in> J \<Longrightarrow> env_ok J p (envelope SUBTYPE_JOIN_REQUEST d body)"
  using subtypes(4) by (simp add: env_ok_def decode_envelope subtypes)

lemma heartbeat_ok: "env_ok J p (envelope SUBTYPE_HEARTBEAT d body)"
  using subtypes(4) by (auto simp: env_ok_def decode_envelope subtypes)

lemma ev_ok_read: "ev_ok J (e\<lparr>ev_public_key := k\<rparr>) = ev_ok J e"
  by (simp add: ev_ok_def)

lemma gossip_ok: "ev_ok J e \<Longrightarrow> env_ok J p (envelope SUBTYPE_GOSSIP d [(''event'', event_to_dict e)])"
  using subtypes(4) by (auto simp: env_ok_def decode_envelope subtypes get_or_def event_dict_roundtrip ev_ok_read)

lemma response_ok:
  assumes "\<forall>e \<in> set es. ev_ok J e" "o1 \<in> set (send_join_response target acc reason (map event_to_dict es) d)"
  shows "env_ok J p (payload_of o1)"
proof -
  let ?b = "[(''accepted'', JBool acc), (''events'', JList (map event_to_dict es))] @ (case reason of None \<Rightarrow> [] | Some r \<Rightarrow> [(''reason'', JStr r)])"
  have "payload_of o1 = envelope SUBTYPE_JOIN_RESPONSE d ?b"
    using assms(2) by (auto simp: send_join_response_def split: if_splits option.splits)
  moreover have "map_opt event_from_dict (map event_to_dict es) = Some (map (\<lambda>e. e\<lparr>ev_public_key := norm_pk (ev_public_key e)\<rparr>) es)"
    by (rule map_opt_map) (rule event_dict_roundtrip)
  ultimately show ?thesis
    using subtypes(4) assms(1) by (auto simp: env_ok_def decode_envelope join_response_prefix get_or_def ev_ok_read)
qed

lemma dispatch_all_ok:
  "\<forall>e \<in> set es. ev_ok J e \<Longrightarrow> o1 \<in> set (snd (dispatch_all es d)) \<Longrightarrow> env_ok J p (payload_of o1)"
proof (induction es arbitrary: d)
  case (Cons e es)
  then show ?case by (auto simp: dispatch_def gossip_def gossip_ok Let_def case_prod_unfold split: if_splits)
qed simp

lemma after_service_ok:
  assumes "grounded J c" "o1 \<in> set (snd (after_service c d))"
  shows "env_ok J p (payload_of o1)"
proof (rule dispatch_all_ok)
  show "o1 \<in> set (snd (dispatch_all (new_notices (dn_service d) c) (d\<lparr>dn_service := c\<rparr>)))"
    using assms(2) by (simp add: after_service_def)
  show "\<forall>e \<in> set (new_notices (dn_service d) c). ev_ok J e"
    using assms(1) by (auto simp: new_notices_def grounded_def dest!: in_set_dropD)
qed

section \<open>The network\<close>

record dnet =
  dt_node :: "string \<Rightarrow> discovery"
  dt_sent :: "(string \<times> outgoing) list"
  dt_joined :: "string set"

fun reaches :: "string \<Rightarrow> outgoing \<Rightarrow> bool" where
  "reaches q (Broadcast j) = True"
| "reaches q (SendTo hp j) = (q = addr_str hp)"

definition dnet_put :: "string \<Rightarrow> discovery \<times> outgoing list \<Rightarrow> dnet \<Rightarrow> dnet" where
  "dnet_put q r s = s\<lparr>dt_node := (dt_node s)(q := fst r), dt_sent := dt_sent s @ map (Pair q) (snd r)\<rparr>"

text \<open>\<open>dt_joined\<close> records who asked a seed or started a room alone. A message names the address of its
  sender (\<open>Message(content, sender=self.node.advertise_address)\<close>); its text is any text of the envelope.\<close>

inductive dnet_step :: "dnet \<Rightarrow> dnet \<Rightarrow> bool" where
  dnet_deliver: "(p, o1) \<in> set (dt_sent s) \<Longrightarrow> reaches q o1 \<Longrightarrow> msg_sender m = p \<Longrightarrow>
    handle_message uid now m (Some (payload_of o1)) (dt_node s q) = (d, out, res) \<Longrightarrow> dnet_step s (dnet_put q (d, out) s)"
| dnet_heartbeat: "dnet_step s (dnet_put q (heartbeat_round (dt_node s q)) s)"
| dnet_tick: "dnet_step s (dnet_put q (tick_round now (dt_node s q)) s)"
| dnet_alone: "cf_bootstrap_peers (dn_config (dt_node s q)) = [] \<Longrightarrow>
    discovery_start meanwhile external uid now nm (dt_node s q) = (d, out, err) \<Longrightarrow>
    dnet_step s ((dnet_put q (d, out) s)\<lparr>dt_joined := insert q (dt_joined s)\<rparr>)"
| dnet_prepare: "dnet_step s (dnet_put q (start_flags external (dt_node s q), []) s)"
| dnet_request: "dn_transport (dt_node s q) \<Longrightarrow> peer \<in> set (cf_bootstrap_peers (dn_config (dt_node s q))) \<Longrightarrow>
    parse_peer peer = Some hp \<Longrightarrow> begin_attempt peer hp nm (dt_node s q) = (d, o1) \<Longrightarrow>
    dnet_step s ((dnet_put q (d, [o1]) s)\<lparr>dt_joined := insert q (dt_joined s)\<rparr>)"
| dnet_settle: "dnet_step s (dnet_put q (fst (end_attempt peer (dt_node s q)), []) s)"
| dnet_background: "dnet_step s (dnet_put q (start_background (dt_node s q)) s)"
| dnet_stop: "dnet_step s (dnet_put q (discovery_stop (dt_node s q), []) s)"

definition dnet_init :: "string \<Rightarrow> (string \<Rightarrow> discovery_config) \<Rightarrow> dnet \<Rightarrow> bool" where
  "dnet_init room cfg s \<longleftrightarrow>
     (\<forall>q. cf_advertise_address (cfg q) = q \<and> (\<exists>tr now. dt_node s q = new_discovery room (cfg q) [] tr now)) \<and>
     dt_sent s = [] \<and> dt_joined s = {}"

inductive dnet_reach :: "string \<Rightarrow> (string \<Rightarrow> discovery_config) \<Rightarrow> dnet \<Rightarrow> bool" for room cfg where
  dnet_start: "dnet_init room cfg s \<Longrightarrow> dnet_reach room cfg s"
| dnet_next: "dnet_reach room cfg s \<Longrightarrow> dnet_step s t \<Longrightarrow> dnet_reach room cfg t"

definition dnet_inv :: "dnet \<Rightarrow> bool" where
  "dnet_inv s \<longleftrightarrow>
     (\<forall>q. grounded (dt_joined s) (dn_service (dt_node s q)) \<and> advertise_address (dt_node s q) = q) \<and>
     (\<forall>(p, o1) \<in> set (dt_sent s). env_ok (dt_joined s) p (payload_of o1))"

section \<open>Handling a message\<close>

text \<open>What every handler of a message achieves.\<close>

definition well_handled :: "string set \<Rightarrow> discovery \<Rightarrow> discovery \<times> outgoing list \<times> (disc_error + disc_result) \<Rightarrow> bool" where
  "well_handled J d r \<longleftrightarrow> grounded J (dn_service (fst r)) \<and> dn_config (fst r) = dn_config d \<and>
     (\<forall>o1 \<in> set (fst (snd r)). \<forall>p. env_ok J p (payload_of o1)) \<and> \<not> isl (snd (snd r))"

lemma well_handled_service:
  assumes "grounded J c" "\<not> isl res" "\<forall>o1 \<in> set out. \<forall>p. env_ok J p (payload_of o1)"
  shows "well_handled J d (fst (after_service c d), snd (after_service c d) @ out, res)"
  using assms after_service_ok[of J c] by (auto simp: well_handled_def after_service_frame)

lemma join_request_handled:
  assumes "grounded J (dn_service d)" "u \<in> J"
  shows "well_handled J d (handle_join_request uid now u pub body d)"
proof -
  let ?nm = "case map_of body ''display_name'' of Some (JStr n) \<Rightarrow> n | _ \<Rightarrow> ''Unknown''"
  obtain c jr where j: "join_member uid now u ?nm pub d = (c, Inr jr)" "grounded J c"
    using grounded_join[OF assms, of uid now ?nm pub] by (metis isl_def prod.collapse sum.exhaust_sel)
  let ?d = "fst (after_service c d)"
  have "\<forall>e \<in> set (get_events_since 0 (c_log c)). ev_ok J e" using j(2) by (simp add: grounded_def get_events_since_def)
  then have "env_ok J p (payload_of o1)"
    if "o1 \<in> set (send_join_response u True None (map event_to_dict (get_events_since 0 (c_log c))) ?d) \<or>
        o1 \<in> set (send_join_response u False (jr_reason jr) (map event_to_dict []) ?d)" for o1 p
    using that response_ok by (metis empty_iff empty_set)
  with well_handled_service[OF j(2), of "Inr DHandled" _ d] show ?thesis
    by (auto simp: handle_join_request_def j Let_def case_prod_unfold after_service_frame)
qed

lemma join_response_handled:
  assumes "grounded J (dn_service d)"
    and "as_list (get_or body ''events'' (JList [])) \<bind> map_opt event_from_dict = Some es" "\<forall>e \<in> set es. ev_ok J e"
  shows "well_handled J d (handle_join_response now u body d)"
proof -
  have w: "dn_service (wake_pending u x) = dn_service x" "dn_config (wake_pending u x) = dn_config x" for x
    by (simp_all add: wake_pending_def)
  show ?thesis
    using assms grounded_remote_snapshot[OF assms(1,3), of now]
    by (simp add: handle_join_response_def well_handled_def w after_remote_silent)
qed

lemma gossip_handled:
  assumes "grounded J (dn_service d)" "\<forall>e. event_from_dict (get_or body ''event'' JNull) = Some e \<longrightarrow> ev_ok J e"
  shows "well_handled J d (handle_gossip now body d)"
proof -
  have "after_service (apply_remote_event now e (dn_service (d\<lparr>dn_seen := x\<rparr>))) (d\<lparr>dn_seen := x\<rparr>) =
      ((d\<lparr>dn_seen := x\<rparr>)\<lparr>dn_service := apply_remote_event now e (dn_service d)\<rparr>, [])" for e x
    using after_remote_event_silent[of now e "d\<lparr>dn_seen := x\<rparr>"] by simp
  then show ?thesis
    using assms grounded_remote[of J "dn_service d"]
    by (auto simp: handle_gossip_def well_handled_def Let_def case_prod_unfold split: option.split)
qed

lemma heartbeat_handled:
  assumes "grounded J (dn_service d)"
  shows "well_handled J d (handle_heartbeat_msg now u d)"
proof -
  obtain c where "handle_heartbeat now u (dn_service d) = (c, None)" "grounded J c"
    using grounded_heartbeat[OF assms] by (metis prod.collapse)
  with well_handled_service[of J c "Inr DHandled" "[]" d] show ?thesis
    using assms by (auto simp: handle_heartbeat_msg_def well_handled_def Let_def case_prod_unfold)
qed

lemma message_handled:
  assumes "grounded J (dn_service d)" "env_ok J (msg_sender m) j"
  shows "well_handled J d (handle_message uid now m (Some j) d)"
proof -
  have triv: "well_handled J d (d, [], Inr x)" for x using assms(1) by (simp add: well_handled_def)
  show ?thesis
  proof (cases "decode_discovery_envelope (Some j)")
    case (Some r)
    obtain st pub body where r: "decode_discovery_envelope (Some j) = Some (st, pub, body)" using Some by (cases r) auto
    note e = assms(2)[unfolded env_ok_def, rule_format, OF r]
    have "well_handled J d (handle_join_response now (msg_sender m) body d)" if "st = SUBTYPE_JOIN_RESPONSE"
      using e that join_response_handled[OF assms(1)] by blast
    moreover have "well_handled J d (handle_join_request uid now (msg_sender m) pub body d)" if "st = SUBTYPE_JOIN_REQUEST"
      using e that join_request_handled[OF assms(1)] by blast
    moreover have "well_handled J d (handle_gossip now body d)" if "st = SUBTYPE_GOSSIP"
      using e that gossip_handled[OF assms(1)] by blast
    ultimately show ?thesis using heartbeat_handled[OF assms(1)] triv by (simp add: handle_message_def r)
  qed (simp add: handle_message_def triv)
qed

section \<open>The invariant of the network\<close>

lemma dnet_inv_put:
  assumes "dnet_inv s" "grounded J (dn_service d)" "dn_config d = dn_config (dt_node s q)" "dt_joined s \<subseteq> J"
    and "\<forall>o1 \<in> set out. env_ok J q (payload_of o1)"
  shows "dnet_inv ((dnet_put q (d, out) s)\<lparr>dt_joined := J\<rparr>)"
  using assms grounded_mono[OF _ assms(4)] env_ok_mono[OF _ assms(4)]
  by (fastforce simp: dnet_inv_def dnet_put_def advertise_address_def)

lemma dnet_inv_local:
  assumes "dnet_inv s" "grounded (dt_joined s) (dn_service d)" "dn_config d = dn_config (dt_node s q)"
    and "\<forall>o1 \<in> set out. env_ok (dt_joined s) q (payload_of o1)"
  shows "dnet_inv (dnet_put q (d, out) s)"
  using dnet_inv_put[OF assms(1-3) order_refl assms(4)] by (simp add: dnet_put_def)

lemma background_ok:
  assumes "grounded J (dn_service d)" "start_background d = (d', out)"
  shows "grounded J (dn_service d') \<and> dn_config d' = dn_config d \<and> (\<forall>o1 \<in> set out. env_ok J p (payload_of o1))"
  using assms(2) grounded_subscribe[OF assms(1)] after_service_ok[OF grounded_subscribe[OF assms(1)]]
  by (auto simp: start_background_def Let_def case_prod_unfold after_service_frame)

text \<open>Starting a room alone: the node joins itself.\<close>

lemma alone_ok:
  assumes "grounded J (dn_service d)" "advertise_address d \<in> J" "cf_bootstrap_peers (dn_config d) = []"
    and "discovery_start meanwhile external uid now nm d = (d', out, err)"
  shows "grounded J (dn_service d') \<and> dn_config d' = dn_config d \<and> (\<forall>o1 \<in> set out. env_ok J p (payload_of o1)) \<and> err = None"
proof -
  let ?d = "start_flags external d"
  have f: "dn_service ?d = dn_service d" "dn_config ?d = dn_config d" "advertise_address ?d = advertise_address d"
    by (simp_all add: start_flags_def advertise_address_def)
  obtain c jr where j: "join_member uid now (advertise_address d) nm (dn_public_key ?d) ?d = (c, Inr jr)" "grounded J c"
    using grounded_join[of J ?d "advertise_address d" uid now nm "dn_public_key ?d"] assms(1,2) f
    by (metis isl_def prod.collapse sum.exhaust_sel)
  let ?a = "after_service c ?d"
  obtain d3 o3 where b: "start_background (fst ?a) = (d3, o3)" by fastforce
  have "d' = d3" "out = snd ?a @ o3" "err = None"
    using assms(3,4) j b by (auto simp: discovery_start_def attempt_bootstrap_def f Let_def case_prod_unfold)
  then show ?thesis
    using background_ok[OF _ b, of J] after_service_ok[OF j(2)] j(2) f by (auto simp: after_service_frame)
qed

lemma dnet_inv_step:
  assumes "dnet_inv s" "dnet_step s t"
  shows "dnet_inv t"
proof -
  have g: "grounded (dt_joined s) (dn_service (dt_node s q))" and a: "advertise_address (dt_node s q) = q" for q
    using assms(1) by (simp_all add: dnet_inv_def)
  show ?thesis
    using assms(2)
  proof cases
    case (dnet_deliver p o1 q m uid now d out res)
    have "env_ok (dt_joined s) p (payload_of o1)" using assms(1) dnet_deliver(2) by (auto simp: dnet_inv_def)
    with message_handled[OF g[of q], of m "payload_of o1" uid now] dnet_deliver show ?thesis
      by (auto simp: well_handled_def intro!: dnet_inv_local[OF assms(1)])
  next
    case (dnet_heartbeat q)
    show ?thesis unfolding dnet_heartbeat
      using g[of q] by (auto simp: heartbeat_round_def broadcast_heartbeat_def Let_def heartbeat_ok intro!: dnet_inv_local[OF assms(1)])
  next
    case (dnet_tick q now)
    have t: "grounded (dt_joined s) (fst (tick now (dn_service (dt_node s q))))" using grounded_tick[OF g] by blast
    show ?thesis unfolding dnet_tick
      using g[of q] t after_service_ok[OF t] dnet_inv_local[OF assms(1), of "fst (tick_round now (dt_node s q))" q "snd (tick_round now (dt_node s q))"]
      by (auto simp: tick_round_def after_service_frame)
  next
    case (dnet_alone q meanwhile external uid now nm d out err)
    have "grounded (insert q (dt_joined s)) (dn_service (dt_node s q))" using grounded_mono[OF g] by blast
    from alone_ok[OF this _ dnet_alone(2,3), of q] a[of q] show ?thesis unfolding dnet_alone(1)
      by (intro dnet_inv_put[OF assms(1)]) auto
  next
    case (dnet_request q peer hp nm d o1)
    have "grounded (insert q (dt_joined s)) (dn_service (dt_node s q))" using grounded_mono[OF g] by blast
    with dnet_request(5) show ?thesis unfolding dnet_request(1)
      by (intro dnet_inv_put[OF assms(1)]) (auto simp: begin_attempt_def Let_def request_ok)
  next
    case (dnet_background q)
    obtain d out where b: "start_background (dt_node s q) = (d, out)" by fastforce
    from background_ok[OF g b] show ?thesis unfolding dnet_background b by (intro dnet_inv_local[OF assms(1)]) auto
  qed (use g in \<open>auto simp: start_flags_def end_attempt_def discovery_stop_def intro!: dnet_inv_local[OF assms(1)]\<close>)
qed

lemma dnet_reach_inv: "dnet_reach room cfg s \<Longrightarrow> dnet_inv s"
proof (induction rule: dnet_reach.induct)
  case (dnet_start s)
  have "dt_node s q = new_discovery room (cfg q) [] tr now \<Longrightarrow> cf_advertise_address (cfg q) = q \<Longrightarrow>
      grounded {} (dn_service (dt_node s q)) \<and> advertise_address (dt_node s q) = q" for q tr now
    using grounded_new[of "{}" room "cfg q" tr now] by (simp add: advertise_address_def new_discovery_def)
  with dnet_start show ?case unfolding dnet_init_def dnet_inv_def by fastforce
qed (rule dnet_inv_step)

text \<open>C15. Membership is grounded. In every reachable state of a network of discovery nodes that started without
  checkpoints, whatever is delayed, repeated or lost: whoever is a member at some node has asked a seed to
  join or started a room alone, and so has the subject of every event in every log; and no
  envelope in circulation, heartbeat or tick makes a handler fail at any node.\<close>

theorem membership_grounded:
  assumes "dnet_reach room cfg s"
  shows "(\<forall>q u. get_member u (c_snap (dn_service (dt_node s q))) \<noteq> None \<longrightarrow> u \<in> dt_joined s) \<and>
    (\<forall>q. \<forall>e \<in> set (el_log (c_log (dn_service (dt_node s q)))). ev_user_id e \<in> dt_joined s) \<and>
    (\<forall>(p, o1) \<in> set (dt_sent s). \<forall>q m uid now. msg_sender m = p \<longrightarrow>
       \<not> isl (snd (snd (handle_message uid now m (Some (payload_of o1)) (dt_node s q))))) \<and>
    (\<forall>q now. snd (tick now (dn_service (dt_node s q))) = None)"
proof -
  from dnet_reach_inv[OF assms] have g: "grounded (dt_joined s) (dn_service (dt_node s q))"
    and e: "(p, o1) \<in> set (dt_sent s) \<Longrightarrow> env_ok (dt_joined s) p (payload_of o1)" for q p o1
    by (auto simp: dnet_inv_def)
  have "\<not> isl (snd (snd (handle_message uid now m (Some (payload_of o1)) (dt_node s q))))"
    if "(p, o1) \<in> set (dt_sent s)" "msg_sender m = p" for p o1 q m uid now
    using message_handled[OF g[of q], of m "payload_of o1" uid now] e that by (auto simp: well_handled_def)
  moreover have "u \<in> dt_joined s" if "get_member u (c_snap (dn_service (dt_node s q))) \<noteq> None" for q u
    using grounded_member[OF g] that by blast
  moreover have "ev_user_id e \<in> dt_joined s" if "e \<in> set (el_log (c_log (dn_service (dt_node s q))))" for q e
    using g[of q] that by (simp add: grounded_def ev_ok_def)
  ultimately show ?thesis using grounded_tick[OF g] by blast
qed

definition demo_dnet :: dnet where
  "demo_dnet = \<lparr>dt_node = (\<lambda>q. new_discovery ''room'' (default_config q) [] True 0), dt_sent = [], dt_joined = {}\<rparr>"

abbreviation demo_alone :: "discovery \<times> outgoing list \<times> disc_error option" where
  "demo_alone \<equiv> discovery_start (\<lambda>_ d. d) False ''t'' 0 ''S'' (new_discovery ''room'' (default_config ''s:1'') [] True 0)"

theorem membership_grounded_witness:
  "\<exists>s :: dnet. get_member ''s:1'' (c_snap (dn_service (dt_node s ''s:1''))) \<noteq> None \<and> ''s:1'' \<in> dt_joined s \<and> length (dt_sent s) = 2"
proof -
  obtain d out err where a: "demo_alone = (d, out, err)" by (rule prod_cases3)
  let ?s = "(dnet_put ''s:1'' (d, out) demo_dnet)\<lparr>dt_joined := insert ''s:1'' {}\<rparr>"
  have "dnet_init ''room'' default_config demo_dnet"
    by (auto simp: dnet_init_def demo_dnet_def default_config_def)
  then have r: "dnet_reach ''room'' default_config demo_dnet" by (rule dnet_start)
  have "dnet_step demo_dnet ((dnet_put ''s:1'' (d, out) demo_dnet)\<lparr>dt_joined := insert ''s:1'' (dt_joined demo_dnet)\<rparr>)"
    by (rule dnet_alone[of _ _ "\<lambda>_ d. d" False "''t''" 0 "''S''"]) (use a in \<open>simp_all add: demo_dnet_def new_discovery_def default_config_def\<close>)
  then have "dnet_reach ''room'' default_config ?s" using dnet_next[OF r] by (simp add: demo_dnet_def)
  note g = conjunct1[OF membership_grounded[OF this], rule_format, of "''s:1''" "''s:1''"]
  have "get_member ''s:1'' (c_snap (dn_service (fst demo_alone))) \<noteq> None \<and> length (fst (snd demo_alone)) = 2" by code_simp
  then have m: "get_member ''s:1'' (c_snap (dn_service (dt_node ?s ''s:1''))) \<noteq> None" "length (dt_sent ?s) = 2"
    using a by (simp_all add: dnet_put_def demo_dnet_def)
  show ?thesis by (rule exI[of _ ?s]) (use g m in blast)
qed

section \<open>Keys of gossiped events\<close>

text \<open>Sequence numbers are counted by each coordinator and no event names its originator: events of
  two coordinators about the same user have the same key when they have the same type and number. The
  second to arrive at a third node is taken for a copy of the first and ignored.\<close>

lemma appended_event:
  "append_apply t et u src nm tr pk c = Inr (e, dl, c') \<Longrightarrow>
     ev_originator e = None \<and> ev_seq_no e = el_next (c_log c) \<and> ev_type e = et \<and> ev_user_id e = u"
  by (auto simp: append_apply_def log_append_def Let_def split: if_splits prod.splits)

lemma gossip_key_not_unique:
  assumes "append_apply t1 et u src1 nm1 tr1 pk1 c1 = Inr (e1, dl1, c1')"
    and "append_apply t2 et u src2 nm2 tr2 pk2 c2 = Inr (e2, dl2, c2')"
    and "el_next (c_log c1) = el_next (c_log c2)"
  shows "gossip_id e1 = gossip_id e2"
    and "dn_service (fst (handle_gossip t' [(''event'', event_to_dict e2)] (fst (handle_gossip t [(''event'', event_to_dict e1)] d)))) =
      dn_service (fst (handle_gossip t [(''event'', event_to_dict e1)] d))"
proof -
  show id: "gossip_id e1 = gossip_id e2"
    using appended_event[OF assms(1)] appended_event[OF assms(2)] assms(3) by (simp add: gossip_id_def)
  have r: "event_from_dict (get_or [(''event'', event_to_dict e)] ''event'' JNull) = Some (e\<lparr>ev_public_key := norm_pk (ev_public_key e)\<rparr>)"
    "truthy (get_or [(''event'', event_to_dict e)] ''event'' JNull)" for e
    by (simp_all add: get_or_def event_dict_roundtrip) (simp add: event_to_dict_def)
  have k: "gossip_id (e\<lparr>ev_public_key := p\<rparr>) = gossip_id e" for e p by (simp add: gossip_id_def split: option.split)
  show "dn_service (fst (handle_gossip t' [(''event'', event_to_dict e2)] (fst (handle_gossip t [(''event'', event_to_dict e1)] d)))) =
      dn_service (fst (handle_gossip t [(''event'', event_to_dict e1)] d))"
    using mark_seen_twice[of "gossip_id e2" "dn_seen d"] by (simp add: handle_gossip_read[OF r(2,1)] k id)
qed

end
