(* ===== verification/Security.thy ===== *)
theory Security
  imports Broadcast_Node Json_Base64 "HOL-Library.Monad_Syntax"
begin

text \<open>
  The package \<open>security\<close>: message signatures, payload encryption and key storage. The
  cryptographic library, the operating system's key ring and random numbers are parameters:
  the record \<open>crypto\<close> holds the primitives the code calls, on PEM texts and byte strings,
  with the randomness they draw as arguments. What the code relies on of them is the
  predicate \<open>crypto_laws\<close>: a signature verifies under the public key of the key that made
  it, AES decryption undoes encryption, and RSA decryption undoes encryption for the 44 bytes of
  key material the code encrypts (RSA-OAEP takes short messages only). Byte strings are \<open>string\<close>s.

  \<open>json.loads\<close> and the printing of a float are arguments where the code reads or prints
  JSON text. A text and its UTF-8 bytes are the same \<open>string\<close> here: the model has one byte per
  character, so \<open>encode("utf-8")\<close> and \<open>decode("utf-8")\<close> are the identity.
\<close>

section \<open>Primitives\<close>

record crypto =
  cr_private_ok :: "string \<Rightarrow> bool"
  cr_public_ok :: "string \<Rightarrow> bool"
  cr_private_rsa :: "string \<Rightarrow> bool"
  cr_public_rsa :: "string \<Rightarrow> bool"
  cr_public_of :: "string \<Rightarrow> string"
  cr_sign :: "string \<Rightarrow> string \<Rightarrow> string"
  cr_verify :: "string \<Rightarrow> string \<Rightarrow> string \<Rightarrow> bool"
  cr_rsa_encrypt :: "string \<Rightarrow> string \<Rightarrow> string"
  cr_rsa_decrypt :: "string \<Rightarrow> string \<Rightarrow> string option"
  cr_aes_encrypt :: "string \<Rightarrow> string \<Rightarrow> string \<Rightarrow> string"
  cr_aes_decrypt :: "string \<Rightarrow> string \<Rightarrow> string \<Rightarrow> string option"

definition crypto_laws :: "crypto \<Rightarrow> string \<Rightarrow> bool" where
  "crypto_laws cr k \<longleftrightarrow>
     cr_private_ok cr k \<and> cr_private_rsa cr k \<and> cr_public_ok cr (cr_public_of cr k) \<and>
     cr_public_rsa cr (cr_public_of cr k) \<and> cr_public_of cr k \<noteq> [] \<and>
     (\<forall>p. cr_sign cr k p \<noteq> [] \<and> cr_verify cr (cr_public_of cr k) p (cr_sign cr k p)) \<and>
     (\<forall>m. length m = 44 \<longrightarrow> cr_rsa_decrypt cr k (cr_rsa_encrypt cr (cr_public_of cr k) m) = Some m) \<and>
     (\<forall>m. length m = 44 \<longrightarrow> length (cr_rsa_encrypt cr (cr_public_of cr k) m) < 65536) \<and>
     (\<forall>ak n m. cr_aes_decrypt cr ak n (cr_aes_encrypt cr ak n m) = Some m)"

section \<open>Strict base64\<close>

text \<open>\<open>base64.b64decode(s, validate=True)\<close>: alphabet characters followed by at most two
  padding characters, otherwise \<open>binascii.Error\<close>.\<close>

definition b64_strict :: "string \<Rightarrow> bool" where
  "b64_strict s = (dropWhile (\<lambda>c. c \<in> set b64_alphabet) s \<in> {[], ''='', ''==''})"

definition b64decode_strict :: "string \<Rightarrow> string option" where
  "b64decode_strict s = (if b64_strict s then b64decode s else None)"

section \<open>\<open>message_integrity.py\<close>\<close>

record key_state =
  ks_private :: "string option"
  ks_public :: "(string, string) dict"

definition no_keys :: key_state where
  "no_keys = \<lparr>ks_private = None, ks_public = []\<rparr>"

text \<open>\<open>None\<close> is the \<open>ValueError\<close> of a PEM that does not load.\<close>

definition configure_private_key :: "crypto \<Rightarrow> string \<Rightarrow> key_state \<Rightarrow> key_state option" where
  "configure_private_key cr pem ks =
     (if cr_private_ok cr pem then Some (ks\<lparr>ks_private := Some pem\<rparr>) else None)"

definition register_public_key :: "crypto \<Rightarrow> string \<Rightarrow> string \<Rightarrow> key_state \<Rightarrow> key_state option" where
  "register_public_key cr sender pem ks =
     (if cr_public_ok cr pem then Some (ks\<lparr>ks_public := dict_set sender pem (ks_public ks)\<rparr>) else None)"

definition clear_keys :: "key_state \<Rightarrow> key_state" where
  "clear_keys ks = ks\<lparr>ks_private := None, ks_public := []\<rparr>"

definition get_private_key_pem :: "key_state \<Rightarrow> string option" where
  "get_private_key_pem ks = ks_private ks"

text \<open>\<open>json.dumps(payload, sort_keys=True, separators=(",", ":"))\<close>: the keys in
  order.\<close>

definition canonical_payload :: "(rat \<Rightarrow> string) \<Rightarrow> message \<Rightarrow> string" where
  "canonical_payload fr msg = json_dumps fr '','' '':''
     (JObj [(''content'', JStr (msg_content msg)), (''id'', JStr (msg_id msg)), (''sender'', JStr (msg_sender msg)),
            (''signature'', JStr []), (''timestamp'', JFloat (msg_timestamp msg))])"

text \<open>\<open>None\<close> is the \<open>RuntimeError\<close> of a missing private key.\<close>

definition sign :: "crypto \<Rightarrow> (rat \<Rightarrow> string) \<Rightarrow> key_state \<Rightarrow> message \<Rightarrow> message option" where
  "sign cr fr ks msg =
     (case ks_private ks of
        None \<Rightarrow> None
      | Some k \<Rightarrow> Some (msg\<lparr>msg_signature := b64encode (cr_sign cr k (canonical_payload fr msg))\<rparr>))"

definition verify :: "crypto \<Rightarrow> (rat \<Rightarrow> string) \<Rightarrow> key_state \<Rightarrow> message \<Rightarrow> bool" where
  "verify cr fr ks msg =
     (case map_of (ks_public ks) (msg_sender msg) of
        None \<Rightarrow> False
      | Some pub \<Rightarrow>
          if msg_signature msg = [] then False
          else (case b64decode_strict (msg_signature msg) of
                  None \<Rightarrow> False
                | Some sig \<Rightarrow> cr_verify cr pub (canonical_payload fr msg) sig))"

section \<open>\<open>payload_encryption.py\<close>\<close>

definition WIRE_VERSION :: string where "WIRE_VERSION = ''pcenc-h1''"

datatype encryption_error = PayloadEncryptionError

definition is_encrypted_content :: "(string \<Rightarrow> json option) \<Rightarrow> string \<Rightarrow> bool" where
  "is_encrypted_content loads content =
     (case loads content of
        Some (JObj kvs) \<Rightarrow> map_of kvs ''v'' = Some (JStr WIRE_VERSION)
      | _ \<Rightarrow> False)"

text \<open>\<open>n.to_bytes(2, "big")\<close> (\<open>OverflowError\<close> from 65536 on) and its inverse.\<close>

definition to_bytes2 :: "nat \<Rightarrow> string option" where
  "to_bytes2 n = (if n < 65536 then Some [char_of (n div 256), char_of (n mod 256)] else None)"

definition from_bytes2 :: "string \<Rightarrow> nat" where
  "from_bytes2 s = (case s of [a, b] \<Rightarrow> 256 * of_char a + of_char b | _ \<Rightarrow> 0)"

text \<open>\<open>aes_key\<close> and \<open>nonce\<close> are the random bytes drawn.\<close>

definition hybrid_encrypt :: "crypto \<Rightarrow> string \<Rightarrow> string \<Rightarrow> string \<Rightarrow> string \<Rightarrow> string option" where
  "hybrid_encrypt cr aes_key nonce plaintext public_key_pem =
     (if \<not> cr_public_ok cr public_key_pem \<or> \<not> cr_public_rsa cr public_key_pem then None
      else
        let ciphertext = cr_aes_encrypt cr aes_key nonce plaintext;
            ekm = cr_rsa_encrypt cr public_key_pem (aes_key @ nonce)
        in map_option (\<lambda>len. len @ ekm @ ciphertext) (to_bytes2 (length ekm)))"

definition hybrid_decrypt :: "crypto \<Rightarrow> string \<Rightarrow> string \<Rightarrow> string option" where
  "hybrid_decrypt cr ciphertext private_key_pem =
     (if \<not> cr_private_ok cr private_key_pem \<or> \<not> cr_private_rsa cr private_key_pem then None
      else if length ciphertext < 2 then None
      else
        let rsa_len = from_bytes2 (take 2 ciphertext) in
        if length ciphertext < 2 + rsa_len then None
        else
          (case cr_rsa_decrypt cr private_key_pem (take rsa_len (drop 2 ciphertext)) of
             None \<Rightarrow> None
           | Some key_material \<Rightarrow>
               if length key_material \<noteq> 44 then None
               else cr_aes_decrypt cr (take 32 key_material) (drop 32 key_material)
                      (drop (2 + rsa_len) ciphertext)))"

text \<open>One box per recipient with a key; \<open>rnd\<close> gives the random bytes drawn for each.\<close>

fun make_boxes ::
  "crypto \<Rightarrow> (string \<Rightarrow> string \<times> string) \<Rightarrow> string \<Rightarrow> (string, string) dict \<Rightarrow> (string, json) dict option" where
  "make_boxes cr rnd plaintext [] = Some []"
| "make_boxes cr rnd plaintext ((user_id, pem) # rest) =
     (case hybrid_encrypt cr (fst (rnd user_id)) (snd (rnd user_id)) plaintext pem of
        None \<Rightarrow> None
      | Some blob \<Rightarrow> map_option (\<lambda>bs. (user_id, JStr (b64encode blob)) # bs) (make_boxes cr rnd plaintext rest))"

definition encrypted_json :: "(string, json) dict \<Rightarrow> json" where
  "encrypted_json boxes = JObj [(''v'', JStr WIRE_VERSION), (''boxes'', JObj boxes)]"

text \<open>\<open>None\<close> is an exception of the key loading or encryption. No float is printed.\<close>

definition encrypt_payload ::
  "crypto \<Rightarrow> (string \<Rightarrow> string \<times> string) \<Rightarrow> (string, string) dict \<Rightarrow> message \<Rightarrow> message option" where
  "encrypt_payload cr rnd recipient_pubkeys msg =
     (let valid = filter (\<lambda>(uid, pem). pem \<noteq> []) recipient_pubkeys in
      if valid = [] then Some msg
      else map_option (\<lambda>boxes. msg\<lparr>msg_content := json_dumps (\<lambda>_. []) '','' '':'' (encrypted_json boxes)\<rparr>)
             (make_boxes cr rnd (msg_content msg) valid))"

definition decrypt_payload ::
  "crypto \<Rightarrow> (string \<Rightarrow> json option) \<Rightarrow> string \<Rightarrow> string \<Rightarrow> message \<Rightarrow> encryption_error + message" where
  "decrypt_payload cr loads own_user_id private_key_pem msg =
     (if \<not> is_encrypted_content loads (msg_content msg) then Inr msg
      else
        (case jget (the (loads (msg_content msg))) ''boxes'' of
           Some (JObj boxes) \<Rightarrow>
             (case map_of boxes own_user_id of
                Some (JStr encoded) \<Rightarrow>
                  if encoded = [] then Inl PayloadEncryptionError
                  else (case b64decode_strict encoded \<bind> (\<lambda>c. hybrid_decrypt cr c private_key_pem) of
                          None \<Rightarrow> Inl PayloadEncryptionError
                        | Some plain \<Rightarrow> Inr (msg\<lparr>msg_content := plain\<rparr>))
              | _ \<Rightarrow> Inl PayloadEncryptionError)
         | _ \<Rightarrow> Inl PayloadEncryptionError))"

section \<open>The functions the broadcast node imports\<close>

text \<open>The broadcast node registers peer keys before it verifies; the keys it registered are
  the dictionary it passes.\<close>

definition package_security ::
  "crypto \<Rightarrow> (rat \<Rightarrow> string) \<Rightarrow> (string \<Rightarrow> json option) \<Rightarrow> (string \<Rightarrow> string \<times> string) \<Rightarrow> key_state \<Rightarrow> security" where
  "package_security cr fr loads rnd ks =
     \<lparr>sec_sign = (\<lambda>m. map_option msg_signature (sign cr fr ks m)),
      sec_verify = (\<lambda>keys m. verify cr fr (ks\<lparr>ks_public := keys\<rparr>) m),
      sec_loads_pem = cr_public_ok cr,
      sec_private_key = get_private_key_pem ks,
      sec_is_encrypted = is_encrypted_content loads,
      sec_encrypt = (\<lambda>content uid pub. map_option msg_content (encrypt_payload cr rnd [(uid, pub)]
         \<lparr>msg_content = content, msg_sender = [], msg_id = [], msg_timestamp = 0, msg_signature = [],
          msg_ttl = 0, msg_vector_clock = []\<rparr>)),
      sec_decrypt = (\<lambda>content uid priv. case decrypt_payload cr loads uid priv
         \<lparr>msg_content = content, msg_sender = [], msg_id = [], msg_timestamp = 0, msg_signature = [],
          msg_ttl = 0, msg_vector_clock = []\<rparr> of Inl _ \<Rightarrow> None | Inr m \<Rightarrow> Some (msg_content m))\<rparr>"

section \<open>Key storage\<close>

datatype key_error = MissingKeyError | InvalidKeyError | PersistentKeyStorageError

text \<open>\<open>InMemoryKeyStore\<close>: the private key, if one is loaded.\<close>

type_synonym key_store = "string option"

definition set_private_key :: "string \<Rightarrow> key_store \<Rightarrow> key_error + key_store" where
  "set_private_key k ks = (if k = [] then Inl InvalidKeyError else Inr (Some k))"

definition get_private_key :: "key_store \<Rightarrow> key_error + string" where
  "get_private_key ks = (case ks of None \<Rightarrow> Inl MissingKeyError | Some k \<Rightarrow> Inr k)"

definition get_public_key_pem :: "crypto \<Rightarrow> key_store \<Rightarrow> key_error + string" where
  "get_public_key_pem cr ks =
     (case get_private_key ks of
        Inl e \<Rightarrow> Inl e
      | Inr k \<Rightarrow> if cr_private_ok cr k then Inr (cr_public_of cr k) else Inl InvalidKeyError)"

definition has_private_key :: "key_store \<Rightarrow> bool" where
  "has_private_key ks = (ks \<noteq> None)"

definition clear_store :: "key_store \<Rightarrow> key_store" where
  "clear_store ks = None"

text \<open>\<open>KeyringKeyStorage\<close>: the key ring maps a service and an account to a password.\<close>

type_synonym keyring = "(string \<times> string, string) dict"

definition KEYRING_SLOT :: "string \<times> string" where "KEYRING_SLOT = (''peerchat'', ''private_key'')"

definition save_private_key :: "string \<Rightarrow> keyring \<Rightarrow> key_error + keyring" where
  "save_private_key k kr =
     (if k = [] then Inl PersistentKeyStorageError else Inr (dict_set KEYRING_SLOT (b64encode k) kr))"

definition load_private_key :: "keyring \<Rightarrow> key_error + string" where
  "load_private_key kr =
     (case map_of kr KEYRING_SLOT of
        None \<Rightarrow> Inl PersistentKeyStorageError
      | Some stored \<Rightarrow>
          (case b64decode stored of
             None \<Rightarrow> Inl PersistentKeyStorageError
           | Some k \<Rightarrow> if k = [] then Inl PersistentKeyStorageError else Inr k))"

definition delete_private_key :: "keyring \<Rightarrow> keyring" where
  "delete_private_key kr = dict_pop KEYRING_SLOT kr"

text \<open>\<open>initialize_private_key_store\<close>; \<open>fresh\<close> is the key \<open>generate_rsa_private_key_pem\<close>
  returns, \<open>None\<close> for the key ring that no backend is available. The result is the public
  key with the runtime store and the key ring.\<close>

definition initialize_private_key_store ::
  "crypto \<Rightarrow> string \<Rightarrow> key_store \<Rightarrow> keyring option \<Rightarrow> key_error + (string \<times> key_store \<times> keyring option)" where
  "initialize_private_key_store cr fresh rs kr0 =
     (let finish = (\<lambda>k kr. case set_private_key k rs of
            Inl e \<Rightarrow> Inl e
          | Inr rs' \<Rightarrow> (case get_public_key_pem cr rs' of Inl e \<Rightarrow> Inl e | Inr pub \<Rightarrow> Inr (pub, rs', kr)))
      in case kr0 of
           None \<Rightarrow> finish fresh None
         | Some kr \<Rightarrow>
             (case load_private_key kr of
                Inr k \<Rightarrow> finish k (Some kr)
              | Inl _ \<Rightarrow>
                  (case save_private_key fresh kr of
                     Inl e \<Rightarrow> Inl e
                   | Inr kr' \<Rightarrow> finish fresh (Some kr'))))"

end
