(* ===== verification/Security_Properties.thy ===== *)
theory Security_Properties
  imports Security Node_Transport Json_Text
begin

text \<open>
  Properties of the security package: what a signature covers, that signed messages pass the
  broadcast node's gate, that every recipient can decrypt, and that the stored key survives a
  restart.
\<close>

section \<open>Strict base64\<close>

lemma b64_char_alphabet: "i < 64 \<Longrightarrow> b64_char i \<in> set b64_alphabet"
proof -
  have "length b64_alphabet = 64" by code_simp
  then show "i < 64 \<Longrightarrow> b64_char i \<in> set b64_alphabet" unfolding b64_char_def by (metis nth_mem)
qed

lemma pad_not_alphabet: "CHR ''='' \<notin> set b64_alphabet"
  by code_simp

lemma b64encode_strict: "b64_strict (b64encode bs)"
  unfolding b64_strict_def
proof (induction bs rule: b64encode.induct)
  case (4 a b c bs)
  then show ?case by (simp add: b64_char_alphabet byte_parts)
qed (simp_all add: b64_char_alphabet byte_parts pad_not_alphabet)

lemma b64_strict_roundtrip [simp]: "b64decode_strict (b64encode bs) = Some bs"
  by (simp add: b64decode_strict_def b64encode_strict b64_roundtrip)

section \<open>The canonical form is unambiguous\<close>

lemma hex_digit_inj: "a < 16 \<Longrightarrow> b < 16 \<Longrightarrow> hex_digit a = hex_digit b \<Longrightarrow> a = b"
proof -
  have "list_all (\<lambda>a. list_all (\<lambda>b. hex_digit a = hex_digit b \<longrightarrow> a = b) [0..<16]) [0..<16]"
    by code_simp
  then show "a < 16 \<Longrightarrow> b < 16 \<Longrightarrow> hex_digit a = hex_digit b \<Longrightarrow> a = b" by (simp add: list_all_iff)
qed

text \<open>Decoding one escaped character: how many characters it takes and which one it is.\<close>

definition unescape :: "string \<Rightarrow> char \<times> string" where
  "unescape s =
     (case s of
        [] \<Rightarrow> (char_of (0::nat), [])
      | c # r \<Rightarrow>
          if of_char c \<noteq> (92::nat) then (c, r)
          else (case r of
                  [] \<Rightarrow> (c, [])
                | d # q \<Rightarrow>
                    if d = CHR ''n'' then (char_of (10::nat), q)
                    else if d = CHR ''r'' then (char_of (13::nat), q)
                    else if d = CHR ''t'' then (char_of (9::nat), q)
                    else if d = CHR ''f'' then (char_of (12::nat), q)
                    else if d = CHR ''b'' then (char_of (8::nat), q)
                    else if d = CHR ''u'' then
                      (char_of (16 * the (index_of (q ! 2) ''0123456789abcdef'')
                                + the (index_of (q ! 3) ''0123456789abcdef'')), drop 4 q)
                    else (d, q)))"

lemma index_hex: "a < 16 \<Longrightarrow> the (index_of (hex_digit a) ''0123456789abcdef'') = a"
proof -
  have "list_all (\<lambda>a. the (index_of (hex_digit a) ''0123456789abcdef'') = a) [0..<16]" by code_simp
  then show "a < 16 \<Longrightarrow> the (index_of (hex_digit a) ''0123456789abcdef'') = a" by (simp add: list_all_iff)
qed

lemma quote_chars: "char_of (34::nat) = CHR 0x22" "char_of (92::nat) = CHR 0x5C"
  by code_simp+

lemma unescape_hex:
  assumes "a < 16" "b < 16"
  shows "unescape (char_of (92::nat) # CHR ''u'' # CHR ''0'' # CHR ''0'' # hex_digit a # hex_digit b # r) =
    (char_of (16 * a + b), r)"
proof -
  have q: "(x # y # hex_digit a # hex_digit b # r) ! 2 = hex_digit a"
    "(x # y # hex_digit a # hex_digit b # r) ! 3 = hex_digit b"
    "drop 4 (x # y # hex_digit a # hex_digit b # r) = r" for x y by simp_all
  show ?thesis
    unfolding unescape_def list.case q index_hex[OF assms(1)] index_hex[OF assms(2)] by simp
qed

lemma unescape_escape: "unescape (json_escape c @ r) = (c, r)"
proof -
  define n where "n = (of_char c :: nat)"
  have c: "c = char_of n" by (simp add: n_def)
  have lt: "n < 256" unfolding n_def by (rule nat_of_char_less_256)
  then have oc: "(of_char (char_of n :: char) :: nat) = n" by simp
  have hi: "n div 16 < 16" using lt by (simp add: div_less_iff_less_mult)
  consider (special) "n \<in> {34, 92, 10, 13, 9, 12, 8}"
    | (plain) "n \<notin> {34, 92, 10, 13, 9, 12, 8}" "32 \<le> n \<and> n \<le> 126"
    | (hex) "n \<notin> {34, 92, 10, 13, 9, 12, 8}" "\<not> (32 \<le> n \<and> n \<le> 126)" by blast
  then show ?thesis
  proof cases
    case special
    then obtain d where d: "json_escape c = [char_of (92::nat), d]"
      "(d, n) \<in> {(CHR 0x22, 34), (CHR 0x5C, 92), (CHR ''n'', 10), (CHR ''r'', 13), (CHR ''t'', 9),
        (CHR ''f'', 12), (CHR ''b'', 8)}"
      by (elim insertE emptyE) (simp_all add: c json_escape_def quote_chars)
    have u: "unescape (char_of (92::nat) # d # r) =
        (if d = CHR ''n'' then char_of (10::nat) else if d = CHR ''r'' then char_of (13::nat)
         else if d = CHR ''t'' then char_of (9::nat) else if d = CHR ''f'' then char_of (12::nat)
         else if d = CHR ''b'' then char_of (8::nat) else d, r)"
      using d(2) by (elim insertE emptyE) (simp_all add: unescape_def)
    have "unescape (json_escape c @ r) = unescape (char_of (92::nat) # d # r)" by (simp add: d(1))
    then show ?thesis
      unfolding u using d(2) by (elim insertE emptyE) (simp_all add: c quote_chars)
  next
    case plain
    then have "json_escape c = [c]" using oc by (simp add: c json_escape_def)
    then show ?thesis using plain oc by (simp add: unescape_def c)
  next
    case hex
    then have "json_escape c = [char_of (92::nat), CHR ''u'', CHR ''0'', CHR ''0'', hex_digit (n div 16), hex_digit (n mod 16)]"
      using oc by (auto simp: c json_escape_def)
    then have "unescape (json_escape c @ r) = (char_of n, r)" using unescape_hex[OF hi, of "n mod 16" r] by simp
    then show ?thesis by (simp add: n_def)
  qed
qed

lemma escape_inj: "json_escape c @ r = json_escape c' @ r' \<Longrightarrow> c = c' \<and> r = r'"
proof -
  assume e: "json_escape c @ r = json_escape c' @ r'"
  have "(c, r) = (c', r')" using unescape_escape[of c r] unescape_escape[of c' r'] unfolding e by (rule trans[OF sym])
  then show ?thesis by simp
qed

lemma escape_not_quote: "json_escape c \<noteq> [] \<and> hd (json_escape c) \<noteq> char_of (34::nat)"
  by (auto simp: json_escape_def Let_def)

lemma quote_body_inj:
  "concat (map json_escape s) @ char_of (34::nat) # r = concat (map json_escape s') @ char_of (34::nat) # r' \<Longrightarrow>
   s = s' \<and> r = r'"
proof (induction s arbitrary: s')
  case Nil
  show ?case
  proof (cases s')
    case (Cons c cs)
    then show ?thesis using Nil escape_not_quote[of c] by (cases "json_escape c") auto
  qed (use Nil in simp)
next
  case (Cons c cs)
  show ?case
  proof (cases s')
    case Nil
    then show ?thesis using Cons.prems escape_not_quote[of c] by (cases "json_escape c") auto
  next
    case (Cons c' cs')
    with Cons.prems have "json_escape c @ (concat (map json_escape cs) @ char_of (34::nat) # r) =
        json_escape c' @ (concat (map json_escape cs') @ char_of (34::nat) # r')" by simp
    from escape_inj[OF this] Cons.IH[of cs'] Cons show ?thesis by simp
  qed
qed

lemma quote_inj: "json_quote s @ r = json_quote s' @ r' \<Longrightarrow> s = s' \<and> r = r'"
  using quote_body_inj[of s r s' r'] by (simp add: json_quote_def)

lemma canonical_eq:
  "canonical_payload fr m = canonical_payload fr m' \<longleftrightarrow>
     msg_content m = msg_content m' \<and> msg_id m = msg_id m' \<and> msg_sender m = msg_sender m' \<and>
     fr (msg_timestamp m) = fr (msg_timestamp m')"
proof
  assume "canonical_payload fr m = canonical_payload fr m'"
  then have e: "json_quote (msg_content m) @ '','' @ json_quote ''id'' @ '':'' @ json_quote (msg_id m) @
      '','' @ json_quote ''sender'' @ '':'' @ json_quote (msg_sender m) @ '','' @ json_quote ''signature'' @ '':'' @
      json_quote [] @ '','' @ json_quote ''timestamp'' @ '':'' @ fr (msg_timestamp m) @ ''}'' =
    json_quote (msg_content m') @ '','' @ json_quote ''id'' @ '':'' @ json_quote (msg_id m') @
      '','' @ json_quote ''sender'' @ '':'' @ json_quote (msg_sender m') @ '','' @ json_quote ''signature'' @ '':'' @
      json_quote [] @ '','' @ json_quote ''timestamp'' @ '':'' @ fr (msg_timestamp m') @ ''}''"
    by (simp add: canonical_payload_def)
  from quote_inj[OF e] have 1: "msg_content m = msg_content m'"
    and e: "json_quote (msg_id m) @ '','' @ json_quote ''sender'' @ '':'' @ json_quote (msg_sender m) @ '','' @
      json_quote ''signature'' @ '':'' @ json_quote [] @ '','' @ json_quote ''timestamp'' @ '':'' @ fr (msg_timestamp m) @ ''}'' =
    json_quote (msg_id m') @ '','' @ json_quote ''sender'' @ '':'' @ json_quote (msg_sender m') @ '','' @
      json_quote ''signature'' @ '':'' @ json_quote [] @ '','' @ json_quote ''timestamp'' @ '':'' @ fr (msg_timestamp m') @ ''}''"
    by simp_all
  from quote_inj[OF e] have 2: "msg_id m = msg_id m'"
    and e: "json_quote (msg_sender m) @ '','' @
      json_quote ''signature'' @ '':'' @ json_quote [] @ '','' @ json_quote ''timestamp'' @ '':'' @ fr (msg_timestamp m) @ ''}'' =
    json_quote (msg_sender m') @ '','' @
      json_quote ''signature'' @ '':'' @ json_quote [] @ '','' @ json_quote ''timestamp'' @ '':'' @ fr (msg_timestamp m') @ ''}''"
    by simp_all
  from quote_inj[OF e] 1 2 show "msg_content m = msg_content m' \<and> msg_id m = msg_id m' \<and>
      msg_sender m = msg_sender m' \<and> fr (msg_timestamp m) = fr (msg_timestamp m')" by simp
qed (simp add: canonical_payload_def)

section \<open>Signatures\<close>

lemma canonical_ignores [simp]:
  "canonical_payload fr (m\<lparr>msg_signature := g, msg_ttl := t, msg_vector_clock := v\<rparr>) = canonical_payload fr m"
  "canonical_payload fr (m\<lparr>msg_ttl := t, msg_vector_clock := v\<rparr>) = canonical_payload fr m"
  "canonical_payload fr (m\<lparr>msg_signature := g\<rparr>) = canonical_payload fr m"
  by (simp_all add: canonical_payload_def)

lemma signed_verifies:
  assumes "crypto_laws cr k" and "ks_private ks = Some k"
    and "map_of (ks_public ks') (msg_sender m) = Some (cr_public_of cr k)"
  shows "\<exists>m'. sign cr fr ks m = Some m' \<and> verify cr fr ks' (m'\<lparr>msg_ttl := t, msg_vector_clock := v\<rparr>)"
  using assms by (simp add: sign_def verify_def crypto_laws_def b64encode_Nil_iff)

section \<open>Hybrid encryption\<close>

lemma bytes2_roundtrip: "to_bytes2 n = Some s \<Longrightarrow> length s = 2 \<and> from_bytes2 s = n"
  by (auto simp: to_bytes2_def from_bytes2_def split: if_splits)

lemma hybrid_roundtrip:
  assumes "crypto_laws cr k" and "length ak = 32" and "length nonce = 12"
  shows "\<exists>c. hybrid_encrypt cr ak nonce plain (cr_public_of cr k) = Some c \<and> c \<noteq> [] \<and>
    hybrid_decrypt cr c k = Some plain"
proof -
  let ?e = "cr_rsa_encrypt cr (cr_public_of cr k) (ak @ nonce)"
  have l: "length (ak @ nonce) = 44" using assms by simp
  with assms(1) have e: "length ?e < 65536" "cr_rsa_decrypt cr k ?e = Some (ak @ nonce)"
    unfolding crypto_laws_def by blast+
  then obtain s where s: "to_bytes2 (length ?e) = Some s" by (simp add: to_bytes2_def)
  note s2 = bytes2_roundtrip[OF s]
  let ?c = "s @ ?e @ cr_aes_encrypt cr ak nonce plain"
  have "hybrid_encrypt cr ak nonce plain (cr_public_of cr k) = Some ?c"
    using assms(1) s by (simp add: hybrid_encrypt_def crypto_laws_def Let_def)
  moreover have "hybrid_decrypt cr ?c k = Some plain"
    using assms s2 e(2) l by (simp add: hybrid_decrypt_def crypto_laws_def Let_def)
  moreover have "?c \<noteq> []" using s2 by auto
  ultimately show ?thesis by blast
qed

lemma make_boxes_open:
  assumes "make_boxes cr rnd plain pks = Some bs" and "map_of pks u = Some (cr_public_of cr k)"
    and "crypto_laws cr k" and "length (fst (rnd u)) = 32" "length (snd (rnd u)) = 12"
  shows "\<exists>e c. map_of bs u = Some (JStr e) \<and> e \<noteq> [] \<and> b64decode_strict e = Some c \<and>
    hybrid_decrypt cr c k = Some plain"
  using assms(1,2)
proof (induction pks arbitrary: bs)
  case (Cons x pks)
  obtain u' pem where x: "x = (u', pem)" by force
  from Cons.prems(1) obtain blob bs' where b: "hybrid_encrypt cr (fst (rnd u')) (snd (rnd u')) plain pem = Some blob"
      "make_boxes cr rnd plain pks = Some bs'" "bs = (u', JStr (b64encode blob)) # bs'"
    by (auto simp: x split: option.splits)
  show ?case
  proof (cases "u' = u")
    case True
    with Cons.prems(2) have "pem = cr_public_of cr k" by (simp add: x)
    with True b(1) hybrid_roundtrip[OF assms(3-5), of plain] show ?thesis
      by (auto simp: b(3) b64encode_Nil_iff)
  next
    case False
    with Cons.IH[OF b(2)] Cons.prems(2) show ?thesis by (simp add: x b(3))
  qed
qed simp

lemma make_boxes_keys: "make_boxes cr rnd plain pks = Some bs \<Longrightarrow> map fst bs = map fst pks"
  by (induction pks arbitrary: bs) (auto split: option.splits)

lemma make_boxes_texts: "make_boxes cr rnd plain pks = Some bs \<Longrightarrow> (u, v) \<in> set bs \<Longrightarrow> \<exists>e. v = JStr e"
  by (induction pks arbitrary: bs) (auto split: option.splits)

text \<open>The decoder reads the encrypted content back.\<close>

lemma boxes_parse:
  assumes "make_boxes cr rnd plain pks = Some bs" "wf_dict pks"
  shows "json_loads pf (json_dumps (\<lambda>_. []) '','' '':'' (encrypted_json bs)) = Some (encrypted_json bs)"
proof (rule loads_dumps(1))
  have "wf_dict bs" using assms make_boxes_keys[OF assms(1)] by (simp del: map_map)
  moreover have "json_ok (\<lambda>_. []) pf v" if "(u, v) \<in> set bs" for u v using make_boxes_texts[OF assms(1) that] by auto
  ultimately show "json_ok (\<lambda>_. []) pf (encrypted_json bs)" by (auto simp: encrypted_json_def)
qed

lemma boxes_made:
  assumes "\<forall>(u, pem) \<in> set pks. \<exists>k. pem = cr_public_of cr k \<and> crypto_laws cr k"
    and "\<forall>u. length (fst (rnd u)) = 32 \<and> length (snd (rnd u)) = 12"
  shows "\<exists>bs. make_boxes cr rnd plain pks = Some bs"
  using assms(1)
proof (induction pks)
  case (Cons x pks)
  obtain u pem where x: "x = (u, pem)" by force
  with Cons.prems obtain k where "pem = cr_public_of cr k" "crypto_laws cr k" by auto
  then obtain blob where "hybrid_encrypt cr (fst (rnd u)) (snd (rnd u)) plain pem = Some blob"
    using hybrid_roundtrip[of cr k] assms(2) by blast
  with Cons x show ?case by auto
qed simp

lemma decrypt_opens:
  assumes "loads (json_dumps (\<lambda>_. []) '','' '':'' (encrypted_json bs)) = Some (encrypted_json bs)"
    and "msg_content m = json_dumps (\<lambda>_. []) '','' '':'' (encrypted_json bs)"
    and "map_of bs u = Some (JStr e)" "e \<noteq> []" "b64decode_strict e = Some c" "hybrid_decrypt cr c k = Some plain"
  shows "is_encrypted_content loads (msg_content m) \<and>
    decrypt_payload cr loads u k m = Inr (m\<lparr>msg_content := plain\<rparr>)"
proof -
  have l: "loads (msg_content m) = Some (encrypted_json bs)" by (simp only: assms(1,2))
  then have "is_encrypted_content loads (msg_content m)"
    by (simp add: is_encrypted_content_def encrypted_json_def)
  then show ?thesis
    using assms(3-6) by (simp add: decrypt_payload_def l) (simp add: encrypted_json_def)
qed

section \<open>What the package guarantees the node\<close>

text \<open>A signature covers exactly the content, the identifier, the sender and the printed
  timestamp of a message: two messages have the same signed text only if they agree on all
  four, and verification does not depend on the hop count or the vector clock, which relays
  and senders change.\<close>

theorem signature_covers:
  "(canonical_payload fr m = canonical_payload fr m' \<longleftrightarrow>
      msg_content m = msg_content m' \<and> msg_id m = msg_id m' \<and> msg_sender m = msg_sender m' \<and>
      fr (msg_timestamp m) = fr (msg_timestamp m'))
   \<and> verify cr fr ks (m\<lparr>msg_ttl := t, msg_vector_clock := v\<rparr>) = verify cr fr ks m"
  by (simp add: canonical_eq verify_def cong: option.case_cong if_cong)

lemma verify_incoming_signed:
  assumes "env_sec env = Some (package_security cr fr loads rnd sr)" "crypto_laws cr k"
    and "msg_sender w = addr_str sp" "rv_pub_key reg \<noteq> None"
    and "view_key (hooked env w reg) sp = cr_public_of cr k"
  shows "fst (verify_incoming env reg n w) \<or>
    \<not> (msg_signature w \<noteq> [] \<and> (\<forall>ks. map_of (ks_public ks) (msg_sender w) = Some (cr_public_of cr k) \<longrightarrow> verify cr fr ks w))"
proof (cases "n_enforce n \<or> has_any_peer_key reg")
  case True
  let ?n = "register_peer_key env (hooked env w reg) sp n"
  have "map_of (n_keys ?n) (addr_str sp) = Some (cr_public_of cr k)"
    using register_peer_key_lookup[OF assms(1), of "hooked env w reg" sp] assms(2,5)
    by (simp add: package_security_def crypto_laws_def)
  then show ?thesis
    using verify_incoming_iff[OF assms(1) True, of w] assms by (auto simp: package_security_def crypto_laws_def)
qed (simp add: verify_incoming_lenient)

text \<open>C9. A sealed message opens. When a node sends a plaintext message to a peer whose public key
  its registry holds, and the receiver's registry holds the sender's key, the copy it puts
  on the wire is accepted by the receiver's signature gate and the receiver's user interface
  shows the original content.\<close>

theorem sealed_message_opens:
  assumes "crypto_laws cr ks" "crypto_laws cr kr" "kr \<noteq> []"
    and "env_sec env_s = Some (package_security cr fr (json_loads pf) rnd ss)" "ks_private ss = Some ks"
    and "env_sec env_r = Some (package_security cr fr (json_loads pf) rnd sr)" "ks_private sr = Some kr"
    and "get_peer_pubkey reg_s hp = Some (cr_public_of cr kr)" "n_address nr = addr_str hp"
    and "msg_sender m = addr_str sp" "rv_pub_key reg_r \<noteq> None"
    and "\<forall>w. view_key (hooked env_r w reg_r) sp = cr_public_of cr ks"
    and "\<not> is_encrypted_content (json_loads pf) (msg_content m)"
    and "length (fst (rnd (addr_str hp))) = 32" "length (snd (rnd (addr_str hp))) = 12"
  shows "\<exists>w. prepare_outgoing_for_peer env_s reg_s n m hp = Some w \<and> fst (verify_incoming env_r reg_r nr w) \<and>
    is_encrypted_content (json_loads pf) (msg_content w) \<and> message_for_ui env_r nr w = w\<lparr>msg_content := msg_content m\<rparr>"
proof -
  let ?u = "addr_str hp" and ?pub = "cr_public_of cr kr"
  have ne: "?pub \<noteq> []" using assms(2) by (simp add: crypto_laws_def)
  obtain bs where bs: "make_boxes cr rnd (msg_content m) [(?u, ?pub)] = Some bs"
    using hybrid_roundtrip[OF assms(2,14,15), of "msg_content m"] by auto
  let ?t = "json_dumps (\<lambda>_. []) '','' '':'' (encrypted_json bs)"
  obtain e c where box: "map_of bs ?u = Some (JStr e)" "e \<noteq> []" "b64decode_strict e = Some c"
      "hybrid_decrypt cr c kr = Some (msg_content m)"
    using make_boxes_open[OF bs _ assms(2,14,15)] by auto
  let ?w = "m\<lparr>msg_content := ?t\<rparr>"
  obtain w where w: "sign cr fr ss ?w = Some w" "w = ?w\<lparr>msg_signature := msg_signature w\<rparr>"
    using assms(5) by (auto simp: sign_def)
  have enc: "encrypt_for_peer env_s reg_s m hp = (True, ?w)"
    using assms(4,8,13) ne bs by (simp add: encrypt_for_peer_def package_security_def encrypt_payload_def)
  have out: "prepare_outgoing_for_peer env_s reg_s n m hp = Some w"
    using prepare_signature[OF assms(4) enc, of "msg_signature w"] w by (simp add: package_security_def)
  have sw: "msg_sender w = addr_str sp" using assms(10) w(2) by (metis message.select_convs(2) message.surjective message.update_convs(1,5))
  have ver: "verify cr fr ks' w" if "map_of (ks_public ks') (msg_sender w) = Some (cr_public_of cr ks)" for ks'
    using signed_verifies[OF assms(1,5), where ks' = ks' and m = ?w and fr = fr and t = "msg_ttl w" and v = "msg_vector_clock w"] that w(1) sw assms(10) by simp
  have "msg_signature w \<noteq> []"
    using w(1) assms(1,5) by (auto simp: sign_def b64encode_Nil_iff crypto_laws_def)
  then have acc: "fst (verify_incoming env_r reg_r nr w)"
    using verify_incoming_signed[OF assms(6,1) sw assms(11)] assms(12) ver by blast
  have ct: "msg_content w = ?t" by (subst w(2)) simp
  note op = decrypt_opens[where loads = "json_loads pf", OF boxes_parse[OF bs] _ box(1-4), simplified]
  have "is_encrypted_content (json_loads pf) ?t" using op[of w] ct by simp
  then have "message_for_ui env_r nr w = w\<lparr>msg_content := msg_content m\<rparr>"
    using assms(3,6,7,9) op ct by (simp add: message_for_ui_def decrypt_into_def package_security_def get_private_key_pem_def)
  with out acc op[OF ct] show ?thesis by blast
qed

text \<open>A concrete set of primitives with the laws, for the witnesses: a key names itself, a signature
  is the key and the text, and encryption reverses its input.\<close>

definition demo_crypto :: crypto where
  "demo_crypto = \<lparr>cr_private_ok = (\<lambda>k. k \<noteq> []), cr_public_ok = (\<lambda>p. take 4 p = ''pub:''),
     cr_private_rsa = (\<lambda>k. True), cr_public_rsa = (\<lambda>p. True), cr_public_of = (\<lambda>k. ''pub:'' @ k),
     cr_sign = (\<lambda>k t. CHR ''s'' # k @ t), cr_verify = (\<lambda>p t g. g = CHR ''s'' # drop 4 p @ t),
     cr_rsa_encrypt = (\<lambda>p t. rev t), cr_rsa_decrypt = (\<lambda>k c. Some (rev c)),
     cr_aes_encrypt = (\<lambda>k n t. rev t), cr_aes_decrypt = (\<lambda>k n c. Some (rev c))\<rparr>"

lemma demo_crypto_laws: "k \<noteq> [] \<Longrightarrow> crypto_laws demo_crypto k"
  by (simp add: crypto_laws_def demo_crypto_def)

definition demo_rnd :: "string \<Rightarrow> string \<times> string" where
  "demo_rnd u = (replicate 32 (CHR ''k''), replicate 12 (CHR ''n''))"

definition demo_keys :: "string \<Rightarrow> key_state" where
  "demo_keys k = \<lparr>ks_private = Some k, ks_public = []\<rparr>"

definition demo_msg :: message where
  "demo_msg = \<lparr>msg_content = ''hi'', msg_sender = ''a:1'', msg_id = ''m1'', msg_timestamp = 0,
     msg_signature = [], msg_ttl = 3, msg_vector_clock = []\<rparr>"

lemma demo_addresses: "''a:1'' = addr_str (''a'', 1)" "n_address (new_node ''b'' 2 True) = addr_str (''b'', 2)"
  by code_simp+

lemma demo_rnd_lengths [simp]: "length (fst (demo_rnd u)) = 32" "length (snd (demo_rnd u)) = 12"
  by (simp_all add: demo_rnd_def)

lemma demo_not_encrypted: "\<not> is_encrypted_content (json_loads pf) ''hi''"
  by (simp add: is_encrypted_content_def json_loads_def json_ws_def scan_literal_def strip_prefix_def scan_number_def scan_sign_def
      scan_integer_def is_digit_def)

theorem sealed_message_opens_witness:
  "let ld = json_loads (\<lambda>_. 0);
       es = \<lparr>env_sec = Some (package_security demo_crypto (\<lambda>_. ''0.0'') ld demo_rnd (demo_keys ''A'')), env_hook = None\<rparr>;
       er = \<lparr>env_sec = Some (package_security demo_crypto (\<lambda>_. ''0.0'') ld demo_rnd (demo_keys ''B'')), env_hook = None\<rparr>;
       rs = in_memory_view (add_peer ''b'' 2 ''pub:B'' []); rr = in_memory_view (add_peer ''a'' 1 ''pub:A'' []);
       nr = new_node ''b'' 2 True
   in \<exists>w. prepare_outgoing_for_peer es rs (new_node ''a'' 1 True) demo_msg (''b'', 2) = Some w \<and>
        fst (verify_incoming er rr nr w) \<and> is_encrypted_content ld (msg_content w) \<and>
        message_for_ui er nr w = w\<lparr>msg_content := ''hi''\<rparr>"
proof -
  have b: "''b:2'' = addr_str (''b'', 2)" by code_simp
  have p: "cr_public_of demo_crypto ''A'' = ''pub:A''" "cr_public_of demo_crypto ''B'' = ''pub:B''"
    by (simp_all add: demo_crypto_def)
  have c: "msg_content demo_msg = ''hi''" "msg_sender demo_msg = ''a:1''" by (simp_all add: demo_msg_def)
  have v: "view_key (in_memory_view (add_peer ''a'' 1 ''pub:A'' [])) (''a'', 1) = ''pub:A''"
    "get_peer_pubkey (in_memory_view (add_peer ''b'' 2 ''pub:B'' [])) (''b'', 2) = Some ''pub:B''"
    "rv_pub_key (in_memory_view (add_peer ''a'' 1 ''pub:A'' [])) \<noteq> None"
    by code_simp+
  show ?thesis
    unfolding Let_def
    by (rule sealed_message_opens[where ks = "''A''" and kr = "''B''" and sp = "(''a'', 1)" and m = demo_msg
          and ss = "demo_keys ''A''" and sr = "demo_keys ''B''" and fr = "\<lambda>_. ''0.0''" and rnd = demo_rnd and
          pf = "\<lambda>_. 0", unfolded p c, OF demo_crypto_laws demo_crypto_laws])
      (simp_all add: v p demo_addresses b[symmetric] demo_keys_def hooked_def demo_not_encrypted)
qed

text \<open>C29. A relayed copy is rejected. A node that forwards a message signs its copy with its own key,
  while the sender field still names the originator. A receiver that requires signatures and
  knows the originator's key therefore rejects every relayed copy, as long as a signature made
  with the relay's key does not verify under the originator's key.\<close>

theorem relayed_copy_rejected:
  assumes "env_sec env_s = Some (package_security cr fr loads rnd ss)" "ks_private ss = Some k_relay"
    and "env_sec env_r = Some (package_security cr fr loads rnd sr)" "crypto_laws cr k_orig"
    and "\<forall>t. \<not> cr_verify cr (cr_public_of cr k_orig) t (cr_sign cr k_relay t)"
    and "n_enforce nr \<or> has_any_peer_key reg_r" "msg_sender m = addr_str sp"
    and "\<forall>w. view_key (hooked env_r w reg_r) sp = cr_public_of cr k_orig"
    and "(hp, f) \<in> set (forward reg_s n m)"
    and "prepare_outgoing_for_peer env_s reg_s n f hp = Some w"
  shows "\<not> fst (verify_incoming env_r reg_r nr w)"
proof -
  have f: "f = m" using assms(9) by (auto simp: forward_def)
  obtain w1 where enc: "encrypt_for_peer env_s reg_s m hp = (True, w1)"
    using assms(10) unfolding f by (auto simp: prepare_outgoing_for_peer_def split: prod.splits bool.splits)
  let ?g = "b64encode (cr_sign cr k_relay (canonical_payload fr w1))"
  have "w = w1\<lparr>msg_signature := ?g\<rparr>"
    using prepare_signature[OF assms(1) enc, of ?g] assms(2,10)
    by (simp add: f package_security_def sign_def)
  then have g: "msg_signature w = ?g" "canonical_payload fr w = canonical_payload fr w1" by simp_all
  have "msg_sender w = addr_str sp" using prepare_fields[OF assms(10)] assms(7) by (simp add: f)
  moreover have "map_of (n_keys (register_peer_key env_r (hooked env_r w reg_r) sp nr)) (addr_str sp) =
      Some (cr_public_of cr k_orig)"
    using register_peer_key_lookup[OF assms(3), of "hooked env_r w reg_r" sp] assms(4,8)
    by (simp add: package_security_def crypto_laws_def)
  ultimately show ?thesis
    using verify_incoming_iff[OF assms(3,6), of w] assms(5) g
    by (auto simp: package_security_def verify_def)
qed

theorem relayed_copy_rejected_witness:
  "let ld = (\<lambda>_. None);
       es = \<lparr>env_sec = Some (package_security demo_crypto (\<lambda>_. ''0.0'') ld demo_rnd (demo_keys ''R'')), env_hook = None\<rparr>;
       er = \<lparr>env_sec = Some (package_security demo_crypto (\<lambda>_. ''0.0'') ld demo_rnd (demo_keys ''B'')), env_hook = None\<rparr>;
       rs = in_memory_view (add_peer ''b'' 2 [] []); rr = in_memory_view (add_peer ''a'' 1 ''pub:A'' [])
   in \<not> fst (verify_incoming er rr (new_node ''b'' 2 True)
        (demo_msg\<lparr>msg_signature := b64encode (''sR'' @ canonical_payload (\<lambda>_. ''0.0'') demo_msg)\<rparr>))"
proof -
  have v: "view_key (in_memory_view (add_peer ''a'' 1 ''pub:A'' [])) (''a'', 1) = ''pub:A''" by code_simp
  let ?es = "\<lparr>env_sec = Some (package_security demo_crypto (\<lambda>_. ''0.0'') (\<lambda>_. None) demo_rnd (demo_keys ''R'')), env_hook = None\<rparr>"
  let ?rs = "in_memory_view (add_peer ''b'' 2 [] [])"
  have fw: "((''b'', 2), demo_msg) \<in> set (forward ?rs (new_node ''r'' 3 True) demo_msg)" by code_simp
  have "get_peer_pubkey ?rs (''b'', 2) = None" by code_simp
  then have pr: "prepare_outgoing_for_peer ?es ?rs (new_node ''r'' 3 True) demo_msg (''b'', 2) =
      Some (demo_msg\<lparr>msg_signature := b64encode (''sR'' @ canonical_payload (\<lambda>_. ''0.0'') demo_msg)\<rparr>)"
    by (simp add: prepare_outgoing_for_peer_def encrypt_for_peer_def sign_outgoing_def package_security_def
      sign_def is_encrypted_content_def demo_keys_def demo_crypto_def)
  show ?thesis
    unfolding Let_def
    by (rule relayed_copy_rejected[where cr = demo_crypto and k_relay = "''R''" and k_orig = "''A''" and sp = "(''a'', 1)"
        and ss = "demo_keys ''R''" and sr = "demo_keys ''B''" and fr = "\<lambda>_. ''0.0''" and rnd = demo_rnd and loads = "\<lambda>_. None",
        OF _ _ _ demo_crypto_laws _ _ _ _ fw pr])
      (simp_all add: demo_keys_def demo_crypto_def hooked_def v demo_addresses[symmetric] demo_msg_def new_node_def)
qed

lemma map_of_valid: "map_of pks u = Some pem \<Longrightarrow> pem \<noteq> [] \<Longrightarrow> map_of (filter (\<lambda>(uid, p). p \<noteq> []) pks) u = Some pem"
  by (induction pks) (auto split: if_splits)

lemma decrypt_no_box:
  assumes "loads (msg_content m) = Some (encrypted_json bs)" "map_of bs u = None"
  shows "decrypt_payload cr loads u k m = Inl PayloadEncryptionError"
  using assms by (simp add: decrypt_payload_def is_encrypted_content_def) (simp add: encrypted_json_def)

text \<open>Every recipient with a key can decrypt, and nobody else has a box. Encrypting for a set of
  users produces a content from which each user whose key was given recovers the original
  message, while a user for whom no key was given gets \<open>PayloadEncryptionError\<close>.\<close>

theorem every_recipient_decrypts:
  assumes "map_of pks u = Some (cr_public_of cr k)" "crypto_laws cr k"
    and "\<forall>(v, pem) \<in> set pks. pem = [] \<or> (\<exists>k. pem = cr_public_of cr k \<and> crypto_laws cr k)"
    and "\<forall>v. length (fst (rnd v)) = 32 \<and> length (snd (rnd v)) = 12"
    and "wf_dict pks"
  shows "\<exists>m'. encrypt_payload cr rnd pks m = Some m' \<and> is_encrypted_content (json_loads pf) (msg_content m') \<and>
    decrypt_payload cr (json_loads pf) u k m' = Inr m \<and>
    (\<forall>v k'. v \<notin> fst ` set pks \<longrightarrow> decrypt_payload cr (json_loads pf) v k' m' = Inl PayloadEncryptionError)"
proof -
  let ?v = "filter (\<lambda>(v, pem). pem \<noteq> []) pks"
  have u: "map_of ?v u = Some (cr_public_of cr k)"
    using map_of_valid[OF assms(1)] assms(2) by (simp add: crypto_laws_def)
  have "\<forall>(v, pem) \<in> set ?v. \<exists>k. pem = cr_public_of cr k \<and> crypto_laws cr k" using assms(3) by auto
  from boxes_made[OF this assms(4)] obtain bs where bs: "make_boxes cr rnd (msg_content m) ?v = Some bs" by blast
  let ?m = "m\<lparr>msg_content := json_dumps (\<lambda>_. []) '','' '':'' (encrypted_json bs)\<rparr>"
  have l: "(json_loads pf) (json_dumps (\<lambda>_. []) '','' '':'' (encrypted_json bs)) = Some (encrypted_json bs)" 
    using boxes_parse[OF bs] assms(5) by (simp add: distinct_map_filter)
  have "?v \<noteq> []" using u by auto
  then have e: "encrypt_payload cr rnd pks m = Some ?m" using bs by (simp add: encrypt_payload_def Let_def)
  obtain b c where box: "map_of bs u = Some (JStr b)" "b \<noteq> []" "b64decode_strict b = Some c"
      "hybrid_decrypt cr c k = Some (msg_content m)"
    using make_boxes_open[OF bs u assms(2)] assms(4) by auto
  from decrypt_opens[where loads = "json_loads pf" and m = ?m, OF l _ box]
  have d: "is_encrypted_content (json_loads pf) (msg_content ?m)" "decrypt_payload cr (json_loads pf) u k ?m = Inr m" by simp_all
  have "decrypt_payload cr (json_loads pf) v k' ?m = Inl PayloadEncryptionError" if "v \<notin> fst ` set pks" for v k'
  proof (rule decrypt_no_box)
    have "fst ` set bs = fst ` set ?v" using make_boxes_keys[OF bs] by (metis list.set_map)
    then have "v \<notin> fst ` set bs" using that by auto
    then show "map_of bs v = None" by (simp add: map_of_eq_None_iff)
  qed (use l in simp)
  with e d show ?thesis by blast
qed

theorem every_recipient_decrypts_witness:
  "let pks = [(''b:2'', ''pub:B''), (''c:3'', []), (''d:4'', ''pub:D'')]; ld = json_loads (\<lambda>_. 0)
   in \<exists>m'. encrypt_payload demo_crypto demo_rnd pks demo_msg = Some m' \<and>
        decrypt_payload demo_crypto ld ''d:4'' ''D'' m' = Inr demo_msg \<and>
        decrypt_payload demo_crypto ld ''x:9'' ''X'' m' = Inl PayloadEncryptionError"
proof -
  have p: "''pub:B'' = cr_public_of demo_crypto ''B''" "''pub:D'' = cr_public_of demo_crypto ''D''"
    by (simp_all add: demo_crypto_def)
  let ?pks = "[(''b:2'', ''pub:B''), (''c:3'', []), (''d:4'', ''pub:D'')]"
  let ?ld = "json_loads (\<lambda>_. 0)"
  have "crypto_laws demo_crypto ''B''" "crypto_laws demo_crypto ''D''" by (simp_all add: demo_crypto_laws)
  then have a: "\<forall>(v, pem) \<in> set ?pks. pem = [] \<or> (\<exists>k. pem = cr_public_of demo_crypto k \<and> crypto_laws demo_crypto k)"
    using p by auto
  have lookup: "map_of ?pks ''d:4'' = Some (cr_public_of demo_crypto ''D'')" by (simp add: demo_crypto_def)
  have lens: "\<forall>v. length (fst (demo_rnd v)) = 32 \<and> length (snd (demo_rnd v)) = 12" by simp
  have "\<exists>m'. encrypt_payload demo_crypto demo_rnd ?pks demo_msg = Some m' \<and> is_encrypted_content ?ld (msg_content m') \<and>
      decrypt_payload demo_crypto ?ld ''d:4'' ''D'' m' = Inr demo_msg \<and>
      (\<forall>v k'. v \<notin> fst ` set ?pks \<longrightarrow> decrypt_payload demo_crypto ?ld v k' m' = Inl PayloadEncryptionError)"
    by (rule every_recipient_decrypts[OF lookup demo_crypto_laws a lens]) simp_all
  moreover have "''x:9'' \<notin> fst ` set ?pks" by simp
  ultimately show ?thesis unfolding Let_def by blast
qed

text \<open>The identity survives a restart. Once \<open>initialize_private_key_store\<close> has returned a public
  key with a key ring, running it again on that key ring, with any runtime store and any
  other freshly generated key, returns the same public key and leaves the key ring alone; the
  runtime store then holds the private key of that public key.\<close>

theorem key_survives_restart:
  assumes "initialize_private_key_store cr fresh rs (Some kr) = Inr (pub, rs', kr')"
  shows "\<exists>k. rs' = Some k \<and> pub = cr_public_of cr k \<and>
    initialize_private_key_store cr fresh' rs2 kr' = Inr (pub, Some k, kr')"
proof -
  have stored: "load_private_key (dict_set KEYRING_SLOT (b64encode k) kr) = Inr k" if "k \<noteq> []" for k
    using that by (simp add: load_private_key_def map_of_dict_set b64_roundtrip)
  show ?thesis
    using assms stored
    by (auto simp: initialize_private_key_store_def set_private_key_def get_public_key_pem_def get_private_key_def
      save_private_key_def split: sum.splits if_splits)
qed

theorem key_survives_restart_witness:
  "\<exists>k. initialize_private_key_store demo_crypto ''K2'' None (Some [(KEYRING_SLOT, b64encode ''K1'')]) =
     Inr (''pub:K1'', Some k, Some [(KEYRING_SLOT, b64encode ''K1'')])"
proof -
  have "initialize_private_key_store demo_crypto ''K1'' None (Some []) =
      Inr (''pub:K1'', Some ''K1'', Some [(KEYRING_SLOT, b64encode ''K1'')])" by code_simp
  from key_survives_restart[OF this, of "''K2''" None] show ?thesis by blast
qed

text \<open>A stored key that does not decode, or decodes to nothing, is silently replaced by a fresh one,
  which changes the node's identity; one that decodes but is no private key makes every start
  fail until the key ring is cleared.\<close>

lemma corrupt_key_replaced:
  assumes "map_of kr KEYRING_SLOT = Some s" "b64decode s = None" "fresh \<noteq> []" "cr_private_ok cr fresh"
  shows "initialize_private_key_store cr fresh rs (Some kr) =
    Inr (cr_public_of cr fresh, Some fresh, Some (dict_set KEYRING_SLOT (b64encode fresh) kr))"
  using assms by (simp add: initialize_private_key_store_def load_private_key_def save_private_key_def
    set_private_key_def get_public_key_pem_def get_private_key_def)

lemma bad_pem_sticks:
  assumes "load_private_key kr = Inr k" "\<not> cr_private_ok cr k"
  shows "initialize_private_key_store cr fresh rs (Some kr) = Inl InvalidKeyError"
proof -
  have "k \<noteq> []" using assms(1) by (auto simp: load_private_key_def split: option.splits if_splits)
  with assms show ?thesis
    by (simp add: initialize_private_key_store_def set_private_key_def get_public_key_pem_def get_private_key_def)
qed

end
