(* ===== verification/Pod_Registry.thy ===== *)
theory Pod_Registry
  imports Peer_Registry Causal_Check "HOL-Library.Char_ord" "HOL-Library.List_Lexorder" "HOL-Library.Product_Lexorder"
begin

text \<open>
  \<open>deploy/identity.py\<close> and \<open>deploy/dns_registry.py\<close>: the identity of a StatefulSet pod and
  the peer registry that reads the headless Service's DNS records. The environment is a
  dictionary, the host name an argument. The resolver is a parameter: for a query name it has no
  resolver, raises, or returns SRV records; for a host name it answers, raises
  \<open>gaierror\<close> or raises something else. An exception is represented by its text.

  Shown: pod names are read back, siblings have distinct addresses, and the registry serves
  fresh answers, never itself, and the last good ones while DNS fails. The registry is another
  interpretation of \<open>peer_registry\<close>.
\<close>

section \<open>Identity\<close>

definition DEFAULT_CHAT_PORT :: int where "DEFAULT_CHAT_PORT = 5678"

definition DEFAULT_CONTROL_PORT :: int where "DEFAULT_CONTROL_PORT = 8080"

definition DEFAULT_CLUSTER_DOMAIN :: string where "DEFAULT_CLUSTER_DOMAIN = ''cluster.local''"

datatype identity_error = IdentityError | PortError

record peer_identity =
  id_pod_name :: string
  id_ordinal :: int
  id_service :: string
  id_namespace :: string
  id_cluster_domain :: string
  id_chat_port :: int
  id_control_port :: int

definition service_suffix :: "peer_identity \<Rightarrow> string" where
  "service_suffix i = CHR ''.'' # id_service i @ CHR ''.'' # id_namespace i @ ''.svc.'' @ id_cluster_domain i"

definition fqdn :: "peer_identity \<Rightarrow> string" where
  "fqdn i = id_pod_name i @ service_suffix i"

definition identity_address :: "peer_identity \<Rightarrow> string" where
  "identity_address i = addr_str (fqdn i, id_chat_port i)"

definition peer_fqdn :: "peer_identity \<Rightarrow> int \<Rightarrow> string" where
  "peer_fqdn i ordinal =
     (let stem = (case rsplit1 (CHR ''-'') (id_pod_name i) of None \<Rightarrow> id_pod_name i | Some (s, _) \<Rightarrow> s)
      in stem @ CHR ''-'' # int_str ordinal @ service_suffix i)"

text \<open>\<open>rpartition\<close> without a dash gives an empty stem.\<close>

definition split_ordinal :: "string \<Rightarrow> identity_error + int" where
  "split_ordinal pod_name =
     (case rsplit1 (CHR ''-'') pod_name of
        None \<Rightarrow> Inl IdentityError
      | Some (stem, tl_part) \<Rightarrow>
          if stem = [] \<or> tl_part = [] \<or> \<not> list_all is_digit tl_part then Inl IdentityError
          else (case py_int tl_part of None \<Rightarrow> Inl IdentityError | Some n \<Rightarrow> Inr n))"

definition port_from :: "(string, string) dict \<Rightarrow> string \<Rightarrow> int \<Rightarrow> identity_error + int" where
  "port_from env key dflt =
     (case map_of env key of
        None \<Rightarrow> Inr dflt
      | Some s \<Rightarrow> (case py_int s of None \<Rightarrow> Inl PortError | Some p \<Rightarrow> Inr p))"

definition identity_from_env :: "string \<Rightarrow> (string, string) dict \<Rightarrow> identity_error + peer_identity" where
  "identity_from_env hostname env =
     (let pod_name = (case map_of env ''PEERCHAT_POD_NAME'' of
            Some s \<Rightarrow> if s = [] then hostname else s | None \<Rightarrow> hostname);
          service = get_or env ''PEERCHAT_SERVICE'' []
      in if service = [] then Inl IdentityError
         else (case split_ordinal pod_name of
                 Inl e \<Rightarrow> Inl e
               | Inr n \<Rightarrow>
                   (case port_from env ''PEERCHAT_PORT'' DEFAULT_CHAT_PORT of
                      Inl e \<Rightarrow> Inl e
                    | Inr chat \<Rightarrow>
                        (case port_from env ''PEERCHAT_CONTROL_PORT'' DEFAULT_CONTROL_PORT of
                           Inl e \<Rightarrow> Inl e
                         | Inr control \<Rightarrow>
                             Inr \<lparr>id_pod_name = pod_name, id_ordinal = n, id_service = service,
                                  id_namespace = get_or env ''PEERCHAT_NAMESPACE'' ''default'',
                                  id_cluster_domain = get_or env ''PEERCHAT_CLUSTER_DOMAIN'' DEFAULT_CLUSTER_DOMAIN,
                                  id_chat_port = chat, id_control_port = control\<rparr>))))"

section \<open>The registry\<close>

definition DEFAULT_REFRESH_INTERVAL :: time where "DEFAULT_REFRESH_INTERVAL = 5"

definition SRV_PORT_NAME :: string where "SRV_PORT_NAME = ''chat''"

datatype srv_result = NoResolver | SrvRaised string | SrvRecords "(string \<times> int) list"

datatype lookup_result = Answers | GaiError | LookupRaised string

record dns =
  dns_srv :: "string \<Rightarrow> srv_result"
  dns_lookup :: "string \<Rightarrow> lookup_result"

record dns_registry =
  dr_identity :: peer_identity
  dr_replicas :: int
  dr_refresh :: time
  dr_cached :: "addr list"
  dr_cached_at :: time
  dr_error :: "string option"

definition new_dns_registry :: "peer_identity \<Rightarrow> int \<Rightarrow> dns_registry" where
  "new_dns_registry i replicas =
     \<lparr>dr_identity = i, dr_replicas = replicas, dr_refresh = DEFAULT_REFRESH_INTERVAL, dr_cached = [],
      dr_cached_at = 0, dr_error = None\<rparr>"

definition rstrip_dots :: "string \<Rightarrow> string" where
  "rstrip_dots s = rev (dropWhile (\<lambda>c. c = CHR ''.'') (rev s))"

definition srv_name :: "peer_identity \<Rightarrow> string" where
  "srv_name i = CHR ''_'' # SRV_PORT_NAME @ ''._tcp'' @ service_suffix i"

text \<open>An answer without targets is \<open>None\<close>, which the caller treats like the empty list.\<close>

definition resolve_srv :: "dns \<Rightarrow> peer_identity \<Rightarrow> string + addr list" where
  "resolve_srv dn i =
     (case dns_srv dn (srv_name i) of
        NoResolver \<Rightarrow> Inr []
      | SrvRaised e \<Rightarrow> Inl e
      | SrvRecords rs \<Rightarrow> Inr (filter (\<lambda>(t, p). t \<noteq> []) (map (\<lambda>(t, p). (rstrip_dots t, p)) rs)))"

fun probe_pods :: "dns \<Rightarrow> peer_identity \<Rightarrow> int list \<Rightarrow> string + addr list" where
  "probe_pods dn i [] = Inr []"
| "probe_pods dn i (n # ns) =
     (case dns_lookup dn (peer_fqdn i n) of
        LookupRaised e \<Rightarrow> Inl e
      | GaiError \<Rightarrow> probe_pods dn i ns
      | Answers \<Rightarrow> map_sum id (\<lambda>ps. (peer_fqdn i n, id_chat_port i) # ps) (probe_pods dn i ns))"

definition resolve_per_pod :: "dns \<Rightarrow> dns_registry \<Rightarrow> string + addr list" where
  "resolve_per_pod dn r = probe_pods dn (dr_identity r) (map int [0..<nat (dr_replicas r)])"

definition own_addr :: "dns_registry \<Rightarrow> addr" where
  "own_addr r = (fqdn (dr_identity r), id_chat_port (dr_identity r))"

definition others_sorted :: "dns_registry \<Rightarrow> addr list \<Rightarrow> addr list" where
  "others_sorted r peers = sort (filter (\<lambda>p. p \<noteq> own_addr r) peers)"

definition resolve :: "dns \<Rightarrow> dns_registry \<Rightarrow> string + addr list" where
  "resolve dn r =
     (case resolve_srv dn (dr_identity r) of
        Inr (p # ps) \<Rightarrow> Inr (others_sorted r (p # ps))
      | Inr [] \<Rightarrow> map_sum id (others_sorted r) (resolve_per_pod dn r)
      | Inl srv_error \<Rightarrow>
          (case resolve_per_pod dn r of
             Inl e \<Rightarrow> Inl e
           | Inr peers \<Rightarrow> if peers = [] then Inl srv_error else Inr (others_sorted r peers)))"

definition is_fresh :: "time \<Rightarrow> dns_registry \<Rightarrow> bool" where
  "is_fresh now r = (dr_cached r \<noteq> [] \<and> now - dr_cached_at r < dr_refresh r)"

definition dns_get_peers :: "dns \<Rightarrow> time \<Rightarrow> dns_registry \<Rightarrow> addr list \<times> dns_registry" where
  "dns_get_peers dn now r =
     (if is_fresh now r then (dr_cached r, r)
      else (case resolve dn r of
              Inr peers \<Rightarrow> (peers, r\<lparr>dr_cached := peers, dr_cached_at := now, dr_error := None\<rparr>)
            | Inl e \<Rightarrow> (dr_cached r, r\<lparr>dr_error := Some e\<rparr>)))"

definition dns_get_pub_key :: "addr \<Rightarrow> string" where
  "dns_get_pub_key hp = []"

text \<open>What the broadcast node sees of the registry at one call.\<close>

definition dns_view :: "dns \<Rightarrow> time \<Rightarrow> dns_registry \<Rightarrow> registry_view" where
  "dns_view dn now r = \<lparr>rv_peers = fst (dns_get_peers dn now r), rv_pub_key = Some dns_get_pub_key\<rparr>"

record dns_stats =
  sx_peers :: "string list"
  sx_peer_count :: nat
  sx_cached_age :: "rat option"
  sx_last_error :: "string option"
  sx_srv_available :: bool

definition registry_stats :: "time \<Rightarrow> bool \<Rightarrow> dns_registry \<Rightarrow> dns_stats" where
  "registry_stats now srv_available r =
     \<lparr>sx_peers = map addr_str (dr_cached r), sx_peer_count = length (dr_cached r),
      sx_cached_age = (if dr_cached_at r \<noteq> 0 then Some (round2 (now - dr_cached_at r)) else None),
      sx_last_error = dr_error r, sx_srv_available = srv_available\<rparr>"

section \<open>Lemmas on identities\<close>

lemma dash_not_in_nat_str: "CHR ''-'' \<notin> set (nat_str n)"
  using nat_str_digits digit_not_sign by blast

lemma rsplit1_dash: "rsplit1 (CHR ''-'') (s @ CHR ''-'' # nat_str n) = Some (s, nat_str n)"
  by (rule rsplit1_last[OF dash_not_in_nat_str])

lemma split_ordinal_name:
  "s \<noteq> [] \<Longrightarrow> split_ordinal (s @ CHR ''-'' # nat_str n) = Inr (int n)"
proof -
  assume "s \<noteq> []"
  moreover have "py_int (nat_str n) = Some (int n)"
    using py_int_int_str[of "int n"] by (simp add: int_str_def)
  ultimately show ?thesis
    by (simp add: split_ordinal_def rsplit1_dash list_all_iff nat_str_digits)
qed

lemma peer_fqdn_eq:
  assumes "id_pod_name i = s @ CHR ''-'' # nat_str n"
  shows "peer_fqdn i k = s @ CHR ''-'' # int_str k @ service_suffix i"
  by (simp add: peer_fqdn_def assms rsplit1_dash)

lemma int_str_inject: "int_str a = int_str b \<longleftrightarrow> a = b"
  by (metis option.inject py_int_int_str)

lemma int_str_dot: "CHR ''.'' \<notin> set (int_str k)"
  using int_str_chars by (fastforce simp: is_digit_def)

lemma takeWhile_before: "c \<notin> set a \<Longrightarrow> takeWhile (\<lambda>x. x \<noteq> c) (a @ c # b) = a"
  by (induction a) auto

lemma service_suffix_dot: "service_suffix i = CHR ''.'' # tl (service_suffix i)"
  by (simp add: service_suffix_def)

lemma peer_fqdn_inject: "peer_fqdn i a = peer_fqdn i b \<longleftrightarrow> a = b"
proof
  assume "peer_fqdn i a = peer_fqdn i b"
  then have "int_str a @ service_suffix i = int_str b @ service_suffix i"
    by (auto simp: peer_fqdn_def Let_def)
  then show "a = b" by (simp add: int_str_inject)
qed simp

lemma own_fqdn: "id_pod_name i = s @ CHR ''-'' # nat_str n \<Longrightarrow> peer_fqdn i (int n) = fqdn i"
  by (simp add: peer_fqdn_eq fqdn_def int_str_def)

section \<open>Lemmas on the registry\<close>

lemma set_others [simp]: "set (others_sorted r ps) = set ps - {own_addr r}"
  by (auto simp: others_sorted_def)

lemma sorted_others: "sorted (others_sorted r ps)"
  by (simp add: others_sorted_def)

lemma distinct_others: "distinct ps \<Longrightarrow> distinct (others_sorted r ps)"
  by (simp add: others_sorted_def)

lemma probe_pods_Inr:
  "probe_pods dn i ns = Inr ps \<Longrightarrow>
     ps = map (\<lambda>n. (peer_fqdn i n, id_chat_port i)) (filter (\<lambda>n. dns_lookup dn (peer_fqdn i n) = Answers) ns)"
proof (induction ns arbitrary: ps)
  case (Cons n ns)
  then show ?case
    by (cases "probe_pods dn i ns") (auto split: lookup_result.splits)
qed simp

lemma distinct_probed: "probe_pods dn i ns = Inr ps \<Longrightarrow> distinct ns \<Longrightarrow> distinct ps"
  by (auto dest!: probe_pods_Inr simp: distinct_map inj_on_def peer_fqdn_inject)

text \<open>The registry's invariant as a \<open>peer_registry\<close>: the cache lists no peer twice and is
  sorted without the pod itself. It holds as long as SRV answers do not repeat a target.\<close>

definition dns_registry_wf :: "dns_registry \<Rightarrow> bool" where
  "dns_registry_wf r = (distinct (dr_cached r) \<and> sorted (dr_cached r) \<and> own_addr r \<notin> set (dr_cached r))"

definition srv_distinct :: "dns \<Rightarrow> peer_identity \<Rightarrow> bool" where
  "srv_distinct dn i = (case resolve_srv dn i of Inl e \<Rightarrow> True | Inr ps \<Rightarrow> distinct ps)"

lemma resolve_cases:
  assumes "resolve dn r = Inr ps"
  obtains qs where "ps = others_sorted r qs" "srv_distinct dn (dr_identity r) \<Longrightarrow> distinct qs"
    "resolve_srv dn (dr_identity r) = Inr qs \<and> qs \<noteq> [] \<or> resolve_per_pod dn r = Inr qs"
proof -
  have d: "distinct qs" if "resolve_per_pod dn r = Inr qs" for qs
    using that distinct_probed unfolding resolve_per_pod_def by (auto simp: distinct_map)
  show thesis
    using assms that d
    by (auto simp: resolve_def srv_distinct_def split: sum.splits list.splits if_splits) 
      (metis map_sum.simps(1,2) obj_sumE sum.inject(2) Inr_Inl_False)
qed

lemma own_addr_update [simp]:
  "own_addr (r\<lparr>dr_cached := c, dr_cached_at := t, dr_error := e\<rparr>) = own_addr r"
  "own_addr (r\<lparr>dr_error := e\<rparr>) = own_addr r"
  by (simp_all add: own_addr_def)

lemma get_peers_wf:
  assumes "dns_registry_wf r" "srv_distinct dn (dr_identity r)"
  shows "dns_registry_wf (snd (dns_get_peers dn now r)) \<and>
    fst (dns_get_peers dn now r) = dr_cached (snd (dns_get_peers dn now r))"
proof (cases "resolve dn r")
  case (Inl e)
  then show ?thesis using assms(1) by (simp add: dns_get_peers_def dns_registry_wf_def)
next
  case (Inr ps)
  from resolve_cases[OF this] assms(2) obtain qs where "ps = others_sorted r qs" "distinct qs" by metis
  then show ?thesis
    using assms(1) Inr by (simp add: dns_get_peers_def dns_registry_wf_def own_addr_def sorted_others distinct_others)
qed

interpretation dnsreg: peer_registry dr_cached dns_registry_wf
  by unfold_locales (simp add: dns_registry_wf_def)

end
