(* ===== verification/Peer_Runtime.thy ===== *)
theory Peer_Runtime
  imports Pod_Registry Recovery Node_Transport
begin

text \<open>
  \<open>deploy/peer_node.py\<close>: the process of a StatefulSet pod. It owns a broadcast node, the
  DNS registry, optionally the message history, and the delivery log that the harness
  collects. The runtime is a record; its threads are steps: a delivered message, one round of
  the probe loop, one sample of the hold-back queue, one request to the control server.
  Clock readings, fresh identifiers, DNS answers and the outcome of a hello are arguments; what a
  step sends is part of its result. \<open>on_message\<close> is given the message with the value
  \<open>json.loads\<close> reads from its content.
\<close>

section \<open>Short keys\<close>

definition short_key :: "string \<Rightarrow> string" where
  "short_key address = takeWhile (\<lambda>c. c \<noteq> CHR ''.'') address"

definition short_vc :: "clock \<Rightarrow> clock" where
  "short_vc vc = foldl (\<lambda>d (k, v). dict_set (short_key k) v d) [] vc"

section \<open>The runtime\<close>

definition JOIN_PROBE_INTERVAL :: time where "JOIN_PROBE_INTERVAL = 2"

definition RECOVERY_SETTLE :: time where "RECOVERY_SETTLE = 3"

definition RECOVERY_MAX :: time where "RECOVERY_MAX = 30"

definition SEEN_SEED_LIMIT :: int where "SEEN_SEED_LIMIT = 50000"

record sent_record =
  sr_id :: string
  sr_ts_send :: time
  sr_n :: nat

record runtime =
  rt_identity :: peer_identity
  rt_min_peers :: int
  rt_registry :: dns_registry
  rt_node :: node
  rt_deliveries :: "delivery list"
  rt_sent :: "sent_record list"
  rt_baseline :: clock
  rt_delivered :: clock
  rt_joined_at :: "time option"
  rt_joined :: bool
  rt_history :: "history_service option"
  rt_restored :: clock
  rt_requested_at :: "time option"
  rt_last_chunk_at :: "time option"
  rt_chunks :: nat
  rt_took :: "time option"
  rt_before_ready :: nat
  rt_seeded :: nat
  rt_started_at :: time
  rt_stopped :: bool
  rt_reachable :: "string list"
  rt_hb_peak :: nat
  rt_hb_first :: "time option"
  rt_hb_last :: "time option"
  rt_hb_samples :: nat

definition new_runtime :: "peer_identity \<Rightarrow> int \<Rightarrow> int \<Rightarrow> time \<Rightarrow> runtime" where
  "new_runtime i replicas min_peers now =
     \<lparr>rt_identity = i, rt_min_peers = min_peers, rt_registry = new_dns_registry i replicas,
      rt_node = (new_node (fqdn i) (id_chat_port i) False)\<lparr>n_callback := True\<rparr>,
      rt_deliveries = [], rt_sent = [], rt_baseline = [], rt_delivered = [], rt_joined_at = None, rt_joined = False,
      rt_history = None, rt_restored = [], rt_requested_at = None, rt_last_chunk_at = None, rt_chunks = 0,
      rt_took = None, rt_before_ready = 0, rt_seeded = 0, rt_started_at = now, rt_stopped = False,
      rt_reachable = [], rt_hb_peak = 0, rt_hb_first = None, rt_hb_last = None, rt_hb_samples = 0\<rparr>"

section \<open>Observing deliveries\<close>

text \<open>The loop that keeps the component-wise maximum of what was delivered.\<close>

definition fold_clock :: "clock \<Rightarrow> clock \<Rightarrow> clock" where
  "fold_clock d vc = foldl (\<lambda>d (node, cnt). if cnt > vc_get d node then dict_set node cnt d else d) d vc"

definition record_delivery :: "time \<Rightarrow> message \<Rightarrow> runtime \<Rightarrow> runtime" where
  "record_delivery now msg rt =
     (let vc = short_vc (msg_vector_clock msg) in
      rt\<lparr>rt_delivered := fold_clock (rt_delivered rt) vc,
         rt_deliveries := rt_deliveries rt @
           [\<lparr>dv_seq = int (length (rt_deliveries rt)), dv_id = msg_id msg, dv_sender = short_key (msg_sender msg),
             dv_vc = vc, dv_ts_recv = Some now, dv_ts_send = Some (msg_timestamp msg)\<rparr>]\<rparr>)"

text \<open>A recovery chunk: counted, and the store's clock folded in.\<close>

definition record_chunk :: "store_env \<Rightarrow> time \<Rightarrow> history_service \<Rightarrow> runtime \<Rightarrow> runtime" where
  "record_chunk env now hs rt =
     (case hs_wiring hs of
        None \<Rightarrow> rt\<lparr>rt_history := Some hs, rt_chunks := rt_chunks rt + 1, rt_last_chunk_at := Some now\<rparr>
      | Some s \<Rightarrow>
          let (vc, s') = get_latest_vector_clock env s in
          rt\<lparr>rt_history := Some (hs\<lparr>hs_wiring := Some s'\<rparr>), rt_chunks := rt_chunks rt + 1,
             rt_last_chunk_at := Some now, rt_delivered := fold_clock (rt_delivered rt) (short_vc vc)\<rparr>)"

text \<open>An exception of the history handler is logged and the message recorded. The third part of the
  result is the clock handed to \<open>node.sync_vector_clock\<close>.\<close>

definition on_message ::
  "store_env \<Rightarrow> string \<Rightarrow> time \<Rightarrow> message \<Rightarrow> json option \<Rightarrow> runtime \<Rightarrow> runtime \<times> sends \<times> clock option" where
  "on_message env uuid now msg content rt =
     (case rt_history rt of
        None \<Rightarrow> (record_delivery now msg rt, [], None)
      | Some hs \<Rightarrow>
          (case service_handle_message env uuid msg content hs of
             Inl e \<Rightarrow> (record_delivery now msg rt, [], None)
           | Inr (NotHandled reason, out, vc, hs') \<Rightarrow>
               (record_delivery now msg (rt\<lparr>rt_history := Some hs'\<rparr>), out, vc)
           | Inr (ChunkHandled t c l r, out, vc, hs') \<Rightarrow> (record_chunk env now hs' rt, out, vc)
           | Inr (RecoverHandled stats, out, vc, hs') \<Rightarrow> (rt\<lparr>rt_history := Some hs'\<rparr>, out, vc)))"

section \<open>Sending\<close>

text \<open>\<open>ids\<close> and \<open>ts\<close> are the identifiers and creation times of the new messages; the default
  hop count is 10. The result is the tasks handed to the node's loop.\<close>

definition outgoing_message :: "string \<Rightarrow> (nat \<Rightarrow> string) \<Rightarrow> (nat \<Rightarrow> time) \<Rightarrow> runtime \<Rightarrow> nat \<Rightarrow> message" where
  "outgoing_message pre ids ts rt i =
     \<lparr>msg_content = pre @ CHR '':'' # id_pod_name (rt_identity rt) @ CHR '':'' # nat_str i,
      msg_sender = n_address (rt_node rt), msg_id = ids i, msg_timestamp = ts i, msg_signature = [],
      msg_ttl = 10, msg_vector_clock = []\<rparr>"

definition send_messages ::
  "int \<Rightarrow> string \<Rightarrow> (nat \<Rightarrow> string) \<Rightarrow> (nat \<Rightarrow> time) \<Rightarrow> runtime \<Rightarrow> runtime \<times> task list" where
  "send_messages num pre ids ts rt =
     foldl (\<lambda>(r, out) i.
         let msg = outgoing_message pre ids ts r i in
         (r\<lparr>rt_sent := rt_sent r @ [\<lparr>sr_id = msg_id msg, sr_ts_send = msg_timestamp msg, sr_n = i\<rparr>]\<rparr>,
          out @ broadcast (rt_node r) msg))
       (rt, []) [0..<nat num]"

section \<open>Joining\<close>

definition seed_ids :: "string list \<Rightarrow> node \<Rightarrow> nat \<times> node" where
  "seed_ids ids n =
     foldl (\<lambda>(k, n) i. let (new, n') = deduplicate i n in (if new then k + 1 else k, n')) (0, n) ids"

definition seed_seen_set :: "store_env \<Rightarrow> runtime \<Rightarrow> runtime" where
  "seed_seen_set env rt =
     (case rt_history rt of
        None \<Rightarrow> rt
      | Some hs \<Rightarrow>
          (case get_recent_messages env SEEN_SEED_LIMIT hs of
             Inl e \<Rightarrow> rt
           | Inr ms \<Rightarrow>
               let (seeded, n) = seed_ids (map fst ms) (rt_node rt)
               in rt\<lparr>rt_node := n, rt_seeded := rt_seeded rt + seeded\<rparr>))"

text \<open>\<open>disk\<close> is the content of the history directory, if one is configured.\<close>

definition restore_history :: "store_env \<Rightarrow> store_disk \<Rightarrow> runtime \<Rightarrow> runtime" where
  "restore_history env disk rt =
     (let i = rt_identity rt;
          (n, hs) = service_start env disk (rt_node rt)
            \<lparr>hs_addr = (fqdn i, id_chat_port i), hs_clean = False, hs_wiring = None\<rparr>;
          restored = short_vc (snapshot (n_vc n))
      in seed_seen_set env (rt\<lparr>rt_node := n, rt_history := Some hs, rt_restored := restored, rt_delivered := restored\<rparr>))"

definition runtime_start :: "store_env \<Rightarrow> bool \<Rightarrow> store_disk option \<Rightarrow> runtime \<Rightarrow> node_error + runtime" where
  "runtime_start env websockets disk rt =
     (let rt1 = (case disk of None \<Rightarrow> rt | Some d \<Rightarrow> restore_history env d rt)
      in case start websockets (rt_node rt1) of
           Inl e \<Rightarrow> Inl e
         | Inr n \<Rightarrow> Inr (rt1\<lparr>rt_node := n\<rparr>))"

definition runtime_stop :: "runtime \<Rightarrow> runtime" where
  "runtime_stop rt = rt\<lparr>rt_stopped := True, rt_node := stop (rt_node rt)\<rparr>"

definition hold_depth :: "runtime \<Rightarrow> nat" where
  "hold_depth rt = length (hb_queue (n_hold (rt_node rt)))"

text \<open>One round of \<open>_holdback_sampler\<close>.\<close>

definition sample_holdback :: "time \<Rightarrow> runtime \<Rightarrow> runtime" where
  "sample_holdback now rt =
     (if rt_stopped rt then rt
      else
        let rt1 = rt\<lparr>rt_hb_samples := rt_hb_samples rt + 1\<rparr> in
        if hold_depth rt = 0 then rt1
        else rt1\<lparr>rt_hb_first := (case rt_hb_first rt of None \<Rightarrow> Some now | Some t \<Rightarrow> Some t),
                 rt_hb_last := Some now, rt_hb_peak := max (rt_hb_peak rt) (hold_depth rt)\<rparr>)"

text \<open>\<open>registry_peers\<close> are the peers the history streamer reads from the registry. A failing
  request is logged.\<close>

definition request_recovery :: "store_env \<Rightarrow> addr list \<Rightarrow> string \<Rightarrow> history_service \<Rightarrow> runtime \<Rightarrow> runtime \<times> sends" where
  "request_recovery env registry_peers uuid hs rt =
     (case service_request_missing_history env None registry_peers None uuid hs of
        Inl e \<Rightarrow> (rt, [])
      | Inr (_, out, hs') \<Rightarrow> (rt\<lparr>rt_history := Some hs'\<rparr>, out))"

definition round3 :: "rat \<Rightarrow> rat" where
  "round3 x =
     (let y = x * 1000; f = \<lfloor>y\<rfloor>; d = y - of_int f;
          r = (if d < 1 / 2 then f else if d > 1 / 2 then f + 1 else if even f then f else f + 1)
      in of_int r / 1000)"

text \<open>\<open>self._recovery_last_chunk_at or self._recovery_requested_at\<close>.\<close>

definition last_chunk_or :: "time \<Rightarrow> runtime \<Rightarrow> time" where
  "last_chunk_or requested rt =
     (case rt_last_chunk_at rt of Some t \<Rightarrow> if t \<noteq> 0 then t else requested | None \<Rightarrow> requested)"

definition recovery_settled ::
  "store_env \<Rightarrow> addr list \<Rightarrow> string \<Rightarrow> time \<Rightarrow> runtime \<Rightarrow> bool \<times> runtime \<times> sends" where
  "recovery_settled env registry_peers uuid now rt =
     (case rt_history rt of
        None \<Rightarrow> (True, rt, [])
      | Some hs \<Rightarrow>
          (case rt_requested_at rt of
             None \<Rightarrow>
               let (rt1, out) = request_recovery env registry_peers uuid hs rt
               in (False, rt1\<lparr>rt_requested_at := Some now\<rparr>, out)
           | Some requested \<Rightarrow>
               let last_at = last_chunk_or requested rt in
               if now - last_at < RECOVERY_SETTLE \<and> now - requested < RECOVERY_MAX then (False, rt, [])
               else if hold_depth rt \<noteq> 0 \<and> now - requested < RECOVERY_MAX then (False, rt, [])
               else (True, rt\<lparr>rt_took := Some (round3 (now - requested))\<rparr>, [])))"

definition begin_causal_log :: "store_env \<Rightarrow> runtime \<Rightarrow> runtime" where
  "begin_causal_log env rt =
     (let rt1 = seed_seen_set env rt in
      rt1\<lparr>rt_before_ready := length (rt_deliveries rt1), rt_deliveries := [], rt_baseline := rt_delivered rt1\<rparr>)"

text \<open>\<open>_probe_peers\<close> and \<open>_hello\<close>: \<open>hello\<close> says which peer answers \<open>hello_ack\<close>.\<close>

definition probe_peers :: "bool \<Rightarrow> (addr \<Rightarrow> bool) \<Rightarrow> addr list \<Rightarrow> string list" where
  "probe_peers websockets hello peers = (if \<not> websockets then [] else map addr_str (filter hello peers))"

record probe_env =
  pe_store :: store_env
  pe_websockets :: bool
  pe_dns :: dns
  pe_hello :: "addr \<Rightarrow> bool"
  pe_mono :: time
  pe_now :: time
  pe_joined_now :: time
  pe_uuid :: string

text \<open>One round of \<open>_probe_loop\<close>. The history request reads the registry a second time.\<close>

definition probe_round :: "probe_env \<Rightarrow> runtime \<Rightarrow> runtime \<times> sends" where
  "probe_round pe rt =
     (if rt_stopped rt then (rt, [])
      else
        let (peers, reg) = dns_get_peers (pe_dns pe) (pe_mono pe) (rt_registry rt);
            reachable = probe_peers (pe_websockets pe) (pe_hello pe) peers;
            rt1 = rt\<lparr>rt_registry := reg, rt_reachable := reachable\<rparr>
        in if int (length reachable) \<ge> rt_min_peers rt \<and> \<not> rt_joined rt then
             let (registry_peers, reg') = dns_get_peers (pe_dns pe) (pe_mono pe) reg;
                 rt1' = (if rt_history rt = None \<or> rt_requested_at rt \<noteq> None then rt1 else rt1\<lparr>rt_registry := reg'\<rparr>);
                 (settled, rt2, out) = recovery_settled (pe_store pe) registry_peers (pe_uuid pe) (pe_now pe) rt1'
             in if \<not> settled then (rt2, out)
                else ((begin_causal_log (pe_store pe) rt2)\<lparr>rt_joined_at := Some (pe_joined_now pe), rt_joined := True\<rparr>, out)
           else (rt1, []))"

section \<open>The control server\<close>

definition deliveries :: "runtime \<Rightarrow> delivery list" where
  "deliveries rt = rt_deliveries rt"

definition sent_log :: "runtime \<Rightarrow> sent_record list" where
  "sent_log rt = rt_sent rt"

definition baseline_vc :: "runtime \<Rightarrow> clock" where
  "baseline_vc rt = rt_baseline rt"

definition reset :: "runtime \<Rightarrow> runtime \<times> clock" where
  "reset rt = (let rt' = rt\<lparr>rt_deliveries := [], rt_sent := [], rt_baseline := rt_delivered rt\<rparr> in (rt', rt_baseline rt'))"

definition opt_json :: "('a \<Rightarrow> json) \<Rightarrow> 'a option \<Rightarrow> json" where
  "opt_json f x = (case x of None \<Rightarrow> JNull | Some a \<Rightarrow> f a)"

text \<open>A time counts as set when it is neither \<open>None\<close> nor zero.\<close>

definition set_time :: "time option \<Rightarrow> time option" where
  "set_time t = (if t = Some 0 then None else t)"

definition recovery_stats :: "time \<Rightarrow> runtime \<Rightarrow> json" where
  "recovery_stats now rt =
     (let first = set_time (rt_hb_first rt); lst = set_time (rt_hb_last rt); s = rt_started_at rt in
      JObj [(''pod'', JStr (id_pod_name (rt_identity rt))),
        (''uptime_s'', JFloat (round3 (now - s))),
        (''rejoin_s'', opt_json (\<lambda>t. JFloat (round3 (t - s))) (set_time (rt_joined_at rt))),
        (''holdback_peak'', JInt (int (rt_hb_peak rt))),
        (''history_enabled'', JBool (rt_history rt \<noteq> None)),
        (''restored_vc_entries'', JInt (int (length (rt_restored rt)))),
        (''recovery_chunks'', JInt (int (rt_chunks rt))),
        (''recovery_took_s'', opt_json JFloat (rt_took rt)),
        (''deliveries_before_ready'', JInt (int (rt_before_ready rt))),
        (''holdback_depth_now'', JInt (int (hold_depth rt))),
        (''holdback_first_nonzero_s'', opt_json (\<lambda>t. JFloat (round3 (t - s))) first),
        (''holdback_last_nonzero_s'', opt_json (\<lambda>t. JFloat (round3 (t - s))) lst),
        (''holdback_drain_span_s'',
          (case (first, lst) of (Some a, Some b) \<Rightarrow> JFloat (round3 (b - a)) | _ \<Rightarrow> JNull)),
        (''delivered'', JInt (int (length (rt_deliveries rt)))),
        (''seen_seeded'', JInt (int (rt_seeded rt)))])"

definition stats_json :: "dns_stats \<Rightarrow> json" where
  "stats_json sx = JObj [(''peers'', JList (map JStr (sx_peers sx))), (''peer_count'', JInt (int (sx_peer_count sx))),
     (''cached_age_s'', opt_json JFloat (sx_cached_age sx)), (''last_error'', opt_json JStr (sx_last_error sx)),
     (''srv_available'', JBool (sx_srv_available sx))]"

definition status :: "time \<Rightarrow> time \<Rightarrow> bool \<Rightarrow> runtime \<Rightarrow> json" where
  "status now tm srv_available rt =
     (let i = rt_identity rt; s = rt_started_at rt in
      JObj [(''pod'', JStr (id_pod_name i)), (''ordinal'', JInt (id_ordinal i)),
        (''address'', JStr (n_address (rt_node rt))), (''vc_key'', JStr (short_key (n_address (rt_node rt)))),
        (''joined'', JBool (rt_joined rt)),
        (''joined_after_s'', opt_json (\<lambda>t. JFloat (round3 (t - s))) (set_time (rt_joined_at rt))),
        (''uptime_s'', JFloat (round3 (now - s))),
        (''reachable_peers'', JList (map JStr (rt_reachable rt))), (''min_peers'', JInt (rt_min_peers rt)),
        (''delivered'', JInt (int (length (rt_deliveries rt)))), (''sent'', JInt (int (length (rt_sent rt)))),
        (''holdback_depth'', JInt (int (hold_depth rt))),
        (''local_vc'', JObj (clock_json (short_vc (snapshot (n_vc (rt_node rt)))))),
        (''baseline_vc'', JObj (clock_json (baseline_vc rt))),
        (''history_enabled'', JBool (rt_history rt \<noteq> None)),
        (''restored_vc_entries'', JInt (int (length (rt_restored rt)))),
        (''recovery_chunks'', JInt (int (rt_chunks rt))), (''recovery_took_s'', opt_json JFloat (rt_took rt)),
        (''deliveries_before_ready'', JInt (int (rt_before_ready rt))), (''seen_seeded'', JInt (int (rt_seeded rt))),
        (''discovery'', stats_json (registry_stats tm srv_available (rt_registry rt)))])"

definition delivery_json :: "delivery \<Rightarrow> json" where
  "delivery_json d = JObj [(''seq'', JInt (dv_seq d)), (''id'', JStr (dv_id d)), (''sender'', JStr (dv_sender d)),
     (''vc'', JObj (clock_json (dv_vc d))), (''ts_recv'', opt_json JFloat (dv_ts_recv d)),
     (''ts_send'', opt_json JFloat (dv_ts_send d))]"

definition sent_json :: "sent_record \<Rightarrow> json" where
  "sent_json s = JObj [(''id'', JStr (sr_id s)), (''ts_send'', JFloat (sr_ts_send s)), (''n'', JInt (int (sr_n s)))]"

text \<open>The reply of a GET request: status code and body. The path is the one \<open>urlparse\<close>
  returns.\<close>

definition do_get :: "time \<Rightarrow> time \<Rightarrow> bool \<Rightarrow> string \<Rightarrow> runtime \<Rightarrow> int \<times> json" where
  "do_get now tm srv_available path rt =
     (if path = ''/healthz'' then (200, JObj [(''ok'', JBool True)])
      else if path = ''/readyz'' then
        (if rt_joined rt then (200, JObj [(''joined'', JBool True)])
         else (503, JObj [(''joined'', JBool False), (''reachable'', JInt (int (length (rt_reachable rt))))]))
      else if path = ''/status'' then (200, status now tm srv_available rt)
      else if path = ''/clock'' then (200, JObj [(''vc'', JObj (clock_json (snapshot (n_vc (rt_node rt)))))])
      else if path = ''/recovery'' then (200, recovery_stats now rt)
      else if path = ''/deliveries'' then
        (200, JObj [(''pod'', JStr (id_pod_name (rt_identity rt))), (''baseline_vc'', JObj (clock_json (baseline_vc rt))),
           (''deliveries'', JList (map delivery_json (deliveries rt)))])
      else if path = ''/sent'' then
        (200, JObj [(''pod'', JStr (id_pod_name (rt_identity rt))), (''sent'', JList (map sent_json (sent_log rt)))])
      else (404, JObj [(''error'', JStr ''not found'')]))"

text \<open>\<open>rate and rate > 0\<close> for the rates the driver sends: a number or nothing. Any other truthy value
  raises \<open>TypeError\<close> before anything is sent.\<close>

fun rate_ok :: "json \<Rightarrow> bool" where
  "rate_ok (JStr s) = (s = [])"
| "rate_ok (JList xs) = (xs = [])"
| "rate_ok (JObj kvs) = (kvs = [])"
| "rate_ok _ = True"

text \<open>A POST request. \<open>body\<close> is what \<open>json.loads\<close> reads (\<open>None\<close> when it raises
  \<open>JSONDecodeError\<close>), \<open>str_of\<close> is \<open>str()\<close> on values that are not text, \<open>t0\<close> and
  \<open>t1\<close> the times around the sending. The result is \<open>None\<close> when the handler raises, which closes
  the connection without a reply.\<close>

definition do_post ::
  "(json \<Rightarrow> string) \<Rightarrow> (nat \<Rightarrow> string) \<Rightarrow> (nat \<Rightarrow> time) \<Rightarrow> time \<Rightarrow> time \<Rightarrow> string \<Rightarrow> json option \<Rightarrow> runtime \<Rightarrow>
   runtime \<times> task list \<times> (int \<times> json) option" where
  "do_post str_of ids ts t0 t1 path body rt =
     (case body of
        None \<Rightarrow> (rt, [], Some (400, JObj [(''error'', JStr ''invalid json'')]))
      | Some b \<Rightarrow>
          if path = ''/send'' then
            (case b of
               JObj kvs \<Rightarrow>
                 (case py_int_of (get_or kvs ''count'' (JInt 1)) of
                    None \<Rightarrow> (rt, [], None)
                  | Some num \<Rightarrow>
                      if \<not> rate_ok (get_or kvs ''rate'' JNull) then (rt, [], None)
                      else
                        let pre = (case get_or kvs ''prefix'' (JStr ''m'') of JStr s \<Rightarrow> s | v \<Rightarrow> str_of v);
                            (rt', out) = send_messages num pre ids ts rt
                        in (rt', out, Some (200, JObj [(''sent'', JInt num), (''started'', JFloat t0),
                             (''finished'', JFloat t1), (''peer'', JStr (id_pod_name (rt_identity rt)))])))
             | _ \<Rightarrow> (rt, [], None))
          else if path = ''/reset'' then
            let (rt', baseline) = reset rt
            in (rt', [], Some (200, JObj [(''reset'', JBool True), (''baseline_vc'', JObj (clock_json baseline))]))
          else (rt, [], Some (404, JObj [(''error'', JStr ''not found'')])))"

text \<open>The numbers \<open>main\<close> reads from the environment; \<open>None\<close> is \<open>ValueError\<close>.\<close>

definition main_config :: "(string, string) dict \<Rightarrow> (int \<times> int) option" where
  "main_config env =
     (case py_int (get_or env ''PEERCHAT_REPLICAS'' ''3'') of
        None \<Rightarrow> None
      | Some replicas \<Rightarrow>
          map_option (\<lambda>min_peers. (replicas, min_peers))
            (py_int (get_or env ''PEERCHAT_MIN_PEERS'' (int_str (max 1 (replicas - 1))))))"

end
