(* ===== verification/Runtime_Properties.thy ===== *)
theory Runtime_Properties
  imports Peer_Runtime
begin

text \<open>
  Properties of the deployed pod: stable identities, the registry's staleness, the delivery
  log a pod hands to the harness, readiness, and what a restarted pod drops.
\<close>

section \<open>Short keys keep clocks apart\<close>

text \<open>A clock over full addresses and the clock over short keys that stands for it.\<close>

definition shorts :: "string set \<Rightarrow> clock \<Rightarrow> clock \<Rightarrow> bool" where
  "shorts K c d \<longleftrightarrow> wf_clock d \<and> (\<forall>k \<in> K. vc_get d (short_key k) = vc_get c k) \<and>
     (\<forall>x. x \<notin> short_key ` K \<longrightarrow> vc_get d x = 0)"


lemma shorts_Nil: "shorts K [] []"
  by (simp add: shorts_def)







section \<open>The delivery log\<close>

definition pod_record :: "nat \<Rightarrow> time \<Rightarrow> message \<Rightarrow> delivery" where
  "pod_record i now m = \<lparr>dv_seq = int i, dv_id = msg_id m, dv_sender = short_key (msg_sender m),
     dv_vc = short_vc (msg_vector_clock m), dv_ts_recv = Some now, dv_ts_send = Some (msg_timestamp m)\<rparr>"

fun pod_records :: "nat \<Rightarrow> (time \<times> message) list \<Rightarrow> delivery list" where
  "pod_records i [] = []"
| "pod_records i ((now, m) # tms) = pod_record i now m # pod_records (i + 1) tms"


lemma length_pod_records [simp]: "length (pod_records i tms) = length tms"
  by (induction i tms rule: pod_records.induct) simp_all





section \<open>Observing a run\<close>







lemma seed_seen_frame [simp]:
  "rt_deliveries (seed_seen_set env rt) = rt_deliveries rt" "rt_delivered (seed_seen_set env rt) = rt_delivered rt"
  "rt_baseline (seed_seen_set env rt) = rt_baseline rt" "rt_history (seed_seen_set env rt) = rt_history rt"
  "rt_joined (seed_seen_set env rt) = rt_joined rt"
  by (simp_all add: seed_seen_set_def case_prod_beta Let_def split: option.split sum.split)








section \<open>Pod addresses\<close>


definition pod_stem :: "peer_identity \<Rightarrow> string" where
  "pod_stem i = (case rsplit1 (CHR ''-'') (id_pod_name i) of None \<Rightarrow> id_pod_name i | Some (s, _) \<Rightarrow> s)"

lemma short_key_pod:
  assumes "CHR ''.'' \<notin> set (pod_stem i)"
  shows "short_key (addr_str (peer_fqdn i k, p)) = pod_stem i @ CHR ''-'' # int_str k"
proof -
  let ?a = "pod_stem i @ CHR ''-'' # int_str k"
  have "addr_str (peer_fqdn i k, p) = ?a @ CHR ''.'' # (tl (service_suffix i) @ CHR '':'' # int_str p)"
    by (subst service_suffix_dot[of i, symmetric] | simp add: addr_str_def peer_fqdn_def pod_stem_def Let_def
        service_suffix_def)+
  moreover have "CHR ''.'' \<notin> set ?a" using assms int_str_dot by auto
  ultimately show ?thesis unfolding short_key_def by (metis takeWhile_before)
qed


section \<open>The guarantees\<close>


definition demo_id :: peer_identity where
  "demo_id = \<lparr>id_pod_name = ''pc-0'', id_ordinal = 0, id_service = ''hl'', id_namespace = ''ns'',
     id_cluster_domain = ''local'', id_chat_port = 7, id_control_port = 8\<rparr>"

definition demo_pod :: "int \<Rightarrow> string" where
  "demo_pod k = addr_str (peer_fqdn demo_id k, 7)"

definition demo_chat :: "string \<Rightarrow> int \<Rightarrow> message" where
  "demo_chat mid k = \<lparr>msg_content = ''hi'', msg_sender = demo_pod 1, msg_id = mid, msg_timestamp = 0, msg_signature = [],
     msg_ttl = 3, msg_vector_clock = [(demo_pod 1, k)]\<rparr>"

definition demo_store_env :: store_env where
  "demo_store_env = \<lparr>sv_len = (\<lambda>_. 40), sv_sha = (\<lambda>ls. nat_str (length ls)), sv_now = 0\<rparr>"


text \<open>Identity is a function of the pod name. When the environment names a pod
  \<open>stem-n\<close>, the identity has ordinal \<open>n\<close> whatever the host name; the pod's own DNS name is
  the one its siblings compute for that ordinal, siblings have different names, and the short
  key of a sibling's address is its pod name.\<close>

theorem identity_from_pod_name:
  assumes "identity_from_env h env = Inr i"
    and "map_of env ''PEERCHAT_POD_NAME'' = Some (stem @ CHR ''-'' # nat_str n)" "stem \<noteq> []"
  shows "id_ordinal i = int n \<and> identity_from_env h' env = Inr i \<and> peer_fqdn i (int n) = fqdn i \<and>
    (peer_fqdn i a = peer_fqdn i b \<longleftrightarrow> a = b) \<and>
    (CHR ''.'' \<notin> set stem \<longrightarrow> short_key (addr_str (peer_fqdn i a, id_chat_port i)) = stem @ CHR ''-'' # int_str a)"
proof -
  have e: "identity_from_env h' env = identity_from_env h'' env" for h' h''
    using assms(2) by (simp add: identity_from_env_def)
  have i: "id_pod_name i = stem @ CHR ''-'' # nat_str n" "id_ordinal i = int n"
    using assms by (auto simp: identity_from_env_def Let_def split_ordinal_name split: if_splits sum.splits)
  have "pod_stem i = stem" by (simp add: pod_stem_def i rsplit1_dash)
  moreover have "identity_from_env h' env = Inr i" using e[of h' h] assms(1) by simp
  ultimately show ?thesis
    using i(2) own_fqdn[OF i(1)] short_key_pod[of i a "id_chat_port i"] by (simp add: peer_fqdn_inject)
qed

theorem identity_from_pod_name_witness:
  "identity_from_env ''laptop'' [(''PEERCHAT_POD_NAME'', ''pc-3''), (''PEERCHAT_SERVICE'', ''hl''), (''PEERCHAT_PORT'', ''7''),
       (''PEERCHAT_CONTROL_PORT'', ''8'')] =
     Inr \<lparr>id_pod_name = ''pc-3'', id_ordinal = 3, id_service = ''hl'', id_namespace = ''default'',
       id_cluster_domain = ''cluster.local'', id_chat_port = 7, id_control_port = 8\<rparr>"
proof -
  let ?env = "[(''PEERCHAT_POD_NAME'', ''pc-3''), (''PEERCHAT_SERVICE'', ''hl''), (''PEERCHAT_PORT'', ''7''),
       (''PEERCHAT_CONTROL_PORT'', ''8'')]"
  let ?i = "\<lparr>id_pod_name = ''pc-3'', id_ordinal = 3, id_service = ''hl'', id_namespace = ''default'',
       id_cluster_domain = ''cluster.local'', id_chat_port = 7, id_control_port = 8\<rparr>"
  have "identity_from_env ''x'' ?env = Inr ?i" by code_simp
  moreover have "map_of ?env ''PEERCHAT_POD_NAME'' = Some (''pc'' @ CHR ''-'' # nat_str 3)" by code_simp
  ultimately show ?thesis using identity_from_pod_name[of "''x''" ?env ?i "''pc''" 3 "''laptop''"] by simp
qed

section \<open>The registry over time\<close>

lemma get_peers_effect:
  "fst (dns_get_peers dn now r) = dr_cached (snd (dns_get_peers dn now r)) \<and>
   dr_identity (snd (dns_get_peers dn now r)) = dr_identity r \<and> dr_replicas (snd (dns_get_peers dn now r)) = dr_replicas r \<and>
   dr_refresh (snd (dns_get_peers dn now r)) = dr_refresh r"
  by (simp add: dns_get_peers_def split: sum.split)

definition registry_run :: "dns_registry \<Rightarrow> (dns \<times> time) list \<Rightarrow> dns_registry" where
  "registry_run r calls = foldl (\<lambda>r (dn, now). snd (dns_get_peers dn now r)) r calls"

lemma registry_run_frame:
  "dr_identity (registry_run r calls) = dr_identity r \<and> dr_replicas (registry_run r calls) = dr_replicas r \<and>
   dr_refresh (registry_run r calls) = dr_refresh r"
  unfolding registry_run_def by (induction calls arbitrary: r) (simp_all add: get_peers_effect case_prod_beta)

lemma resolve_frame: "dr_identity r = dr_identity r' \<Longrightarrow> dr_replicas r = dr_replicas r' \<Longrightarrow> resolve dn r = resolve dn r'"
proof -
  assume "dr_identity r = dr_identity r'" "dr_replicas r = dr_replicas r'"
  then have "others_sorted r = others_sorted r'" "resolve_per_pod dn r = resolve_per_pod dn r'" "dr_identity r = dr_identity r'"
    by (auto simp: others_sorted_def own_addr_def resolve_per_pod_def)
  then show ?thesis unfolding resolve_def by (simp only:)
qed

text \<open>The peers in the cache were resolved by one call at time \<open>t\<close>, and every later call came less
  than the refresh interval after it or could not resolve.\<close>

definition last_good :: "dns_registry \<Rightarrow> (dns \<times> time) list \<Rightarrow> addr list \<Rightarrow> time \<Rightarrow> bool" where
  "last_good r calls ps t \<longleftrightarrow> (\<exists>xs dn ys. calls = xs @ (dn, t) # ys \<and> resolve dn r = Inr ps \<and>
     (\<forall>(dn', t') \<in> set ys. t' - t < dr_refresh r \<or> (\<exists>e. resolve dn' r = Inl e)))"

lemma last_good_snoc:
  assumes "last_good r calls ps t" "now - t < dr_refresh r \<or> (\<exists>e. resolve dn r = Inl e)"
  shows "last_good r (calls @ [(dn, now)]) ps t"
proof -
  from assms(1) obtain xs d ys where "calls = xs @ (d, t) # ys" "resolve d r = Inr ps"
    "\<forall>(dn', t') \<in> set ys. t' - t < dr_refresh r \<or> (\<exists>e. resolve dn' r = Inl e)" unfolding last_good_def by blast
  with assms(2) show ?thesis
    unfolding last_good_def by (intro exI[of _ xs] exI[of _ d] exI[of _ "ys @ [(dn, now)]"]) auto
qed

text \<open>The registry is stale only while DNS fails. After any calls, whatever DNS answered at
  each, the peer list that the last call returned is empty or was resolved by one of the calls, after
  which every call either came within the refresh interval or could not resolve. A list that is
  served never contains the pod itself.\<close>

theorem registry_stale_only_while_failing:
  "fst (dns_get_peers dn now (registry_run (new_dns_registry i replicas) calls)) =
     dr_cached (registry_run (new_dns_registry i replicas) (calls @ [(dn, now)])) \<and>
   (let r = new_dns_registry i replicas; ps = dr_cached (registry_run r calls) in
      ps = [] \<or> (\<exists>t. last_good r calls ps t) \<and> own_addr r \<notin> set ps)"
proof -
  let ?r = "new_dns_registry i replicas"
  have "let ps = dr_cached (registry_run ?r calls) in
      ps = [] \<or> last_good ?r calls ps (dr_cached_at (registry_run ?r calls)) \<and> own_addr ?r \<notin> set ps"
  proof (induction calls rule: rev_induct)
    case (snoc c calls)
    obtain dn now where c: "c = (dn, now)" by force
    let ?s = "registry_run ?r calls"
    have run: "registry_run ?r (calls @ [(dn, now)]) = snd (dns_get_peers dn now ?s)" by (simp add: registry_run_def)
    have res: "resolve dn ?s = resolve dn ?r" using registry_run_frame[of ?r calls] by (intro resolve_frame) simp_all
    have rf: "dr_refresh ?s = dr_refresh ?r" using registry_run_frame[of ?r calls] by simp
    show ?case
    proof (cases "is_fresh now ?s \<or> (\<exists>e. resolve dn ?r = Inl e)")
      case True
      then have "dr_cached (snd (dns_get_peers dn now ?s)) = dr_cached ?s"
        "dr_cached_at (snd (dns_get_peers dn now ?s)) = dr_cached_at ?s" by (auto simp: dns_get_peers_def res)
      moreover have "now - dr_cached_at ?s < dr_refresh ?r \<or> (\<exists>e. resolve dn ?r = Inl e)"
        using True by (auto simp: is_fresh_def rf)
      ultimately show ?thesis using snoc last_good_snoc[of ?r calls _ _ now dn] unfolding c run Let_def by auto
    next
      case False
      then obtain ps where ps: "resolve dn ?r = Inr ps" by (cases "resolve dn ?r") auto
      with False have "dr_cached (snd (dns_get_peers dn now ?s)) = ps" "dr_cached_at (snd (dns_get_peers dn now ?s)) = now"
        by (simp_all add: dns_get_peers_def res)
      moreover have "last_good ?r (calls @ [(dn, now)]) ps now"
        unfolding last_good_def by (intro exI[of _ calls] exI[of _ dn] exI[of _ "[]"]) (simp add: ps)
      moreover have "own_addr ?r \<notin> set ps" by (rule resolve_cases[OF ps]) simp
      ultimately show ?thesis unfolding c run Let_def by simp
    qed
  qed (simp add: registry_run_def new_dns_registry_def)
  moreover have "fst (dns_get_peers dn now (registry_run ?r calls)) = dr_cached (registry_run ?r (calls @ [(dn, now)]))"
    using get_peers_effect[of dn now "registry_run ?r calls"] by (simp add: registry_run_def)
  ultimately show ?thesis unfolding Let_def by blast
qed

section \<open>Readiness\<close>

definition enough_peers :: "probe_env \<Rightarrow> runtime \<Rightarrow> bool" where
  "enough_peers pe rt \<longleftrightarrow> int (length (probe_peers (pe_websockets pe) (pe_hello pe)
     (fst (dns_get_peers (pe_dns pe) (pe_mono pe) (rt_registry rt))))) \<ge> rt_min_peers rt"

datatype rt_step =
    Probe probe_env
  | Deliver string time message "json option"
  | Sample time
  | Post "nat \<Rightarrow> string" "nat \<Rightarrow> time" string "json option"

fun rt_run_step :: "store_env \<Rightarrow> runtime \<Rightarrow> rt_step \<Rightarrow> runtime" where
  "rt_run_step env rt (Probe pe) = fst (probe_round pe rt)"
| "rt_run_step env rt (Deliver uuid now m content) = fst (on_message env uuid now m content rt)"
| "rt_run_step env rt (Sample now) = sample_holdback now rt"
| "rt_run_step env rt (Post ids ts path body) = fst (do_post (\<lambda>_. []) ids ts 0 0 path body rt)"

text \<open>What no step takes back.\<close>

definition keeps :: "runtime \<Rightarrow> runtime \<Rightarrow> bool" where
  "keeps rt rt' \<longleftrightarrow> rt_stopped rt' = rt_stopped rt \<and> rt_min_peers rt' = rt_min_peers rt \<and>
     (rt_history rt' = None \<longleftrightarrow> rt_history rt = None) \<and> (rt_joined rt \<longrightarrow> rt_joined rt') \<and>
     (rt_requested_at rt \<noteq> None \<longrightarrow> rt_requested_at rt' = rt_requested_at rt)"

lemma keeps_refl [simp]: "keeps rt rt"
  by (simp add: keeps_def)

lemma keeps_trans: "keeps a b \<Longrightarrow> keeps b c \<Longrightarrow> keeps a c"
  by (auto simp: keeps_def)

lemma keeps_seed: "keeps rt (seed_seen_set env rt)"
  by (simp add: keeps_def seed_seen_set_def case_prod_beta Let_def split: option.split sum.split)

lemma keeps_settled:
  assumes "recovery_settled env ps uuid now rt = (b, rt', out)"
  shows "keeps rt rt'" "rt_joined rt' = rt_joined rt"
    "b \<or> (\<exists>r. rt_requested_at rt' = Some r \<and> (rt_requested_at rt = None \<longrightarrow> r = now))"
    "b \<longleftrightarrow> rt_history rt = None \<or> (\<exists>r. rt_requested_at rt = Some r \<and> (now - r \<ge> RECOVERY_MAX \<or>
       now - last_chunk_or r rt \<ge> RECOVERY_SETTLE \<and> hold_depth rt = 0))"
  using assms
  by (auto simp: recovery_settled_def request_recovery_def keeps_def Let_def not_less split: option.splits sum.splits prod.splits if_splits)

lemma keeps_begin: "keeps rt (begin_causal_log env rt)"
  using keeps_seed[of rt env] by (simp add: begin_causal_log_def Let_def keeps_def)

lemma probe_cases:
  obtains (idle) "rt_stopped rt \<or> \<not> enough_peers pe rt \<or> rt_joined rt" "keeps rt (fst (probe_round pe rt))"
      "rt_joined (fst (probe_round pe rt)) = rt_joined rt"
  | (tried) rt1 ps b rt2 out where "\<not> rt_stopped rt" "enough_peers pe rt" "\<not> rt_joined rt"
      "keeps rt rt1" "rt_requested_at rt1 = rt_requested_at rt" "rt_last_chunk_at rt1 = rt_last_chunk_at rt"
      "rt_node rt1 = rt_node rt" "rt_joined rt1 = rt_joined rt"
      "recovery_settled (pe_store pe) ps (pe_uuid pe) (pe_now pe) rt1 = (b, rt2, out)"
      "fst (probe_round pe rt) = (if b then (begin_causal_log (pe_store pe) rt2)
         \<lparr>rt_joined_at := Some (pe_joined_now pe), rt_joined := True\<rparr> else rt2)"
proof (cases "rt_stopped rt \<or> \<not> enough_peers pe rt \<or> rt_joined rt")
  case True
  then show thesis
    by (intro idle) (auto simp: probe_round_def enough_peers_def keeps_def case_prod_beta Let_def)
next
  case False
  let ?g = "dns_get_peers (pe_dns pe) (pe_mono pe)"
  let ?rt1 = "rt\<lparr>rt_registry := snd (?g (rt_registry rt)),
      rt_reachable := probe_peers (pe_websockets pe) (pe_hello pe) (fst (?g (rt_registry rt)))\<rparr>"
  let ?rt1' = "if rt_history rt = None \<or> rt_requested_at rt \<noteq> None then ?rt1
      else ?rt1\<lparr>rt_registry := snd (?g (snd (?g (rt_registry rt))))\<rparr>"
  obtain b rt2 out where r: "recovery_settled (pe_store pe) (fst (?g (snd (?g (rt_registry rt))))) (pe_uuid pe) (pe_now pe) ?rt1' = (b, rt2, out)"
    by (metis prod_cases3)
  show thesis
    by (rule tried[OF _ _ _ _ _ _ _ _ r])
      (use False r in \<open>auto simp: probe_round_def enough_peers_def keeps_def case_prod_beta Let_def\<close>)
qed

lemma keeps_probe: "keeps rt (fst (probe_round pe rt))"
proof (cases rule: probe_cases[of rt pe])
  case (tried rt1 ps b rt2 out)
  have k: "keeps rt rt2" using keeps_trans[OF tried(4) keeps_settled(1)[OF tried(9)]] .
  show ?thesis
    using tried(10) k keeps_trans[OF k keeps_begin[of rt2 "pe_store pe"]] by (auto simp: keeps_def)
qed

lemma keeps_record_chunk: "rt_history rt \<noteq> None \<Longrightarrow> keeps rt (record_chunk env now hs rt)"
  by (auto simp: keeps_def record_chunk_def case_prod_beta Let_def split: option.split)

lemma keeps_message: "keeps rt (fst (on_message env uuid now m content rt))"
proof (cases "rt_history rt")
  case (Some hs)
  then show ?thesis
    using keeps_record_chunk[of rt env now]
    by (auto simp: on_message_def record_delivery_def keeps_def Let_def split: sum.splits handled.splits)
qed (simp add: on_message_def record_delivery_def keeps_def Let_def)

lemma keeps_send: "keeps rt (fst (send_messages num pre ids ts rt))"
proof -
  have "keeps rt (fst (foldl (\<lambda>(r, out) i.
         let msg = outgoing_message pre ids ts r i in
         (r\<lparr>rt_sent := rt_sent r @ [\<lparr>sr_id = msg_id msg, sr_ts_send = msg_timestamp msg, sr_n = i\<rparr>]\<rparr>,
          out @ broadcast (rt_node r) msg)) s xs))" if "keeps rt (fst s)" for s xs
    using that by (induction xs arbitrary: s) (auto simp: case_prod_beta Let_def keeps_def)
  then show ?thesis unfolding send_messages_def by simp
qed

lemma keeps_post: "keeps rt (fst (do_post str_of ids ts t0 t1 path body rt))"
  using keeps_send[of rt]
  by (auto simp: do_post_def reset_def keeps_def Let_def case_prod_beta split: option.splits json.splits)

lemma keeps_step: "keeps rt (rt_run_step env rt st)"
  by (cases st) (auto simp: keeps_probe keeps_message keeps_post, auto simp: sample_holdback_def Let_def keeps_def)

lemma keeps_run: "keeps rt (foldl (rt_run_step env) rt sts)"
  by (induction sts arbitrary: rt) (auto intro: keeps_trans keeps_step)

text \<open>C30. The readiness gate opens only when the pod may be scored. A probe round that makes a pod
  ready found enough peers answering the handshake, and the pod either has no history, or had
  asked for recovery before and since then thirty seconds have passed, or three seconds without a
  chunk and with an empty hold-back queue. At that moment the delivery log is empty and its
  baseline is what the pod accounts for.\<close>

theorem ready_only_when_quiet:
  assumes "rt_joined (fst (probe_round pe rt))" "\<not> rt_joined rt"
  shows "enough_peers pe rt \<and> deliveries (fst (probe_round pe rt)) = [] \<and>
    baseline_vc (fst (probe_round pe rt)) = rt_delivered (fst (probe_round pe rt)) \<and>
    (rt_history rt = None \<or> (\<exists>r. rt_requested_at rt = Some r \<and> (pe_now pe - r \<ge> 30 \<or>
       pe_now pe - last_chunk_or r rt \<ge> 3 \<and> hold_depth rt = 0)))"
proof (cases rule: probe_cases[of rt pe])
  case (tried rt1 ps b rt2 out)
  note s = keeps_settled[OF tried(9)]
  from tried(10) s(2) tried(8) assms have b by (auto split: if_splits)
  with s(4) tried(4-7) have "rt_history rt = None \<or> (\<exists>r. rt_requested_at rt = Some r \<and> (pe_now pe - r \<ge> 30 \<or>
       pe_now pe - last_chunk_or r rt \<ge> 3 \<and> hold_depth rt = 0))"
    by (simp add: keeps_def RECOVERY_MAX_def RECOVERY_SETTLE_def last_chunk_or_def hold_depth_def)
  with \<open>b\<close> tried(2,10) show ?thesis
    by (simp add: begin_causal_log_def deliveries_def baseline_vc_def Let_def)
qed (use assms in simp)

definition demo_dns :: dns where
  "demo_dns = \<lparr>dns_srv = (\<lambda>_. SrvRecords [(''pc-1.'', 7), (''pc-0.hl.ns.svc.local'', 7)]), dns_lookup = (\<lambda>_. GaiError)\<rparr>"

definition demo_probe :: "time \<Rightarrow> probe_env" where
  "demo_probe t = \<lparr>pe_store = demo_store_env, pe_websockets = True, pe_dns = demo_dns, pe_hello = (\<lambda>_. True),
     pe_mono = t, pe_now = t, pe_joined_now = t, pe_uuid = ''u''\<rparr>"

definition demo_restarted :: runtime where
  "demo_restarted = restore_history demo_store_env empty_disk (new_runtime demo_id 2 1 0)"

theorem ready_only_when_quiet_witness:
  "enough_peers (demo_probe 9) (fst (probe_round (demo_probe 5) demo_restarted)) \<and>
   \<not> rt_joined (fst (probe_round (demo_probe 5) demo_restarted)) \<and>
   rt_joined (fst (probe_round (demo_probe 9) (fst (probe_round (demo_probe 5) demo_restarted))))"
proof -
  let ?rt = "fst (probe_round (demo_probe 5) demo_restarted)"
  have j: "rt_joined (fst (probe_round (demo_probe 9) ?rt))" "\<not> rt_joined ?rt" by code_simp+
  from ready_only_when_quiet[OF j] j show ?thesis by blast
qed

text \<open>A pod becomes ready. Take two probe rounds at which enough peers answer, the second at
  least thirty seconds after the first, with anything in between: deliveries, recovery chunks,
  other probes, requests to the control server. After the second the pod is ready, even if recovery
  never goes quiet or the hold-back queue never empties.\<close>

theorem ready_within_bound:
  assumes "\<not> rt_stopped rt" "rt_requested_at rt = None"
    and "enough_peers p0 rt" "pe_now p1 - pe_now p0 \<ge> 30"
    and "enough_peers p1 (foldl (rt_run_step env) (fst (probe_round p0 rt)) sts)"
  shows "rt_joined (foldl (rt_run_step env) rt (Probe p0 # sts @ [Probe p1]))"
proof -
  let ?a = "fst (probe_round p0 rt)" let ?b = "foldl (rt_run_step env) ?a sts"
  have ka: "keeps rt ?a" "keeps ?a ?b" by (rule keeps_probe, rule keeps_run)
  have a: "rt_joined ?a \<or> rt_requested_at ?a = Some (pe_now p0)"
  proof (cases rule: probe_cases[of rt p0])
    case (tried rt1 ps b rt2 out)
    then show ?thesis using keeps_settled(3)[OF tried(9)] assms(2) by (auto split: if_splits)
  qed (use assms in auto)
  show ?thesis
  proof (cases "rt_joined ?b")
    case True
    then show ?thesis using keeps_probe[of ?b p1] by (simp add: keeps_def)
  next
    case False
    with a ka(2) have r: "rt_requested_at ?b = Some (pe_now p0)" by (auto simp: keeps_def)
    show ?thesis
    proof (cases rule: probe_cases[of ?b p1])
      case idle
      then show ?thesis using assms(1,5) False ka by (auto simp: keeps_def)
    next
      case (tried rt1 ps b rt2 out)
      have b using keeps_settled(4)[OF tried(9)] tried(5) r assms(4) by (auto simp: RECOVERY_MAX_def)
      with tried(10) show ?thesis by simp
    qed
  qed
qed

theorem ready_within_bound_witness:
  "rt_joined (foldl (rt_run_step demo_store_env) demo_restarted
     (Probe (demo_probe 5) # [Deliver ''u'' 20 (demo_chat ''m2'' 2) None, Sample 21] @ [Probe (demo_probe 35)]))"
proof (rule ready_within_bound)
  show "enough_peers (demo_probe 5) demo_restarted"
    "enough_peers (demo_probe 35) (foldl (rt_run_step demo_store_env) (fst (probe_round (demo_probe 5) demo_restarted))
      [Deliver ''u'' 20 (demo_chat ''m2'' 2) None, Sample 21])"
    "\<not> rt_stopped demo_restarted" "rt_requested_at demo_restarted = None" by code_simp+
qed (simp add: demo_probe_def)

section \<open>Restart\<close>






end
