(* ===== verification/Chat_Service.thy ===== *)
theory Chat_Service
  imports Discovery Recovery
begin

text \<open>
  \<open>ui/services/service.py\<close>: the service behind the user interface. It routes a delivered message
  to discovery, then to the history, then to the screen, and feeds the peer registry and the
  user list from membership events. Its state is the record \<open>chat_service\<close>; the broadcast node is present
  as the address it advertises. The callbacks of the user interface are a parameter: whether one
  is registered under a key, and whether it raises when called with or without an
  application context.

  The service subscribes to the coordinator under \<open>UI_HANDLE\<close>; the notices a call into discovery
  appends for it are handled in order after the call.
\<close>

section \<open>State\<close>

record user_row =
  us_name :: string
  us_status :: string
  us_ip :: string

record shown =
  sh_role :: "string option"
  sh_sender :: string
  sh_timestamp :: time
  sh_content :: string

record refreshes =
  rf_has :: "string \<Rightarrow> bool"
  rf_raises :: "bool \<Rightarrow> string \<Rightarrow> bool"

record chat_service =
  cs_shown :: "shown list"
  cs_users :: "user_row list"
  cs_registry :: in_memory
  cs_hist :: "history_service option"
  cs_disc :: "discovery option"
  cs_chat_port :: int
  cs_public_key :: "string option"
  cs_node_address :: "string option"
  cs_app :: bool

definition new_chat_service :: chat_service where
  "new_chat_service = \<lparr>cs_shown = [], cs_users = [], cs_registry = [], cs_hist = None, cs_disc = None,
     cs_chat_port = 5678, cs_public_key = None, cs_node_address = None, cs_app = False\<rparr>"

datatype chat_error = RefreshFailed | DiscoveryFailed disc_error | HistoryFailed service_error

section \<open>Refreshing\<close>

text \<open>\<open>_refresh\<close> swallows exceptions; the result lists the callbacks invoked. The direct call that follows
  it in the code does not, and pushes no application context: \<open>ctx\<close> says whether the calling thread
  has one.\<close>

definition refresh :: "refreshes \<Rightarrow> string \<Rightarrow> string list" where
  "refresh rf key = (if rf_has rf key then [key] else [])"

definition refresh_direct :: "refreshes \<Rightarrow> bool \<Rightarrow> string \<Rightarrow> string list \<times> chat_error option" where
  "refresh_direct rf ctx key =
     (if \<not> rf_has rf key then ([], None)
      else ([key], if rf_raises rf ctx key then Some RefreshFailed else None))"

definition refresh_twice :: "refreshes \<Rightarrow> bool \<Rightarrow> string \<Rightarrow> string list \<times> chat_error option" where
  "refresh_twice rf ctx key = (let (calls, err) = refresh_direct rf ctx key in (refresh rf key @ calls, err))"

section \<open>Users\<close>

definition user_connected :: "refreshes \<Rightarrow> bool \<Rightarrow> string \<Rightarrow> string \<Rightarrow> chat_service \<Rightarrow> chat_service \<times> chat_error option" where
  "user_connected rf ctx username ip cs =
     ((if list_ex (\<lambda>u. us_name u = username) (cs_users cs) then cs
       else cs\<lparr>cs_users := cs_users cs @ [\<lparr>us_name = username, us_status = ''Online'', us_ip = ip\<rparr>]\<rparr>),
      snd (refresh_twice rf ctx ''users''))"

definition user_disconnected :: "refreshes \<Rightarrow> bool \<Rightarrow> string \<Rightarrow> chat_service \<Rightarrow> chat_service \<times> chat_error option" where
  "user_disconnected rf ctx username cs =
     (cs\<lparr>cs_users := filter (\<lambda>u. us_name u \<noteq> username) (cs_users cs)\<rparr>, snd (refresh_twice rf ctx ''users''))"

section \<open>Membership events\<close>

text \<open>\<open>self.history_service.request_missing_history()\<close>; the registry is the one the service keeps.\<close>

definition request_history ::
  "store_env \<Rightarrow> string \<Rightarrow> chat_service \<Rightarrow> chat_service \<times> sends \<times> chat_error option" where
  "request_history env uuid cs =
     (case cs_hist cs of
        None \<Rightarrow> (cs, [], None)
      | Some hs \<Rightarrow>
          (case service_request_missing_history env None (get_peers (cs_registry cs)) None uuid hs of
             Inl e \<Rightarrow> (cs, [], Some (HistoryFailed e))
           | Inr (_, out, hs') \<Rightarrow> (cs\<lparr>cs_hist := Some hs'\<rparr>, out, None)))"

text \<open>Every exception is logged: what was done before it stays done.\<close>

definition handle_membership_event ::
  "refreshes \<Rightarrow> store_env \<Rightarrow> string \<Rightarrow> membership_event \<Rightarrow> chat_service \<Rightarrow> chat_service \<times> sends" where
  "handle_membership_event rf env uuid e cs =
     (if ev_type e = JOIN_ACCEPTED then
        (case rsplit1 (CHR '':'') (ev_user_id e) of
           None \<Rightarrow> (cs, [])
         | Some (host, _) \<Rightarrow>
             let cs1 = cs\<lparr>cs_registry := add_peer host (cs_chat_port cs)
                            (case ev_public_key e of None \<Rightarrow> [] | Some k \<Rightarrow> k) (cs_registry cs)\<rparr>
             in case request_history env uuid cs1 of
                  (cs2, out, Some err) \<Rightarrow> (cs2, out)
                | (cs2, out, None) \<Rightarrow>
                    (fst (user_connected rf False (ev_display_name e) host cs2), out))
      else if ev_type e = LEAVE_CONFIRMED then
        (case rsplit1 (CHR '':'') (ev_user_id e) of
           None \<Rightarrow> (cs, [])
         | Some (host, _) \<Rightarrow>
             let cs1 = cs\<lparr>cs_registry := remove_peer host (cs_chat_port cs) (cs_registry cs)\<rparr>
             in (fst (user_disconnected rf False (ev_display_name e) cs1), []))
      else (cs, []))"

definition UI_HANDLE :: string where "UI_HANDLE = ''ui''"

definition ui_notices :: "coord \<Rightarrow> coord \<Rightarrow> membership_event list" where
  "ui_notices c c' =
     map (\<lambda>(_, e, _). e) (filter (\<lambda>(h, _, _). h = UI_HANDLE) (drop (length (c_out c)) (c_out c')))"

fun handle_events ::
  "refreshes \<Rightarrow> store_env \<Rightarrow> string \<Rightarrow> membership_event list \<Rightarrow> chat_service \<Rightarrow> chat_service \<times> sends" where
  "handle_events rf env uuid [] cs = (cs, [])"
| "handle_events rf env uuid (e # es) cs =
     (let (cs1, out) = handle_membership_event rf env uuid e cs; (cs2, out') = handle_events rf env uuid es cs1
      in (cs2, out @ out'))"

section \<open>Delivered messages\<close>

text \<open>\<open>content\<close> is what \<open>json.loads\<close> reads from the message. The result is the new state, what discovery
  and the history send, the clock handed to the node, and the exception that escapes into the
  broadcast node, if any. \<open>ctx\<close> says whether the caller runs in an application context.\<close>

definition show_message :: "refreshes \<Rightarrow> bool \<Rightarrow> message \<Rightarrow> chat_service \<Rightarrow> chat_service \<times> chat_error option" where
  "show_message rf ctx msg cs =
     (cs\<lparr>cs_shown := cs_shown cs @ [\<lparr>sh_role = None, sh_sender = msg_sender msg, sh_timestamp = msg_timestamp msg,
                                    sh_content = msg_content msg\<rparr>]\<rparr>,
      snd (refresh_twice rf ctx ''messages''))"

definition to_history ::
  "refreshes \<Rightarrow> store_env \<Rightarrow> string \<Rightarrow> bool \<Rightarrow> message \<Rightarrow> json option \<Rightarrow> chat_service \<Rightarrow>
   chat_service \<times> sends \<times> clock option \<times> chat_error option" where
  "to_history rf env uuid ctx msg content cs =
     (case cs_hist cs of
        None \<Rightarrow> let (cs', err) = show_message rf ctx msg cs in (cs', [], None, err)
      | Some hs \<Rightarrow>
          (case service_handle_message env uuid msg content hs of
             Inl e \<Rightarrow> (cs, [], None, Some (HistoryFailed e))
           | Inr (NotHandled reason, out, vc, hs') \<Rightarrow>
               let (cs', err) = show_message rf ctx msg (cs\<lparr>cs_hist := Some hs'\<rparr>) in (cs', out, vc, err)
           | Inr (_, out, vc, hs') \<Rightarrow> (cs\<lparr>cs_hist := Some hs'\<rparr>, out, vc, None)))"

definition message_received ::
  "refreshes \<Rightarrow> store_env \<Rightarrow> string \<Rightarrow> time \<Rightarrow> bool \<Rightarrow> message \<Rightarrow> json option \<Rightarrow> chat_service \<Rightarrow>
   chat_service \<times> outgoing list \<times> sends \<times> clock option \<times> chat_error option" where
  "message_received rf env uuid now ctx msg content cs =
     (case cs_disc cs of
        None \<Rightarrow> let (cs', out, vc, err) = to_history rf env uuid ctx msg content cs in (cs', [], out, vc, err)
      | Some d \<Rightarrow>
          let (d', dout, res) = handle_message uuid now msg content d;
              (cs1, out1) = handle_events rf env uuid (ui_notices (dn_service d) (dn_service d')) (cs\<lparr>cs_disc := Some d'\<rparr>)
          in case res of
               Inl e \<Rightarrow> (cs1, dout, out1, None, Some (DiscoveryFailed e))
             | Inr DHandled \<Rightarrow> (cs1, dout, out1, None, None)
             | Inr (DNotHandled reason) \<Rightarrow>
                 let (cs', out, vc, err) = to_history rf env uuid ctx msg content cs1 in (cs', dout, out1 @ out, vc, err))"

section \<open>Connecting\<close>

definition seed_address :: "int \<Rightarrow> string \<Rightarrow> string" where
  "seed_address chat_port ip = (if CHR '':'' \<in> set ip then ip else addr_str (ip, chat_port))"

text \<open>\<open>lan_ip\<close> is what \<open>get_lan_ip()\<close> returns. The storage directory is fresh, so there is no
  checkpoint to recover.\<close>

definition connect_config :: "string \<Rightarrow> string \<Rightarrow> chat_service \<Rightarrow> discovery_config" where
  "connect_config lan_ip ip cs =
     (let advertise = (case cs_node_address cs of Some a \<Rightarrow> a | None \<Rightarrow> addr_str (lan_ip, cs_chat_port cs)) in
      (default_config advertise)
        \<lparr>cf_bootstrap_peers := (if ip = [] then [] else [seed_address (cs_chat_port cs) ip]),
         cf_bootstrap_timeout := 5, cf_public_key_override := cs_public_key cs\<rparr>)"

definition shown_history :: "(message \<Rightarrow> message) \<Rightarrow> string \<times> string \<times> time \<times> string \<Rightarrow> shown" where
  "shown_history prep rec =
     (case rec of (mid, sender, ts, content) \<Rightarrow>
        let wire = prep \<lparr>msg_content = content, msg_sender = sender, msg_id = [], msg_timestamp = 0, msg_signature = [],
                        msg_ttl = 10, msg_vector_clock = []\<rparr>
        in \<lparr>sh_role = Some ''assistant'', sh_sender = sender, sh_timestamp = ts, sh_content = msg_content wire\<rparr>)"

text \<open>The initial rows: the user's own name, if it is new.\<close>

definition add_self :: "string \<Rightarrow> string \<Rightarrow> chat_service \<Rightarrow> chat_service" where
  "add_self username ip cs =
     (if username \<noteq> [] \<and> \<not> list_ex (\<lambda>u. us_name u = username) (cs_users cs)
      then cs\<lparr>cs_users := cs_users cs @
             [\<lparr>us_name = username, us_status = ''Online'', us_ip = (if ip \<noteq> [] then ip else ''0.0.0.0'')\<rparr>]\<rparr>
      else cs)"

text \<open>\<open>in_context\<close>: \<open>has_app_context()\<close>. An error of \<open>start\<close> is logged. The history request after a
  successful bootstrap and the replay may raise.\<close>

definition final_refresh :: "refreshes \<Rightarrow> bool \<Rightarrow> chat_error option" where
  "final_refresh rf ctx =
     (case snd (refresh_direct rf ctx ''users'') of
        Some e \<Rightarrow> Some e
      | None \<Rightarrow> snd (refresh_direct rf ctx ''messages''))"

definition connect ::
  "refreshes \<Rightarrow> store_env \<Rightarrow> (message \<Rightarrow> message) \<Rightarrow> (string \<Rightarrow> discovery \<Rightarrow> discovery) \<Rightarrow> bool \<Rightarrow> string \<Rightarrow> string \<Rightarrow>
   time \<Rightarrow> string \<Rightarrow> string \<Rightarrow> chat_service \<Rightarrow> chat_service \<times> outgoing list \<times> sends \<times> chat_error option" where
  "connect rf env prep meanwhile in_context lan_ip uuid now username ip cs0 =
     (let cs1 = add_self username ip cs0;
          d0 = new_discovery ''default'' (connect_config lan_ip ip cs1) [] (cs_node_address cs1 \<noteq> None) now;
          d1 = d0\<lparr>dn_service := subscribe UI_HANDLE 0 (dn_service d0)\<rparr>;
          (d2, dout, _) = discovery_start meanwhile False uuid now username d1;
          (cs2, out) = handle_events rf env uuid (ui_notices (dn_service d0) (dn_service d2))
             (cs1\<lparr>cs_disc := Some d2, cs_app := (cs_app cs1 \<or> in_context)\<rparr>);
          (cs3, out', err) = (if ip = [] then (cs2, [], None) else request_history env uuid cs2)
      in case err of
           Some e \<Rightarrow> (cs3, dout, out @ out', Some e)
         | None \<Rightarrow>
             (case cs_hist cs3 of
                None \<Rightarrow> (cs3, dout, out @ out', final_refresh rf in_context)
              | Some hs \<Rightarrow>
                  (case get_recent_messages env 100 hs of
                     Inl e \<Rightarrow> (cs3, dout, out @ out', Some (HistoryFailed e))
                   | Inr recs \<Rightarrow>
                       (cs3\<lparr>cs_shown := cs_shown cs3 @ map (shown_history prep) recs\<rparr>, dout, out @ out',
                        final_refresh rf in_context))))"

definition disconnect :: "refreshes \<Rightarrow> bool \<Rightarrow> string \<Rightarrow> chat_service \<Rightarrow> chat_service \<times> chat_error option" where
  "disconnect rf ctx username cs =
     (let (cs1, err) = user_disconnected rf ctx username (cs\<lparr>cs_disc := map_option discovery_stop (cs_disc cs)\<rparr>)
      in (case err of None \<Rightarrow> cs1\<lparr>cs_disc := None\<rparr> | Some e \<Rightarrow> cs1, err))"

end
