(* ===== verification/Peer_App.thy ===== *)
theory Peer_App
  imports Chat_Service
begin

text \<open>
  \<open>main.py\<close>, \<open>ui/app.py\<close>, \<open>ui/services/factory.py\<close>, \<open>mock_service.py\<close> and
  \<open>peer_discovery/network/net_utils.py\<close>: the peer as the user runs it. The broadcast node hands every message it releases to \<open>chat_service.message_received\<close>, as
  \<open>main\<close> wires it; here, unlike in \<open>Broadcast_Node\<close>, that callback may raise, and what the
  handlers of the node do after the exception is part of the model. The routes of the web
  application are functions on the peer; what a template is given to render is the record
  \<open>view\<close>.

  \<open>renders ctx\<close> says whether \<open>render_template\<close> succeeds with or without an application
  context; \<open>loads\<close> is \<open>json.loads\<close> on the text of a message; \<open>uuid\<close> gives the identifier a
  handler draws.
\<close>

section \<open>State\<close>

text \<open>\<open>pa_draining\<close>: the periodic drain of the node is still running. The last three attributes are
  \<open>app.connected_state\<close>.\<close>

record peer =
  pa_node :: node
  pa_chat :: chat_service
  pa_draining :: bool
  pa_connected :: bool
  pa_username :: string
  pa_ip :: string

record peer_env =
  pe_node :: node_env
  pe_store :: store_env
  pe_renders :: "bool \<Rightarrow> bool"
  pe_loads :: "string \<Rightarrow> json option"
  pe_uuid :: "message \<Rightarrow> string"

text \<open>The callbacks \<open>create_app\<close> registers: both render a template.\<close>

definition app_refreshes :: "(bool \<Rightarrow> bool) \<Rightarrow> refreshes" where
  "app_refreshes renders = \<lparr>rf_has = (\<lambda>key. key \<in> {''users'', ''messages''}), rf_raises = (\<lambda>ctx _. \<not> renders ctx)\<rparr>"

section \<open>Wiring\<close>

text \<open>\<open>main\<close>: \<open>public_key\<close> is what \<open>initialize_private_key_store\<close> returns, \<open>d\<close> the storage directory of the
  port.\<close>

definition main_peer :: "store_env \<Rightarrow> store_disk \<Rightarrow> bool \<Rightarrow> string \<Rightarrow> string \<Rightarrow> node_error + peer" where
  "main_peer env d websockets lan_ip public_key =
     (let node = new_node lan_ip 5678 False;
          (node1, history) = service_start env d node \<lparr>hs_addr = (lan_ip, 5678), hs_clean = False, hs_wiring = None\<rparr>;
          chat = new_chat_service\<lparr>cs_hist := Some history, cs_public_key := Some public_key,
                   cs_node_address := Some (n_address node)\<rparr>
      in case start websockets (node1\<lparr>n_callback := True\<rparr>) of
           Inl e \<Rightarrow> Inl e
         | Inr node2 \<Rightarrow> Inr \<lparr>pa_node = node2, pa_chat = chat, pa_draining = True, pa_connected = False,
                              pa_username = [], pa_ip = []\<rparr>)"

section \<open>The node's handlers with the chat service as callback\<close>

text \<open>What a handler sends and schedules: forwards, discovery traffic, recovery traffic, clocks to
  synchronise; and the exception that ends it.\<close>

record effects =
  ef_forward :: "(addr \<times> message) list"
  ef_discovery :: "outgoing list"
  ef_recovery :: sends
  ef_sync :: "clock list"
  ef_error :: "chat_error option"

definition no_effects :: effects where
  "no_effects = \<lparr>ef_forward = [], ef_discovery = [], ef_recovery = [], ef_sync = [], ef_error = None\<rparr>"

text \<open>The loop \<open>for msg in to_deliver: self.on_message(msg)\<close>: an exception ends it.\<close>

fun deliver_each ::
  "peer_env \<Rightarrow> bool \<Rightarrow> time \<Rightarrow> message list \<Rightarrow> chat_service \<Rightarrow> chat_service \<times> effects" where
  "deliver_each env ctx now [] cs = (cs, no_effects)"
| "deliver_each env ctx now (m # ms) cs =
     (let (cs1, dout, out, vc, err) =
            message_received (app_refreshes (pe_renders env)) (pe_store env) (pe_uuid env m) now ctx m
              (pe_loads env (msg_content m)) cs;
          clocks = (case vc of None \<Rightarrow> [] | Some c \<Rightarrow> [c])
      in case err of
           Some e \<Rightarrow> (cs1, \<lparr>ef_forward = [], ef_discovery = dout, ef_recovery = out, ef_sync = clocks, ef_error = Some e\<rparr>)
         | None \<Rightarrow>
             let (cs2, ef) = deliver_each env ctx now ms cs1
             in (cs2, ef\<lparr>ef_discovery := dout @ ef_discovery ef, ef_recovery := out @ ef_recovery ef,
                         ef_sync := clocks @ ef_sync ef\<rparr>))"

text \<open>Forwarding comes after the callbacks; the node and the chat service share the registry.\<close>

definition forward_after :: "node \<Rightarrow> message option \<Rightarrow> chat_service \<Rightarrow> effects \<Rightarrow> effects" where
  "forward_after n fwd cs ef =
     (case (ef_error ef, fwd) of
        (None, Some m) \<Rightarrow> ef\<lparr>ef_forward := forward (in_memory_view (cs_registry cs)) n m\<rparr>
      | _ \<Rightarrow> ef)"

definition peer_receive :: "peer_env \<Rightarrow> time \<Rightarrow> time \<Rightarrow> message \<Rightarrow> peer \<Rightarrow> peer \<times> effects" where
  "peer_receive env ta td m p =
     (let (n, _, fwd, _) = receive (pe_node env) ta td (pa_node p) m;
          (cs, ef) = deliver_each env False td (receive_ui (pe_node env) ta td (pa_node p) m) (pa_chat p)
      in (p\<lparr>pa_node := n, pa_chat := cs\<rparr>, forward_after n fwd cs ef))"

text \<open>\<open>ctx\<close>: a broadcast scheduled from a request runs in that request's application context, one scheduled by
  discovery from its own threads has none.\<close>

definition peer_broadcast :: "peer_env \<Rightarrow> bool \<Rightarrow> time \<Rightarrow> message \<Rightarrow> peer \<Rightarrow> peer \<times> effects" where
  "peer_broadcast env ctx now m p =
     (let (n, ms, fwd, _) = do_broadcast (pe_node env) (pa_node p) m;
          (cs, ef) = deliver_each env ctx now (callbacks n ms) (pa_chat p)
      in (p\<lparr>pa_node := n, pa_chat := cs\<rparr>, forward_after n fwd cs ef))"

definition peer_sync :: "peer_env \<Rightarrow> time \<Rightarrow> clock \<Rightarrow> peer \<Rightarrow> peer \<times> effects" where
  "peer_sync env now vc p =
     (let (cs, ef) = deliver_each env False now (apply_vc_sync_ui (pe_node env) now (pa_node p) vc) (pa_chat p)
      in (p\<lparr>pa_node := fst (apply_vc_sync now (pa_node p) vc), pa_chat := cs\<rparr>, ef))"

text \<open>One round of \<open>_holdback_drain_task\<close>: an exception leaves the loop, and the task is not started
  again.\<close>

definition peer_drain :: "peer_env \<Rightarrow> time \<Rightarrow> peer \<Rightarrow> peer \<times> effects" where
  "peer_drain env now p =
     (if \<not> pa_draining p then (p, no_effects)
      else
        let (cs, ef) = deliver_each env False now (holdback_drain_ui now (pa_node p)) (pa_chat p)
        in (p\<lparr>pa_node := fst (holdback_drain now (pa_node p)), pa_chat := cs, pa_draining := (ef_error ef = None)\<rparr>, ef))"

section \<open>The web application\<close>

text \<open>\<open>str.strip()\<close>: white space as Python sees it.\<close>

definition py_space :: "char \<Rightarrow> bool" where
  "py_space c \<longleftrightarrow> (let k = of_char c :: nat in k \<in> {9, 10, 11, 12, 13, 28, 29, 30, 31, 32, 133, 160})"

definition py_strip :: "string \<Rightarrow> string" where
  "py_strip s = rev (dropWhile py_space (rev (dropWhile py_space s)))"

section \<open>Addresses of this machine\<close>

text \<open>\<open>net_utils.py\<close>: \<open>bindable\<close> says which ports can be bound; \<open>None\<close> is \<open>OSError\<close>.\<close>

definition pick_free_port :: "(int \<Rightarrow> bool) \<Rightarrow> int \<Rightarrow> int \<Rightarrow> int option" where
  "pick_free_port bindable start_port end_port = List.find bindable [start_port..end_port]"

text \<open>\<open>route\<close> is the local end of the UDP socket (\<open>None\<close> when connecting raises), \<open>host_ips\<close> what the host name
  resolves to (\<open>None\<close> when that raises).\<close>

definition get_lan_ip :: "(string, string) dict \<Rightarrow> string option \<Rightarrow> string list option \<Rightarrow> string" where
  "get_lan_ip env route host_ips =
     (if get_or env ''PEERCHAT_LAN_IP'' [] \<noteq> [] then py_strip (get_or env ''PEERCHAT_LAN_IP'' [])
      else case route of
        Some ip \<Rightarrow> ip
      | None \<Rightarrow>
          (case List.find (\<lambda>ip. strip_prefix ''127.'' ip = None) (case host_ips of None \<Rightarrow> [] | Some ips \<Rightarrow> ips) of
             Some ip \<Rightarrow> ip
           | None \<Rightarrow> ''127.0.0.1''))"

section \<open>Pages\<close>

record view =
  vw_users :: "user_row list"
  vw_messages :: "shown list"
  vw_users_map :: "(string, string) dict"
  vw_connected :: bool
  vw_username :: string
  vw_ip :: string

definition users_map :: "user_row list \<Rightarrow> (string, string) dict" where
  "users_map us = foldl (\<lambda>d u. dict_set (us_ip u) (us_name u) d) [] us"

text \<open>\<open>index\<close>, and the partial pages, which are parts of it.\<close>

definition index_view :: "peer \<Rightarrow> view" where
  "index_view p =
     \<lparr>vw_users = cs_users (pa_chat p), vw_messages = cs_shown (pa_chat p), vw_users_map = users_map (cs_users (pa_chat p)),
      vw_connected = pa_connected p, vw_username = pa_username p, vw_ip = pa_ip p\<rparr>"

text \<open>\<open>POST /connect\<close>. An exception of the service becomes an error page (\<open>Inl\<close>) before
  \<open>connected_state\<close> is written. \<open>meanwhile\<close>, \<open>lan_ip\<close>, \<open>tag\<close> and \<open>now\<close> are the arguments of
  \<open>connect\<close>.\<close>

definition route_connect ::
  "peer_env \<Rightarrow> (string \<Rightarrow> discovery \<Rightarrow> discovery) \<Rightarrow> string \<Rightarrow> string \<Rightarrow> time \<Rightarrow> string \<Rightarrow> string \<Rightarrow> peer \<Rightarrow>
   peer \<times> outgoing list \<times> sends \<times> (chat_error + view)" where
  "route_connect env meanwhile lan_ip tag now username0 ip0 p =
     (let username = py_strip username0; ip = py_strip ip0;
          (cs, dout, out, err) = connect (app_refreshes (pe_renders env)) (pe_store env)
             (decrypt_into (pe_node env) (pa_node p)) meanwhile True lan_ip tag now username ip (pa_chat p)
      in case err of
           Some e \<Rightarrow> (p\<lparr>pa_chat := cs\<rparr>, dout, out, Inl e)
         | None \<Rightarrow>
             let p' = p\<lparr>pa_chat := cs, pa_connected := True, pa_username := username, pa_ip := ip\<rparr>
             in (p', dout, out, Inr (index_view p')))"

text \<open>\<open>POST /disconnect\<close>: \<open>connected_state\<close> is cleared before the service is called.\<close>

definition route_disconnect :: "peer_env \<Rightarrow> string \<Rightarrow> peer \<Rightarrow> peer \<times> (chat_error + view)" where
  "route_disconnect env username p =
     (let (cs, err) = disconnect (app_refreshes (pe_renders env)) True (py_strip username) (pa_chat p);
          p' = p\<lparr>pa_chat := cs, pa_connected := False, pa_username := [], pa_ip := []\<rparr>
      in (p', case err of Some e \<Rightarrow> Inl e | None \<Rightarrow> Inr (index_view p')))"

text \<open>\<open>POST /messages\<close>: \<open>post_message\<close> is \<open>node.broadcast(Message(content, sender=node.address))\<close>, with
  \<open>mid\<close> and \<open>now\<close> the identifier and time of the new message. The broadcast is scheduled on the
  node's loop.\<close>

definition posted_message :: "string \<Rightarrow> time \<Rightarrow> string \<Rightarrow> node \<Rightarrow> message" where
  "posted_message mid now content n =
     \<lparr>msg_content = content, msg_sender = n_address n, msg_id = mid, msg_timestamp = now, msg_signature = [], msg_ttl = 10,
      msg_vector_clock = []\<rparr>"

definition route_post :: "string \<Rightarrow> time \<Rightarrow> string \<Rightarrow> peer \<Rightarrow> task list" where
  "route_post mid now text p =
     (let content = py_strip text in
      if content = [] then [] else broadcast (pa_node p) (posted_message mid now content (pa_node p)))"

section \<open>The mock service\<close>

record mock_service =
  mk_users :: "(string \<times> string) list"
  mk_messages :: "(string \<times> string) list"

definition new_mock_service :: mock_service where
  "new_mock_service =
     \<lparr>mk_users = [(''Ava Patel'', ''Online''), (''Noah Kim'', ''In chat''), (''Mia Chen'', ''Away''), (''Liam Garcia'', ''Offline'')],
      mk_messages = [(''assistant'', ''Welcome. This scaffold is ready for a real chat backend.'')]\<rparr>"

definition mock_post_message :: "string \<Rightarrow> mock_service \<Rightarrow> mock_service" where
  "mock_post_message content m =
     m\<lparr>mk_messages := mk_messages m @
       [(''user'', content), (''assistant'', ''Hook this route to your model, queue, or websocket bridge.'')]\<rparr>"

definition create_chat_service :: "bool \<Rightarrow> mock_service + chat_service" where
  "create_chat_service mock_data_enabled = (if mock_data_enabled then Inl new_mock_service else Inr new_chat_service)"

text \<open>Which service \<open>create_app\<close> asks for.\<close>

definition ascii_lower :: "char \<Rightarrow> char" where
  "ascii_lower c = (let k = of_char c :: nat in if 65 \<le> k \<and> k \<le> 90 then char_of (k + 32) else c)"

definition mock_data_enabled :: "(string, string) dict \<Rightarrow> bool" where
  "mock_data_enabled env =
     (let v = get_or env ''MOCK_DATA_ENABLED'' (get_or env ''MOCK_RESPONSES_ENABLED'' ''true'')
      in map ascii_lower (py_strip v) = ''false'')"

end
