(* ===== verification/Chat_Properties.thy ===== *)
theory Chat_Properties
  imports Chat_Service
begin

text \<open>
  Properties of the chat service: its user list and registry stay well formed through every
  operation, what is shown and stored of a delivered message, how the registry follows
  membership events, and which exception escapes into the broadcast node.
\<close>

section \<open>Well-formedness\<close>

definition chat_wf :: "chat_service \<Rightarrow> bool" where
  "chat_wf cs \<longleftrightarrow> distinct (map us_name (cs_users cs)) \<and> registry_wf (cs_registry cs)"

lemma chat_wf_frame [simp]:
  "chat_wf (cs\<lparr>cs_shown := a\<rparr>) = chat_wf cs" "chat_wf (cs\<lparr>cs_hist := b\<rparr>) = chat_wf cs"
  "chat_wf (cs\<lparr>cs_disc := c\<rparr>) = chat_wf cs" "chat_wf (cs\<lparr>cs_disc := c, cs_app := e\<rparr>) = chat_wf cs"
  by (simp_all add: chat_wf_def)

lemma chat_wf_row:
  "chat_wf cs \<Longrightarrow> \<not> list_ex (\<lambda>u. us_name u = us_name r) (cs_users cs) \<Longrightarrow> chat_wf (cs\<lparr>cs_users := cs_users cs @ [r]\<rparr>)"
  by (auto simp: chat_wf_def list_ex_iff)

lemma chat_wf_connected: "chat_wf cs \<Longrightarrow> chat_wf (fst (user_connected rf ctx name ip cs))"
  using chat_wf_row[of cs "\<lparr>us_name = name, us_status = ''Online'', us_ip = ip\<rparr>"] by (simp add: user_connected_def)

lemma chat_wf_disconnected: "chat_wf cs \<Longrightarrow> chat_wf (fst (user_disconnected rf ctx name cs))"
  by (auto simp: user_disconnected_def chat_wf_def distinct_map_filter)

lemma request_history_frame:
  "cs_registry (fst (request_history env uuid cs)) = cs_registry cs" "cs_users (fst (request_history env uuid cs)) = cs_users cs"
  "cs_chat_port (fst (request_history env uuid cs)) = cs_chat_port cs" "cs_shown (fst (request_history env uuid cs)) = cs_shown cs"
  "cs_disc (fst (request_history env uuid cs)) = cs_disc cs"
  by (simp_all add: request_history_def split: option.split sum.split)

lemma chat_wf_registry:
  "chat_wf cs \<Longrightarrow> chat_wf (cs\<lparr>cs_registry := add_peer h p k (cs_registry cs)\<rparr>)"
  "chat_wf cs \<Longrightarrow> chat_wf (cs\<lparr>cs_registry := remove_peer h p (cs_registry cs)\<rparr>)"
  by (simp_all add: chat_wf_def registry_wf_add registry_wf_remove)

lemma chat_wf_request: "chat_wf cs \<Longrightarrow> chat_wf (fst (request_history env uuid cs))"
  by (simp add: chat_wf_def request_history_frame)

lemma handle_event_cases:
  obtains (join) h p where "ev_type e = JOIN_ACCEPTED" "rsplit1 (CHR '':'') (ev_user_id e) = Some (h, p)"
      "fst (handle_membership_event rf env uuid e cs) \<in>
        (let cs2 = fst (request_history env uuid (cs\<lparr>cs_registry := add_peer h (cs_chat_port cs)
              (case ev_public_key e of None \<Rightarrow> [] | Some k \<Rightarrow> k) (cs_registry cs)\<rparr>))
         in {cs2, fst (user_connected rf False (ev_display_name e) h cs2)})"
  | (leave) h p where "ev_type e = LEAVE_CONFIRMED" "rsplit1 (CHR '':'') (ev_user_id e) = Some (h, p)"
      "fst (handle_membership_event rf env uuid e cs) = fst (user_disconnected rf False (ev_display_name e)
         (cs\<lparr>cs_registry := remove_peer h (cs_chat_port cs) (cs_registry cs)\<rparr>))"
  | (ignored) "ev_type e \<notin> {JOIN_ACCEPTED, LEAVE_CONFIRMED} \<or> rsplit1 (CHR '':'') (ev_user_id e) = None"
      "fst (handle_membership_event rf env uuid e cs) = cs"
  using that
  by (cases "ev_type e"; cases "rsplit1 (CHR '':'') (ev_user_id e)")
    (auto simp: handle_membership_event_def Let_def split: prod.splits option.splits)

lemma chat_wf_event: "chat_wf cs \<Longrightarrow> chat_wf (fst (handle_membership_event rf env uuid e cs))"
  by (cases rule: handle_event_cases[of e rf env uuid cs])
    (auto simp: Let_def chat_wf_connected chat_wf_disconnected chat_wf_request chat_wf_registry)

lemma chat_wf_events: "chat_wf cs \<Longrightarrow> chat_wf (fst (handle_events rf env uuid es cs))"
  by (induction es arbitrary: cs) (simp_all add: case_prod_beta Let_def chat_wf_event)

lemma chat_wf_show: "chat_wf cs \<Longrightarrow> chat_wf (fst (show_message rf ctx m cs))"
  by (simp add: show_message_def)

lemma chat_wf_to_history: "chat_wf cs \<Longrightarrow> chat_wf (fst (to_history rf env uuid ctx m content cs))"
  by (auto simp: to_history_def Let_def chat_wf_show case_prod_beta split: option.split sum.split handled.split)

lemma chat_wf_received: "chat_wf cs \<Longrightarrow> chat_wf (fst (message_received rf env uuid now ctx m content cs))"
  by (auto simp: message_received_def Let_def case_prod_beta chat_wf_to_history chat_wf_events
      split: option.split sum.split disc_result.split)

lemma chat_wf_self: "chat_wf cs \<Longrightarrow> chat_wf (add_self name ip cs)"
  using chat_wf_row[of cs "\<lparr>us_name = name, us_status = ''Online'', us_ip = (if ip \<noteq> [] then ip else ''0.0.0.0'')\<rparr>"]
  by (simp add: add_self_def)

lemma chat_wf_connect:
  "chat_wf cs \<Longrightarrow> chat_wf (fst (connect rf env prep meanwhile ctx lan uuid now name ip cs))"
  by (auto simp: connect_def Let_def case_prod_beta chat_wf_self chat_wf_events chat_wf_request
      split: option.split sum.split)

lemma chat_wf_disconnect: "chat_wf cs \<Longrightarrow> chat_wf (fst (disconnect rf ctx name cs))"
  using chat_wf_disconnected[of "cs\<lparr>cs_disc := map_option discovery_stop (cs_disc cs)\<rparr>" rf ctx name]
  by (auto simp: disconnect_def Let_def case_prod_beta split: option.split)

datatype chat_op =
    Received string time bool message "json option"
  | Connected "string \<Rightarrow> discovery \<Rightarrow> discovery" bool string string time string string
  | Disconnected bool string
  | Event string membership_event

fun chat_step :: "refreshes \<Rightarrow> store_env \<Rightarrow> (message \<Rightarrow> message) \<Rightarrow> chat_service \<Rightarrow> chat_op \<Rightarrow> chat_service" where
  "chat_step rf env prep cs (Received uuid now ctx m content) = fst (message_received rf env uuid now ctx m content cs)"
| "chat_step rf env prep cs (Connected meanwhile ctx lan uuid now name ip) =
     fst (connect rf env prep meanwhile ctx lan uuid now name ip cs)"
| "chat_step rf env prep cs (Disconnected ctx name) = fst (disconnect rf ctx name cs)"
| "chat_step rf env prep cs (Event uuid e) = fst (handle_membership_event rf env uuid e cs)"

interpretation chat_run: inv_system "chat_step rf env prep" chat_wf "\<lambda>_. True" for rf env prep
proof
  show "chat_wf (chat_step rf env prep cs op)" if "chat_wf cs" for cs op
    using that by (cases op) (simp_all add: chat_wf_received chat_wf_connect chat_wf_disconnect chat_wf_event)
qed

text \<open>Whatever messages, membership events, connects and disconnects a chat service handles, in any
  order, its user list never names a user twice and its registry never lists a peer twice.\<close>

theorem chat_lists_distinct:
  "distinct (map us_name (cs_users (foldl (chat_step rf env prep) new_chat_service ops))) \<and>
   distinct (get_peers (cs_registry (foldl (chat_step rf env prep) new_chat_service ops)))"
proof -
  have "chat_wf new_chat_service" by (simp add: chat_wf_def new_chat_service_def registry_wf_def)
  from chat_run.inv_run[OF this, of ops rf env prep] show ?thesis by (simp add: chat_wf_def registry_wf_def)
qed

section \<open>Delivered messages\<close>

text \<open>Messages that are neither discovery messages nor recovery frames: \<open>content\<close> is what \<open>json.loads\<close>
  makes of the text.\<close>

definition plain_chat :: "message \<Rightarrow> json option \<Rightarrow> bool" where
  "plain_chat m content \<longleftrightarrow> \<not> is_discovery_message (msg_content m) \<and>
     (case content of
        None \<Rightarrow> True
      | Some (JObj kvs) \<Rightarrow> map_of kvs ''type'' \<noteq> Some (JStr RECOVER_REQUEST) \<and> map_of kvs ''type'' \<noteq> Some (JStr HISTORY_CHUNK)
      | Some _ \<Rightarrow> False)"

definition to_shown :: "message \<Rightarrow> shown" where
  "to_shown m = \<lparr>sh_role = None, sh_sender = msg_sender m, sh_timestamp = msg_timestamp m, sh_content = msg_content m\<rparr>"

lemma message_received_plain:
  assumes "plain_chat m content" "cs_hist cs = Some hs" "hs_wiring hs = Some s"
  shows "message_received rf env uuid now ctx m content cs =
    (cs\<lparr>cs_hist := Some (hs\<lparr>hs_wiring := Some (snd (save env (to_storage_message m) s))\<rparr>),
        cs_shown := cs_shown cs @ [to_shown m]\<rparr>,
     [], [], None, if rf_has rf ''messages'' \<and> rf_raises rf ctx ''messages'' then Some RefreshFailed else None)"
proof -
  obtain reason where h: "service_handle_message env uuid m content hs =
      Inr (NotHandled reason, [], None, hs\<lparr>hs_wiring := Some (snd (save env (to_storage_message m) s))\<rparr>)"
    using assms(1,3) by (auto simp: plain_chat_def service_handle_message_def require_started_def handle_storage_message_def
        handle_transport_message_def split: option.splits json.splits)
  have t: "to_history rf env uuid ctx m content cs =
    (cs\<lparr>cs_hist := Some (hs\<lparr>hs_wiring := Some (snd (save env (to_storage_message m) s))\<rparr>),
        cs_shown := cs_shown cs @ [to_shown m]\<rparr>,
     [], None, if rf_has rf ''messages'' \<and> rf_raises rf ctx ''messages'' then Some RefreshFailed else None)"
    by (simp add: to_history_def assms(2) h show_message_def to_shown_def refresh_twice_def refresh_direct_def)
  show ?thesis
  proof (cases "cs_disc cs")
    case None
    then show ?thesis by (simp add: message_received_def t)
  next
    case (Some d)
    then have same: "cs\<lparr>cs_disc := Some d\<rparr> = cs" by (cases cs) simp
    have "message_received rf env uuid now ctx m content cs =
        (let (cs', out, vc, err) = to_history rf env uuid ctx m content (cs\<lparr>cs_disc := Some d\<rparr>) in (cs', [], out, vc, err))"
      using assms(1) Some by (simp add: plain_chat_def message_received_def handle_message_def ui_notices_def)
    then show ?thesis unfolding same t by simp
  qed
qed

text \<open>A message for demonstrations.\<close>

definition demo_line :: message where
  "demo_line = \<lparr>msg_content = ''hi'', msg_sender = ''a:1'', msg_id = ''m1'', msg_timestamp = 3, msg_signature = [],
     msg_ttl = 3, msg_vector_clock = [(''a:1'', 1)]\<rparr>"

section \<open>The registry follows membership events\<close>

definition host_of :: "membership_event \<Rightarrow> string option" where
  "host_of e = map_option fst (rsplit1 (CHR '':'') (ev_user_id e))"

text \<open>The events that change the entry of a host.\<close>

definition host_events :: "string \<Rightarrow> membership_event list \<Rightarrow> membership_event list" where
  "host_events h es = filter (\<lambda>e. ev_type e \<in> {JOIN_ACCEPTED, LEAVE_CONFIRMED} \<and> host_of e = Some h) es"

lemma user_list_frame:
  "cs_registry (fst (user_connected rf ctx n ip cs)) = cs_registry cs"
  "cs_chat_port (fst (user_connected rf ctx n ip cs)) = cs_chat_port cs"
  "cs_registry (fst (user_disconnected rf ctx n cs)) = cs_registry cs"
  "cs_chat_port (fst (user_disconnected rf ctx n cs)) = cs_chat_port cs"
  by (simp_all add: user_connected_def user_disconnected_def)

lemma event_registry:
  "cs_chat_port (fst (handle_membership_event rf env uuid e cs)) = cs_chat_port cs \<and>
   ((h, cs_chat_port cs) \<in> set (get_peers (cs_registry (fst (handle_membership_event rf env uuid e cs)))) \<longleftrightarrow>
     (if host_events h [e] = [] then (h, cs_chat_port cs) \<in> set (get_peers (cs_registry cs)) else ev_type e = JOIN_ACCEPTED))"
  by (cases rule: handle_event_cases[of e rf env uuid cs])
    (auto simp: Let_def host_events_def host_of_def request_history_frame user_list_frame
      get_peers_add get_peers_remove split: if_splits)

text \<open>C34. The registry knows joins and confirmed leaves, and nothing else. After any sequence of
  membership events the registry lists a host on the chat port exactly when the last accepted join or
  confirmed leave of a user on that host is a join, or there was none and the host was listed
  before; suspicions, timeouts and reconnects have no effect.\<close>

theorem registry_follows_joins:
  "(h, cs_chat_port cs) \<in> set (get_peers (cs_registry (fst (handle_events rf env uuid es cs)))) \<longleftrightarrow>
     (if host_events h es = [] then (h, cs_chat_port cs) \<in> set (get_peers (cs_registry cs))
      else ev_type (last (host_events h es)) = JOIN_ACCEPTED)"
proof (induction es arbitrary: cs)
  case (Cons e es)
  let ?cs = "fst (handle_membership_event rf env uuid e cs)"
  have port: "cs_chat_port ?cs = cs_chat_port cs" using event_registry[of rf env uuid e cs] by blast
  have split: "host_events h (e # es) = host_events h [e] @ host_events h es" by (simp add: host_events_def)
  have "host_events h [e] \<noteq> [] \<Longrightarrow> last (host_events h [e]) = e"
    by (auto simp: host_events_def split: if_splits)
  with Cons.IH[of ?cs] event_registry[of rf env uuid e cs h] show ?case
    unfolding split by (auto simp: case_prod_beta Let_def port)
qed (simp add: host_events_def)

end
