(* ===== verification/App_Properties.thy ===== *)
theory App_Properties
  imports Peer_App Chat_Properties "HOL-Library.Sublist"
begin

text \<open>
  Properties of the whole peer: broadcast node, chat service, history and web application together.
  While the callbacks succeed the peer refines the broadcast node, its screen is the node's
  delivery log and everything on it is stored; when the render callback raises outside an
  application context, a batch loses all but its first message. The application's connection
  state stays consistent with the chat service.
\<close>

section \<open>Delivering a batch\<close>

abbreviation reads_plain :: "peer_env \<Rightarrow> message \<Rightarrow> bool" where
  "reads_plain env m \<equiv> plain_chat m (pe_loads env (msg_content m))"



lemma app_refreshes_simps:
  "rf_has (app_refreshes r) ''messages''" "rf_has (app_refreshes r) ''users''" "rf_raises (app_refreshes r) ctx key \<longleftrightarrow> \<not> r ctx"
  by (simp_all add: app_refreshes_def)


text \<open>A callback that raises ends the loop after the first message.\<close>

lemma deliver_each_raises:
  assumes "\<not> pe_renders env ctx" "cs_hist cs = Some hs" "hs_wiring hs = Some s" "reads_plain env m"
  shows "deliver_each env ctx now (m # ms) cs =
    (cs\<lparr>cs_hist := Some (hs\<lparr>hs_wiring := Some (snd (save (pe_store env) (to_storage_message m) s))\<rparr>),
        cs_shown := cs_shown cs @ [to_shown m]\<rparr>, no_effects\<lparr>ef_error := Some RefreshFailed\<rparr>)"
  using message_received_plain[OF assms(4,2,3)] assms(1) by (simp add: app_refreshes_simps no_effects_def)





section \<open>The run of a peer\<close>

datatype peer_event =
    PReceive time time message
  | PBroadcast bool time message
  | PDrain time
  | PSync time clock

fun peer_step :: "peer_env \<Rightarrow> peer \<Rightarrow> peer_event \<Rightarrow> peer" where
  "peer_step env p (PReceive ta td m) = fst (peer_receive env ta td m p)"
| "peer_step env p (PBroadcast ctx now m) = fst (peer_broadcast env ctx now m p)"
| "peer_step env p (PDrain now) = fst (peer_drain env now p)"
| "peer_step env p (PSync now vc) = fst (peer_sync env now vc p)"







text \<open>\<open>p\<close> has a callback and an open history \<open>hs\<close> over the store \<open>s\<close>.\<close>

definition live_peer :: "peer \<Rightarrow> history_service \<Rightarrow> store \<Rightarrow> bool" where
  "live_peer p hs s \<longleftrightarrow> n_callback (pa_node p) \<and> cs_hist (pa_chat p) = Some hs \<and> hs_wiring hs = Some s"


lemma node_step_callback: "n_callback (fst (node_step env s e)) = n_callback (fst s)"
  by (cases s; cases e)
    (auto simp: receive_def do_broadcast_def deduplicate_def holdback_drain_def apply_vc_sync_def Let_def
      split: prod.splits if_splits bool.splits)


text \<open>The chat service is handed the released messages, decrypted or not.\<close>

abbreviation names :: "message list \<Rightarrow> (string \<times> string) list" where
  "names ms \<equiv> map (\<lambda>m. (msg_id m, msg_sender m)) ms"







lemma names_ids: "names xs = names ys \<Longrightarrow> map msg_id xs = map msg_id ys"
  by (drule arg_cong[of _ _ "map fst"]) (simp add: comp_def)






section \<open>A peer started by \<open>main\<close>\<close>

lemma main_peer_live:
  assumes "main_peer env d ws lan_ip pk = Inr p" "disk_ok env d"
  shows "\<exists>hs s. live_peer p hs s \<and> store_inv env s \<and> stored env (st_disk s) = stored env d \<and>
    cs_shown (pa_chat p) = [] \<and> hb_queue (n_hold (pa_node p)) = []"
proof -
  let ?o = "open_store env (Some DEFAULT_SNAPSHOT_THRESHOLD) d"
  let ?s = "snd (get_latest_vector_clock env ?o)" and ?hs = "\<lparr>hs_addr = (lan_ip, 5678), hs_clean = False, hs_wiring = None\<rparr>"
  have "store_inv env ?o" using assms(2) by (simp add: store_inv_def open_store_ok)
  then have inv: "store_inv env ?s" "stored env (st_disk ?s) = stored env d"
    using archive.cursor_keeps[of env ?o] by (simp_all add: open_store_ok)
  have "live_peer p (?hs\<lparr>hs_wiring := Some ?s\<rparr>) ?s \<and> cs_shown (pa_chat p) = [] \<and> hb_queue (n_hold (pa_node p)) = []"
    using assms(1)
    by (auto simp: main_peer_def service_start_def wire_node_def sync_node_vector_clock_def start_def live_peer_def
        new_chat_service_def new_node_def new_holdback_def Let_def case_prod_beta split: if_splits)
  with inv show ?thesis by blast
qed





text \<open>A demonstration: two messages of a peer \<open>a:1\<close> arrive in the wrong order.\<close>

definition demo_peer_env :: "(bool \<Rightarrow> bool) \<Rightarrow> peer_env" where
  "demo_peer_env renders = \<lparr>pe_node = \<lparr>env_sec = None, env_hook = None\<rparr>,
     pe_store = \<lparr>sv_len = (\<lambda>_. 40), sv_sha = (\<lambda>ls. nat_str (length ls)), sv_now = 0\<rparr>,
     pe_renders = renders, pe_loads = (\<lambda>_. None), pe_uuid = (\<lambda>_. ''u'')\<rparr>"

definition demo_text :: "string \<Rightarrow> int \<Rightarrow> message" where
  "demo_text i k = demo_line\<lparr>msg_id := i, msg_vector_clock := [(''a:1'', k)]\<rparr>"


definition demo_node :: node where
  "demo_node = (new_node ''b'' 5678 False)\<lparr>n_callback := True, n_running := True\<rparr>"

definition demo_main :: "(bool \<Rightarrow> bool) \<Rightarrow> peer" where
  "demo_main r = projr (main_peer (pe_store (demo_peer_env r)) empty_disk True ''b'' ''pk'')"

lemma demo_main_started: "main_peer (pe_store (demo_peer_env r)) empty_disk True ''b'' ''pk'' = Inr (demo_main r)"
  by (simp add: demo_main_def main_peer_def start_def case_prod_beta Let_def)



lemma demo_plain: "reads_plain (demo_peer_env r) (demo_text ''m1'' 1)" "reads_plain (demo_peer_env r) (demo_text ''m2'' 2)"
  by code_simp+



section \<open>A callback that raises\<close>

lemma receive_seen:
  assumes "once_inv (n0, lg)" "receive env ta td n0 m = (n, ms, fwd, b)" "x \<in> set ms"
  shows "msg_id x \<in> n_seen n"
  using once_inv_step[OF assms(1), of env "EvReceive ta td m"] assms(2,3) by (auto simp: once_inv_def)

text \<open>C39. An exception of the refresh callback loses messages. When rendering needs an application
  context, which the node's loop has not, a received message that releases a batch shows and stores
  the first message of the batch only and is not forwarded, although the node has counted the whole
  batch as delivered; copies of the rest that arrive later are dropped as duplicates.\<close>

theorem callback_exception_drops_batch:
  assumes "\<not> pe_renders env False" "live_peer p hs s" "once_inv (pa_node p, lg)"
    and "receive (pe_node env) ta td (pa_node p) m = (n, m1 # ms, fwd, b)"
    and "reads_plain env (message_for_ui (pe_node env) n m1)"
  shows "let first = message_for_ui (pe_node env) n m1;
      p' = p\<lparr>pa_node := n, pa_chat := (pa_chat p)
        \<lparr>cs_hist := Some (hs\<lparr>hs_wiring := Some (snd (save (pe_store env) (to_storage_message first) s))\<rparr>),
         cs_shown := cs_shown (pa_chat p) @ [to_shown first]\<rparr>\<rparr> in
    peer_receive env ta td m p = (p', no_effects\<lparr>ef_error := Some RefreshFailed\<rparr>) \<and>
    (\<forall>x \<in> set ms. peer_receive env ta' td' x p' = (p', no_effects))"
proof -
  let ?first = "message_for_ui (pe_node env) n m1"
  let ?cs = "(pa_chat p)\<lparr>cs_hist := Some (hs\<lparr>hs_wiring := Some (snd (save (pe_store env) (to_storage_message ?first) s))\<rparr>),
         cs_shown := cs_shown (pa_chat p) @ [to_shown ?first]\<rparr>"
  let ?p = "p\<lparr>pa_node := n, pa_chat := ?cs\<rparr>"
  have l: "n_callback (pa_node p)" "cs_hist (pa_chat p) = Some hs" "hs_wiring hs = Some s"
    using assms(2) by (simp_all add: live_peer_def)
  have "n_callback n" using node_step_callback[of "pe_node env" "(pa_node p, [])" "EvReceive ta td m"] assms(4) l(1) by simp
  then have "receive_ui (pe_node env) ta td (pa_node p) m = ?first # map (message_for_ui (pe_node env) n) ms"
    by (simp add: receive_ui_def assms(4) callbacks_def)
  with deliver_each_raises[OF assms(1) l(2,3) assms(5)] assms(4)
  have "peer_receive env ta td m p = (?p, no_effects\<lparr>ef_error := Some RefreshFailed\<rparr>)"
    by (simp add: peer_receive_def forward_after_def no_effects_def)
  moreover have "peer_receive env ta' td' x ?p = (?p, no_effects)" if "x \<in> set ms" for x
  proof -
    have "msg_id x \<in> n_seen n" using receive_seen[OF assms(3,4)] that by simp
    then show ?thesis by (simp add: peer_receive_def receive_ui_def receive_dup callbacks_def forward_after_def no_effects_def)
  qed
  ultimately show ?thesis by (simp add: Let_def)
qed

theorem callback_exception_drops_batch_witness:
  "\<exists>p'. peer_receive (demo_peer_env id) 1 1 (demo_text ''m1'' 1)
       ((demo_main id)\<lparr>pa_node := fst (node_step \<lparr>env_sec = None, env_hook = None\<rparr> (demo_node, []) (EvReceive 1 1 (demo_text ''m2'' 2)))\<rparr>) =
       (p', no_effects\<lparr>ef_error := Some RefreshFailed\<rparr>) \<and> map sh_content (cs_shown (pa_chat p')) = [''hi''] \<and>
     peer_receive (demo_peer_env id) 2 2 (demo_text ''m2'' 2) p' = (p', no_effects)"
proof -
  let ?ne = "\<lparr>env_sec = None, env_hook = None\<rparr>" and ?env = "demo_peer_env id"
  let ?n = "fst (node_step ?ne (demo_node, []) (EvReceive 1 1 (demo_text ''m2'' 2)))"
  let ?p = "(demo_main id)\<lparr>pa_node := ?n\<rparr>"
  obtain hs s where l: "live_peer (demo_main id) hs s" "cs_shown (pa_chat (demo_main id)) = []"
    using main_peer_live[OF demo_main_started empty_disk_ok] by blast
  have "n_callback ?n" by (simp only: node_step_callback fst_conv) (simp add: demo_node_def)
  with l(1) have live: "live_peer ?p hs s" by (simp add: live_peer_def del: node_step.simps)
  have once: "once_inv (node_step ?ne (demo_node, []) (EvReceive 1 1 (demo_text ''m2'' 2)))"
    by (intro once_inv_step once_inv_new) (simp add: demo_node_def new_node_def new_holdback_def)
  have "snd (node_step ?ne (demo_node, []) (EvReceive 1 1 (demo_text ''m2'' 2))) = []" by code_simp
  then obtain n0 where n0: "node_step ?ne (demo_node, []) (EvReceive 1 1 (demo_text ''m2'' 2)) = (n0, [])"
    by (metis prod.collapse)
  with once have once: "once_inv (pa_node ?p, [])" by (simp only: n0 fst_conv) simp
  have "fst (snd (receive ?ne 1 1 ?n (demo_text ''m1'' 1))) = [demo_text ''m1'' 1, demo_text ''m2'' 2]" by code_simp
  then obtain n fwd b where r: "receive (pe_node ?env) 1 1 (pa_node ?p) (demo_text ''m1'' 1) =
      (n, [demo_text ''m1'' 1, demo_text ''m2'' 2], fwd, b)"
    by (cases "receive ?ne 1 1 ?n (demo_text ''m1'' 1)") (auto simp: demo_peer_env_def simp del: node_step.simps)
  have ui: "message_for_ui (pe_node ?env) n (demo_text ''m1'' 1) = demo_text ''m1'' 1"
    by (simp add: message_for_ui_def decrypt_into_def demo_peer_env_def)
  have "\<not> pe_renders ?env False" by (simp add: demo_peer_env_def)
  note t = callback_exception_drops_batch[OF this live once r, of 2 2, unfolded ui Let_def, OF demo_plain(1)]
  show ?thesis
  proof (rule exI, intro conjI, rule conjunct1[OF t])
  qed (simp add: l(2) demo_text_def demo_line_def to_shown_def del: node_step.simps, rule bspec[OF conjunct2[OF t]], simp)
qed

text \<open>The periodic drain of such a peer ends with the first chat message it releases.\<close>

lemma drain_task_dies:
  assumes "\<not> pe_renders env False" "live_peer p hs s" "pa_draining p" "holdback_drain now (pa_node p) = (n, m1 # ms)" "reads_plain env m1"
  shows "\<not> pa_draining (fst (peer_drain env now p)) \<and>
    fst (peer_drain env now' (fst (peer_drain env now p))) = fst (peer_drain env now p)"
proof -
  have l: "n_callback (pa_node p)" "cs_hist (pa_chat p) = Some hs" "hs_wiring hs = Some s"
    using assms(2) by (simp_all add: live_peer_def)
  have "n_callback n" using node_step_callback[of "pe_node env" "(pa_node p, [])" "EvDrain now"] assms(4) l(1) by simp
  then have "holdback_drain_ui now (pa_node p) = m1 # ms" by (simp add: holdback_drain_ui_def assms(4) callbacks_def)
  with deliver_each_raises[OF assms(1) l(2,3) assms(5)] assms(3) show ?thesis
    by (simp add: peer_drain_def case_prod_beta Let_def)
qed

section \<open>The web application\<close>

lemma event_disc: "cs_disc (fst (handle_membership_event rf env uuid e cs)) = cs_disc cs"
  by (cases rule: handle_event_cases[of e rf env uuid cs])
    (auto simp: Let_def request_history_frame user_connected_def user_disconnected_def)

lemma events_disc: "cs_disc (fst (handle_events rf env uuid es cs)) = cs_disc cs"
  by (induction es arbitrary: cs) (simp_all add: case_prod_beta Let_def event_disc)

lemma to_history_disc: "cs_disc (fst (to_history rf env uuid ctx m content cs)) = cs_disc cs"
  by (auto simp: to_history_def show_message_def Let_def case_prod_beta split: option.split sum.split handled.split)

lemma received_disc:
  "cs_disc (fst (message_received rf env uuid now ctx m content cs)) = None \<longleftrightarrow> cs_disc cs = None"
  by (auto simp: message_received_def Let_def case_prod_beta to_history_disc events_disc
      split: option.splits sum.splits disc_result.splits)

lemma deliver_each_keeps:
  "(cs_disc (fst (deliver_each env ctx now ms cs)) = None \<longleftrightarrow> cs_disc cs = None) \<and>
   (chat_wf cs \<longrightarrow> chat_wf (fst (deliver_each env ctx now ms cs)))"
proof (induction ms arbitrary: cs)
  case (Cons m ms)
  obtain cs1 dout out vc err where r: "message_received (app_refreshes (pe_renders env)) (pe_store env) (pe_uuid env m) now ctx m
      (pe_loads env (msg_content m)) cs = (cs1, dout, out, vc, err)" by (rule prod_cases5)
  have "cs_disc cs1 = None \<longleftrightarrow> cs_disc cs = None" "chat_wf cs \<longrightarrow> chat_wf cs1"
    using received_disc[of "app_refreshes (pe_renders env)" "pe_store env" "pe_uuid env m" now ctx m "pe_loads env (msg_content m)" cs]
      chat_wf_received[of cs "app_refreshes (pe_renders env)" "pe_store env" "pe_uuid env m" now ctx m "pe_loads env (msg_content m)"]
    by (simp_all add: r)
  with Cons.IH[of cs1] show ?case by (cases err) (simp_all add: r case_prod_beta Let_def)
qed simp

text \<open>What the routes and the node's loop do, in any order.\<close>

datatype app_op =
    Loop peer_event
  | Connect "string \<Rightarrow> discovery \<Rightarrow> discovery" string string time string string
  | Disconnect string

fun app_step :: "peer_env \<Rightarrow> peer \<Rightarrow> app_op \<Rightarrow> peer" where
  "app_step env p (Loop e) = peer_step env p e"
| "app_step env p (Connect meanwhile lan tag now username ip) = fst (route_connect env meanwhile lan tag now username ip p)"
| "app_step env p (Disconnect username) = fst (route_disconnect env username p)"

definition app_inv :: "peer \<Rightarrow> bool" where
  "app_inv p \<longleftrightarrow> (pa_connected p \<longrightarrow> cs_disc (pa_chat p) \<noteq> None) \<and> chat_wf (pa_chat p)"

lemma app_inv_loop: "app_inv p \<Longrightarrow> app_inv (peer_step env p e)"
  by (cases e)
    (auto simp: app_inv_def peer_receive_def peer_broadcast_def peer_drain_def peer_sync_def case_prod_beta Let_def deliver_each_keeps
      simp del: not_None_eq)

lemma connect_disc: "cs_disc (fst (connect rf env prep meanwhile ctx lan uuid now name ip cs)) \<noteq> None"
  by (auto simp: connect_def Let_def case_prod_beta events_disc request_history_frame split: option.splits sum.splits)

lemma app_inv_connect: "app_inv p \<Longrightarrow> app_inv (fst (route_connect env meanwhile lan tag now username ip p))"
  using connect_disc[of "app_refreshes (pe_renders env)" "pe_store env" "decrypt_into (pe_node env) (pa_node p)" meanwhile True lan tag now
      "py_strip username" "py_strip ip" "pa_chat p"]
    chat_wf_connect[of "pa_chat p" "app_refreshes (pe_renders env)" "pe_store env" "decrypt_into (pe_node env) (pa_node p)" meanwhile True
      lan tag now "py_strip username" "py_strip ip"]
  by (auto simp: app_inv_def route_connect_def Let_def case_prod_beta split: option.split)

lemma app_inv_disconnect: "app_inv p \<Longrightarrow> app_inv (fst (route_disconnect env username p))"
  using chat_wf_disconnect[of "pa_chat p" "app_refreshes (pe_renders env)" True "py_strip username"]
  by (simp add: app_inv_def route_disconnect_def Let_def case_prod_beta)

interpretation app_run: inv_system "app_step env" app_inv "\<lambda>_. True" for env
proof
  show "app_inv (app_step env p op)" if "app_inv p" for p op
    using that by (cases op) (simp_all add: app_inv_loop app_inv_connect app_inv_disconnect)
qed

text \<open>C40. The application stays consistent. Whatever messages the node's loop handles and whatever connects and
  disconnects the user asks for, in any order and also when callbacks raise, the page says connected only
  while the chat service has a discovery node, lists no user twice, and the registry the node
  sends to lists no peer twice.\<close>

theorem app_consistent:
  assumes "main_peer env0 d ws lan_ip pk = Inr p"
  shows "let p' = foldl (app_step env) p ops; v = index_view p' in
    (vw_connected v \<longrightarrow> cs_disc (pa_chat p') \<noteq> None) \<and> distinct (map us_name (vw_users v)) \<and>
    distinct (get_peers (cs_registry (pa_chat p')))"
proof -
  have "app_inv p"
    using assms by (auto simp: app_inv_def main_peer_def Let_def case_prod_beta start_def new_chat_service_def chat_wf_def
        registry_wf_def split: if_splits)
  from app_run.inv_run[OF this, of ops env] show ?thesis
    by (simp add: Let_def index_view_def app_inv_def chat_wf_def registry_wf_def)
qed

theorem app_consistent_witness:
  "let p' = foldl (app_step (demo_peer_env id)) (demo_main id) [Loop (PDrain 1), Disconnect ''u''] in
    distinct (map us_name (vw_users (index_view p'))) \<and> distinct (get_peers (cs_registry (pa_chat p')))"
  using app_consistent[OF demo_main_started[of id], of "demo_peer_env id" "[Loop (PDrain 1), Disconnect ''u'']"]
  unfolding Let_def by blast

text \<open>Posting an empty text sends nothing; any other text is broadcast once, stripped, under the node's address.\<close>

lemma route_post_outcome:
  "route_post mid now text p =
     (if py_strip text = [] \<or> \<not> n_running (pa_node p) then []
      else [DoBroadcast (posted_message mid now (py_strip text) (pa_node p))])"
  by (simp add: route_post_def broadcast_def Let_def)

text \<open>The port picked is the first that can be bound, and none is picked only if none can.\<close>

lemma pick_free_port_first:
  "pick_free_port bindable a b = Some p \<longleftrightarrow> a \<le> p \<and> p \<le> b \<and> bindable p \<and> (\<forall>q. a \<le> q \<and> q < p \<longrightarrow> \<not> bindable q)"
proof -
  have "pick_free_port bindable a b = Some p \<longleftrightarrow>
      (\<exists>i < length [a..b]. bindable ([a..b] ! i) \<and> p = [a..b] ! i \<and> (\<forall>j<i. \<not> bindable ([a..b] ! j)))"
    by (simp add: pick_free_port_def find_Some_iff)
  also have "\<dots> \<longleftrightarrow> (\<exists>i < nat (b - a + 1). bindable (a + int i) \<and> p = a + int i \<and> (\<forall>j<i. \<not> bindable (a + int j)))"
    by (intro ex_cong1) auto
  also have "\<dots> \<longleftrightarrow> a \<le> p \<and> p \<le> b \<and> bindable p \<and> (\<forall>q. a \<le> q \<and> q < p \<longrightarrow> \<not> bindable q)"
    (is "?l \<longleftrightarrow> ?r")
  proof
    assume ?r
    then have "\<not> bindable (a + int j)" if "j < nat (p - a)" for j using that by (simp add: zless_nat_eq_int_zless)
    with \<open>?r\<close> show ?l by (intro exI[of _ "nat (p - a)"]) auto
  next
    assume ?l
    then obtain i where i: "i < nat (b - a + 1)" "bindable (a + int i)" "p = a + int i" "\<forall>j<i. \<not> bindable (a + int j)" by blast
    have "\<not> bindable q" if "a \<le> q" "q < p" for q
      using i(4)[rule_format, of "nat (q - a)"] that i(3) by simp
    with i(1-3) show ?r by auto
  qed
  finally show ?thesis .
qed

lemma mock_switch_inverted: "mock_data_enabled [(''MOCK_DATA_ENABLED'', ''false'')]" "\<not> mock_data_enabled [(''MOCK_DATA_ENABLED'', ''true'')]"
  "\<not> mock_data_enabled []"
  by code_simp+

end
