(* ===== verification/Run_Report.thy ===== *)
theory Run_Report
  imports Causal_Check "HOL-Library.Char_ord" "HOL-Library.List_Lexorder"
begin

text \<open>
  \<open>analyze\<close> of \<open>harness/causal_check.py\<close>: the report over every peer's collected log. The logs are
  dictionaries from pods to delivery records, the sent records are represented by their
  identifiers. A record with a send time and no receive time makes the code raise
  (\<open>None\<close>) when its sender is another pod.

  Shown: a report without violations, missing messages and duplicates means that every peer
  delivered every message exactly once in causal order.
\<close>

section \<open>The report\<close>

record pod_report =
  pr_pod :: string
  pr_sent :: nat
  pr_delivered :: nat
  pr_unique :: nat
  pr_duplicates :: nat
  pr_missing :: nat
  pr_violations :: nat
  pr_latency :: latency_report
  pr_final_clock :: clock

record run_report =
  rr_messages_sent :: nat
  rr_unique_ids :: nat
  rr_peers :: nat
  rr_total_delivered :: nat
  rr_expected :: nat
  rr_violations_total :: nat
  rr_violating :: nat
  rr_by_kind :: "(violation_kind, nat) dict"
  rr_past_timeout :: nat
  rr_latency :: latency_report
  rr_per_pod :: "pod_report list"
  rr_samples :: "violation list"

definition sent_ids :: "(string, string list) dict \<Rightarrow> string set" where
  "sent_ids per_pod_sent = set (concat (map snd per_pod_sent))"

definition pod_entry ::
  "(string, string list) dict \<Rightarrow> (string, clock) dict \<Rightarrow> string \<Rightarrow> delivery list \<Rightarrow> pod_report \<times> violation list" where
  "pod_entry per_pod_sent baselines pod dls =
     (let res = check_peer_log pod dls (get_or baselines pod []) in
      (\<lparr>pr_pod = pod, pr_sent = length (get_or per_pod_sent pod []), pr_delivered = cr_delivered res,
        pr_unique = cr_unique res, pr_duplicates = cr_duplicates res,
        pr_missing = card (sent_ids per_pod_sent - dv_id ` set dls),
        pr_violations = length (cr_violations res), pr_latency = latency_stats dls True (Some pod),
        pr_final_clock = cr_final_clock res\<rparr>, cr_violations res))"

text \<open>The samples over all peers: unlike \<open>latency_stats\<close>, this loop does not skip records without
  a receive time.\<close>

fun remote_samples :: "string \<Rightarrow> delivery list \<Rightarrow> rat list option" where
  "remote_samples pod [] = Some []"
| "remote_samples pod (r # rs) =
     (case dv_ts_send r of
        None \<Rightarrow> remote_samples pod rs
      | Some ts \<Rightarrow>
          if dv_sender r = pod then remote_samples pod rs
          else (case dv_ts_recv r of
                  None \<Rightarrow> None
                | Some tr \<Rightarrow> map_option (\<lambda>xs. (tr - ts) * 1000 # xs) (remote_samples pod rs)))"

fun all_samples :: "(string \<times> delivery list) list \<Rightarrow> rat list option" where
  "all_samples [] = Some []"
| "all_samples ((pod, dls) # rest) =
     (case (remote_samples pod dls, all_samples rest) of
        (Some xs, Some ys) \<Rightarrow> Some (xs @ ys)
      | _ \<Rightarrow> None)"

definition overall_latency :: "rat list \<Rightarrow> latency_report" where
  "overall_latency xs =
     \<lparr>lr_count = length xs, lr_p50 = map_option round2 (percentile xs 50), lr_p95 = map_option round2 (percentile xs 95),
      lr_p99 = map_option round2 (percentile xs 99),
      lr_max = (if xs = [] then None else Some (round2 (Max (set xs)))), lr_mean = None\<rparr>"

definition analyze ::
  "(string, delivery list) dict \<Rightarrow> (string, string list) dict \<Rightarrow> (string, clock) dict \<Rightarrow> run_report option" where
  "analyze per_pod_deliveries per_pod_sent per_pod_baseline =
     (let pods = sort_key fst per_pod_deliveries;
          total_sent = sum_list (map (\<lambda>(_, ids). length ids) per_pod_sent);
          entries = map (\<lambda>(pod, dls). pod_entry per_pod_sent per_pod_baseline pod dls) pods;
          all_violations = concat (map snd entries)
      in map_option (\<lambda>samples.
           \<lparr>rr_messages_sent = total_sent, rr_unique_ids = card (sent_ids per_pod_sent), rr_peers = length per_pod_deliveries,
            rr_total_delivered = sum_list (map (\<lambda>(_, dls). length dls) per_pod_deliveries),
            rr_expected = total_sent * length per_pod_deliveries,
            rr_violations_total = length all_violations,
            rr_violating = card ((\<lambda>v. (vl_pod v, vl_seq v)) ` set all_violations),
            rr_by_kind = foldl (\<lambda>d v. dict_set (vl_kind v) (get_or d (vl_kind v) 0 + 1) d) [] all_violations,
            rr_past_timeout = length (filter (\<lambda>v. (case vl_held_ms v of None \<Rightarrow> 0 | Some h \<Rightarrow> h) \<ge> 5000) all_violations),
            rr_latency = overall_latency samples, rr_per_pod = map fst entries,
            rr_samples = take 20 all_violations\<rparr>) (all_samples pods))"

section \<open>Duplicates\<close>

lemma check_run_ids:
  "cs_seen (foldl (check_record pod) st rs) = cs_seen st \<union> dv_id ` set rs \<and>
   cs_duplicates st \<le> cs_duplicates (foldl (check_record pod) st rs) \<and>
   (cs_duplicates (foldl (check_record pod) st rs) = cs_duplicates st \<longleftrightarrow>
      distinct (map dv_id rs) \<and> dv_id ` set rs \<inter> cs_seen st = {})"
proof (induction rs arbitrary: st)
  case (Cons r rs)
  let ?st = "check_record pod st r"
  have s: "cs_seen ?st = insert (dv_id r) (cs_seen st)"
    "cs_duplicates ?st = (if dv_id r \<in> cs_seen st then cs_duplicates st + 1 else cs_duplicates st)"
    by (simp_all add: check_record_def case_prod_beta Let_def)
  show ?case using Cons.IH[of ?st] s by (auto split: if_splits)
qed simp

lemma no_duplicates_iff: "cr_duplicates (check_peer_log pod rs base) = 0 \<longleftrightarrow> distinct (map dv_id rs)"
  using check_run_ids[of pod "\<lparr>cs_delivered = dict_update [] base, cs_violations = [], cs_seen = {}, cs_duplicates = 0\<rparr>" rs]
  by (simp add: check_peer_log_def Let_def)

lemma analyze_fields:
  assumes "analyze dels sent_by base = Some rep"
  shows "rr_per_pod rep = map (\<lambda>(pod, dls). fst (pod_entry sent_by base pod dls)) (sort_key fst dels)"
    and "rr_violations_total rep = sum_list (map pr_violations (rr_per_pod rep))"
  using assms by (auto simp: analyze_def Let_def comp_def length_concat pod_entry_def intro!: arg_cong[of _ _ sum_list])

lemma entry_violations_iff:
  assumes "wf_clock (get_or base pod [])" "\<forall>r \<in> set dls. wf_clock (dv_vc r)"
  shows "pr_violations (fst (pod_entry sent_by base pod dls)) = 0 \<longleftrightarrow> cbcast_log (vc_get (get_or base pod [])) dls"
  using assms by (simp add: pod_entry_def Let_def check_peer_log_iff)

lemma report_violations_iff:
  assumes "analyze dels sent_by base = Some rep"
    and "\<forall>(pod, dls) \<in> set dels. wf_clock (get_or base pod []) \<and> (\<forall>r \<in> set dls. wf_clock (dv_vc r))"
  shows "rr_violations_total rep = 0 \<longleftrightarrow> (\<forall>(pod, dls) \<in> set dels. cbcast_log (vc_get (get_or base pod [])) dls)"
proof -
  have "rr_violations_total rep = 0 \<longleftrightarrow> (\<forall>(pod, dls) \<in> set dels. pr_violations (fst (pod_entry sent_by base pod dls)) = 0)"
    unfolding analyze_fields[OF assms(1)] by auto
  also have "\<dots> \<longleftrightarrow> (\<forall>(pod, dls) \<in> set dels. cbcast_log (vc_get (get_or base pod [])) dls)"
    using assms(2) entry_violations_iff by fastforce
  finally show ?thesis .
qed

lemma entry_complete_iff:
  "pr_duplicates (fst (pod_entry sent_by base pod dls)) = 0 \<and> pr_missing (fst (pod_entry sent_by base pod dls)) = 0 \<longleftrightarrow>
   distinct (map dv_id dls) \<and> sent_ids sent_by \<subseteq> dv_id ` set dls"
  by (simp add: pod_entry_def Let_def no_duplicates_iff sent_ids_def)

text \<open>C33. A clean report means what it says. Whatever the logs, the report has no violation exactly when
  every peer's log satisfies the causal delivery rule from its baseline; and a peer's entry shows
  no duplicate and nothing missing exactly when its log names every sent message and no message
  twice.\<close>

theorem report_sound:
  assumes "analyze dels sent_by base = Some rep"
    and "\<forall>(pod, dls) \<in> set dels. wf_clock (get_or base pod []) \<and> (\<forall>r \<in> set dls. wf_clock (dv_vc r))"
  shows "(rr_violations_total rep = 0 \<longleftrightarrow> (\<forall>(pod, dls) \<in> set dels. cbcast_log (vc_get (get_or base pod [])) dls)) \<and>
    (\<forall>(pod, dls) \<in> set dels. \<exists>e \<in> set (rr_per_pod rep). pr_pod e = pod \<and>
       (pr_duplicates e = 0 \<and> pr_missing e = 0 \<longleftrightarrow> distinct (map dv_id dls) \<and> sent_ids sent_by \<subseteq> dv_id ` set dls))"
proof -
  have "\<exists>e \<in> set (rr_per_pod rep). pr_pod e = pod \<and>
       (pr_duplicates e = 0 \<and> pr_missing e = 0 \<longleftrightarrow> distinct (map dv_id dls) \<and> sent_ids sent_by \<subseteq> dv_id ` set dls)"
    if "(pod, dls) \<in> set dels" for pod dls
  proof (intro bexI conjI)
    show "fst (pod_entry sent_by base pod dls) \<in> set (rr_per_pod rep)"
      unfolding analyze_fields(1)[OF assms(1)] using that by force
  qed (simp add: pod_entry_def Let_def, rule entry_complete_iff)
  with report_violations_iff[OF assms] show ?thesis by blast
qed

definition demo_delivery :: "string \<Rightarrow> int \<Rightarrow> delivery" where
  "demo_delivery i k = \<lparr>dv_seq = k, dv_id = i, dv_sender = ''a'', dv_vc = [(''a'', k)], dv_ts_recv = Some 2, dv_ts_send = Some 1\<rparr>"

theorem report_sound_witness:
  "let dels = [(''b'', [demo_delivery ''m1'' 1, demo_delivery ''m2'' 2]), (''a'', [demo_delivery ''m1'' 1])];
       rep = analyze dels [(''a'', [''m1'', ''m2''])] []
   in rep \<noteq> None \<and> rr_violations_total (the rep) = 0 \<and>
      (\<forall>(pod, dls) \<in> set dels. cbcast_log (vc_get (get_or [] pod [])) dls)"
proof -
  let ?dels = "[(''b'', [demo_delivery ''m1'' 1, demo_delivery ''m2'' 2]), (''a'', [demo_delivery ''m1'' 1])]"
  let ?rep = "analyze ?dels [(''a'', [''m1'', ''m2''])] []"
  have z: "map_option rr_violations_total ?rep = Some 0" by code_simp
  then obtain rep where rep: "?rep = Some rep" "rr_violations_total rep = 0" by auto
  have "wf_clock [(''a'', k)]" if "0 \<le> k" for k :: int using that by (auto simp: wf_clock_def get_or_def)
  then have "\<forall>(pod, dls) \<in> set ?dels. wf_clock (get_or [] pod []) \<and> (\<forall>r \<in> set dls. wf_clock (dv_vc r))"
    by (simp add: demo_delivery_def)
  from conjunct1[OF report_sound[OF rep(1) this]] rep show ?thesis unfolding Let_def by simp
qed

end
