(* ===== verification/Harness_Driver.thy ===== *)
theory Harness_Driver
  imports Run_Report Peer_Runtime
begin

text \<open>
  \<open>harness/driver.py\<close>: waiting for the pods, dividing the
  messages among the senders, waiting for convergence, collecting the logs, the report and the
  exit code.

  The cluster is the environment of a run: what every request returns (\<open>None\<close> when it raises)
  and the readings of the clock, indexed by the round of the loop that asks. The two waiting
  loops run until the clock says so and are \<open>partial_function\<close>s: \<open>None\<close> is a loop that
  never ends. Console output and the files for the raw dump and the report are left out.
\<close>

section \<open>Requests\<close>

definition peer_urls :: "string \<Rightarrow> string \<Rightarrow> string \<Rightarrow> nat \<Rightarrow> int \<Rightarrow> string \<Rightarrow> string list" where
  "peer_urls service namespace domain replicas port stem =
     map (\<lambda>i. ''http://'' @ stem @ ''-'' @ nat_str i @ ''.'' @ service @ ''.'' @ namespace @ ''.svc.'' @ domain @ '':'' @
            int_str port) [0..<replicas]"

text \<open>\<open>_request\<close>: \<open>urlopen\<close> raises without a connection and on an error status.\<close>

definition request :: "(int \<times> json) option \<Rightarrow> json option" where
  "request reply =
     (case reply of None \<Rightarrow> None | Some (code, body) \<Rightarrow> if 200 \<le> code \<and> code < 300 then Some body else None)"

text \<open>\<open>url.split("//", 1)[1].split(".", 1)[0]\<close>.\<close>

fun after_slashes :: "string \<Rightarrow> string option" where
  "after_slashes (c # d # rest) = (if c = CHR ''/'' \<and> d = CHR ''/'' then Some rest else after_slashes (d # rest))"
| "after_slashes _ = None"

definition pod_guess :: "string \<Rightarrow> string option" where
  "pod_guess url = map_option (takeWhile (\<lambda>c. c \<noteq> CHR ''.'')) (after_slashes url)"

datatype driver_error = NeverReady "string list" | NoSenders | NoRound | BadCount | BadLog

section \<open>Waiting until every pod is ready\<close>

text \<open>\<open>rd_test\<close> is the reading in the loop condition, \<open>rd_end\<close> the one of the \<open>return\<close>; \<open>rd_reply\<close> the
  replies to \<open>/readyz\<close> in the round. The set of pending pods is a list without duplicates.\<close>

record ready_round =
  rd_test :: time
  rd_reply :: "string \<Rightarrow> json option"
  rd_end :: time

definition still_pending :: "ready_round \<Rightarrow> string list \<Rightarrow> string list" where
  "still_pending r pending = filter (\<lambda>u. rd_reply r u = None) pending"

partial_function (option) ready_loop ::
  "(nat \<Rightarrow> ready_round) \<Rightarrow> time \<Rightarrow> time \<Rightarrow> nat \<Rightarrow> string list \<Rightarrow> (driver_error + time) option" where
  "ready_loop env started timeout k pending =
     (if pending \<noteq> [] \<and> rd_test (env k) - started < timeout
      then ready_loop env started timeout (Suc k) (still_pending (env k) pending)
      else Some (if pending \<noteq> [] then Inl (NeverReady (sort pending)) else Inr (rd_end (env k) - started)))"

declare ready_loop.simps [code]

definition wait_ready :: "(nat \<Rightarrow> ready_round) \<Rightarrow> time \<Rightarrow> string list \<Rightarrow> time \<Rightarrow> (driver_error + time) option" where
  "wait_ready env started urls timeout = ready_loop env started timeout 0 (remdups urls)"

section \<open>Waiting for convergence\<close>

text \<open>\<open>cv_test\<close>: the reading in the loop condition; \<open>cv_reply\<close>: the replies to \<open>/status\<close>; \<open>cv_now\<close>: the
  reading after the polling; \<open>cv_end\<close>: the reading of a \<open>return\<close> that reads the clock again.\<close>

record conv_round =
  cv_test :: time
  cv_reply :: "string \<Rightarrow> json option"
  cv_now :: time
  cv_end :: time

datatype stop_reason = NoProgress time | TimedOut

record convergence =
  cg_converged :: bool
  cg_reason :: "stop_reason option"
  cg_seconds :: rat
  cg_counts :: "(string \<times> int) list"

text \<open>\<open>["delivered"]\<close> of a status, \<open>-1\<close> when the request or the access raises. \<open>None\<close>: a value that
  cannot be compared with a number, which raises; the control server sends integers.\<close>

definition count_of :: "json option \<Rightarrow> int option" where
  "count_of reply =
     (case reply of
        None \<Rightarrow> Some (- 1)
      | Some v \<Rightarrow> (case jget v ''delivered'' of None \<Rightarrow> Some (- 1) | Some c \<Rightarrow> as_int c))"

definition poll_counts :: "string list \<Rightarrow> conv_round \<Rightarrow> (string \<times> int) list option" where
  "poll_counts urls r = those (map (\<lambda>u. map_option (Pair u) (count_of (cv_reply r u))) urls)"

definition total_count :: "(string \<times> int) list \<Rightarrow> int" where
  "total_count cs = sum_list (map (\<lambda>(_, c). max 0 c) cs)"

partial_function (option) conv_loop ::
  "(nat \<Rightarrow> conv_round) \<Rightarrow> time \<Rightarrow> string list \<Rightarrow> int \<Rightarrow> time \<Rightarrow> time \<Rightarrow> nat \<Rightarrow> int \<Rightarrow> time \<Rightarrow>
   (string \<times> int) list option \<Rightarrow> (driver_error + convergence) option" where
  "conv_loop env started urls expected timeout stall_after k last_total last_progress prev =
     (if cv_test (env k) - started < timeout then
        (case poll_counts urls (env k) of
           None \<Rightarrow> Some (Inl BadCount)
         | Some cs \<Rightarrow>
             if list_all (\<lambda>(_, c). expected \<le> c) cs then
               Some (Inr \<lparr>cg_converged = True, cg_reason = None, cg_seconds = round2 (cv_now (env k) - started),
                          cg_counts = cs\<rparr>)
             else if total_count cs \<noteq> last_total then
               conv_loop env started urls expected timeout stall_after (Suc k) (total_count cs) (cv_now (env k)) (Some cs)
             else if cv_now (env k) - last_progress > stall_after then
               Some (Inr \<lparr>cg_converged = False, cg_reason = Some (NoProgress stall_after),
                          cg_seconds = round2 (cv_end (env k) - started), cg_counts = cs\<rparr>)
             else conv_loop env started urls expected timeout stall_after (Suc k) last_total last_progress (Some cs))
      else
        Some (case prev of
                None \<Rightarrow> Inl NoRound
              | Some cs \<Rightarrow> Inr \<lparr>cg_converged = False, cg_reason = Some TimedOut,
                                cg_seconds = round2 (cv_end (env k) - started), cg_counts = cs\<rparr>))"

declare conv_loop.simps [code]

text \<open>\<open>progress0\<close> is the second reading at the start. The default of \<open>stall_after\<close> is thirty seconds.\<close>

definition wait_convergence ::
  "(nat \<Rightarrow> conv_round) \<Rightarrow> time \<Rightarrow> time \<Rightarrow> string list \<Rightarrow> int \<Rightarrow> time \<Rightarrow> time \<Rightarrow> (driver_error + convergence) option" where
  "wait_convergence env started progress0 urls expected timeout stall_after =
     conv_loop env started urls expected timeout stall_after 0 (- 1) progress0 None"

section \<open>Collecting\<close>

text \<open>The bodies of \<open>/deliveries\<close> and \<open>/sent\<close> as the checker reads them. Records that lack a field
  the control server writes are outside the model and read as \<open>BadLog\<close>.\<close>

definition read_clock :: "json \<Rightarrow> clock option" where
  "read_clock v = Option.bind (as_obj v) (\<lambda>kvs. those (map (\<lambda>(k, c). map_option (Pair k) (as_int c)) kvs))"

definition read_time :: "json \<Rightarrow> time option option" where
  "read_time v = (case v of JNull \<Rightarrow> Some None | _ \<Rightarrow> map_option Some (as_float v))"

definition read_delivery :: "json \<Rightarrow> delivery option" where
  "read_delivery v =
     (case (Option.bind (jget v ''seq'') as_int, Option.bind (jget v ''id'') as_str, Option.bind (jget v ''sender'') as_str,
            Option.bind (jget v ''vc'') read_clock, Option.bind (jget v ''ts_recv'') read_time,
            Option.bind (jget v ''ts_send'') read_time) of
        (Some q, Some i, Some s, Some vc, Some tr, Some ts) \<Rightarrow>
          Some \<lparr>dv_seq = q, dv_id = i, dv_sender = s, dv_vc = vc, dv_ts_recv = tr, dv_ts_send = ts\<rparr>
      | _ \<Rightarrow> None)"

record pod_logs =
  lg_pod :: string
  lg_deliveries :: "delivery list"
  lg_sent :: "string list"
  lg_baseline :: clock

definition read_logs :: "json \<Rightarrow> json \<Rightarrow> pod_logs option" where
  "read_logs d s =
     (case (Option.bind (jget d ''pod'') as_str,
            Option.bind (Option.bind (jget d ''deliveries'') as_list) (\<lambda>xs. those (map read_delivery xs)),
            Option.bind (Option.bind (jget s ''sent'') as_list)
              (\<lambda>xs. those (map (\<lambda>x. Option.bind (jget x ''id'') as_str) xs)),
            (case jget d ''baseline_vc'' of None \<Rightarrow> Some [] | Some v \<Rightarrow> read_clock v)) of
        (Some pod, Some dls, Some ids, Some base) \<Rightarrow>
          Some \<lparr>lg_pod = pod, lg_deliveries = dls, lg_sent = ids, lg_baseline = base\<rparr>
      | _ \<Rightarrow> None)"

text \<open>\<open>fetch\<close>: \<open>get path url\<close> is the reply to a request. An unreachable pod has empty logs.\<close>

definition fetch :: "(string \<Rightarrow> string \<Rightarrow> json option) \<Rightarrow> string \<Rightarrow> pod_logs option" where
  "fetch get url =
     Option.bind (pod_guess url) (\<lambda>pod.
       case get ''/deliveries'' url of
         None \<Rightarrow> Some \<lparr>lg_pod = pod, lg_deliveries = [], lg_sent = [], lg_baseline = []\<rparr>
       | Some d \<Rightarrow>
           (case get ''/sent'' url of
              None \<Rightarrow> Some \<lparr>lg_pod = pod, lg_deliveries = [], lg_sent = [], lg_baseline = []\<rparr>
            | Some s \<Rightarrow> read_logs d s))"

definition collect ::
  "(string \<Rightarrow> string \<Rightarrow> json option) \<Rightarrow> string list \<Rightarrow>
   ((string, delivery list) dict \<times> (string, string list) dict \<times> (string, clock) dict) option" where
  "collect get urls =
     map_option (foldl (\<lambda>(ds, ss, bs) l. (dict_set (lg_pod l) (lg_deliveries l) ds, dict_set (lg_pod l) (lg_sent l) ss,
                                        dict_set (lg_pod l) (lg_baseline l) bs)) ([], [], []))
       (those (map (fetch get) urls))"

section \<open>The run\<close>

text \<open>How many messages each sender originates; \<open>None\<close> is \<open>ZeroDivisionError\<close>.\<close>

definition send_plan :: "int \<Rightarrow> nat \<Rightarrow> int list option" where
  "send_plan messages senders =
     (if senders = 0 then None
      else let per_sender = messages div int senders; remainder = messages - per_sender * int senders
           in Some (map (\<lambda>i. per_sender + (if int i < remainder then 1 else 0)) [0..<senders]))"

record driver_args =
  da_messages :: int
  da_peers :: nat
  da_senders :: nat
  da_rate :: rat
  da_service :: string
  da_namespace :: string
  da_domain :: string
  da_stem :: string
  da_control_port :: int
  da_prefix :: string
  da_ready_timeout :: time
  da_converge_timeout :: time
  da_reset :: bool

text \<open>The cluster as a run sees it. \<open>ce_send\<close>: the replies to the \<open>/send\<close> requests with the text of the
  exception; \<open>ce_t0\<close>, \<open>ce_t1\<close>: the readings around origination; \<open>ce_get\<close>: the replies at
  collection.\<close>

record cluster_env =
  ce_ready_started :: time
  ce_ready :: "nat \<Rightarrow> ready_round"
  ce_t0 :: time
  ce_t1 :: time
  ce_send :: "string \<Rightarrow> string + json"
  ce_conv_started :: time
  ce_conv_progress :: time
  ce_conv :: "nat \<Rightarrow> conv_round"
  ce_get :: "string \<Rightarrow> string \<Rightarrow> json option"

record driver_report =
  dr_ready_wait :: rat
  dr_planned :: int
  dr_plan :: "(string \<times> int) list"
  dr_send_wall :: rat
  dr_throughput :: "rat option"
  dr_convergence :: convergence
  dr_analysis :: run_report
  dr_send_results :: "json list"

definition round1 :: "rat \<Rightarrow> rat" where
  "round1 x =
     (let y = x * 10; f = \<lfloor>y\<rfloor>; d = y - of_int f;
          r = (if d < 1 / 2 then f else if d > 1 / 2 then f + 1 else if even f then f else f + 1)
      in of_int r / 10)"

text \<open>\<open>_drive\<close>: the result of one sender.\<close>

definition drive :: "(string \<Rightarrow> string + json) \<Rightarrow> string \<times> int \<Rightarrow> json option" where
  "drive send job =
     (case send (fst job) of
        Inr reply \<Rightarrow> Some reply
      | Inl exc \<Rightarrow> map_option (\<lambda>pod. JObj [(''peer'', JStr pod), (''requested'', JInt (snd job)), (''error'', JStr exc),
                                            (''interrupted'', JBool True)]) (pod_guess (fst job)))"

definition args_urls :: "driver_args \<Rightarrow> string list" where
  "args_urls a = peer_urls (da_service a) (da_namespace a) (da_domain a) (da_peers a) (da_control_port a) (da_stem a)"

text \<open>The part of \<open>run\<close> after origination.\<close>

definition finish_run ::
  "driver_args \<Rightarrow> cluster_env \<Rightarrow> time \<Rightarrow> (string \<times> int) list \<Rightarrow> (driver_error + driver_report) option" where
  "finish_run a env ready_s jobs =
     (case wait_convergence (ce_conv env) (ce_conv_started env) (ce_conv_progress env) (args_urls a) (da_messages a)
             (da_converge_timeout a) 30 of
        None \<Rightarrow> None
      | Some (Inl e) \<Rightarrow> Some (Inl e)
      | Some (Inr conv) \<Rightarrow> Some
          (case collect (ce_get env) (args_urls a) of
             None \<Rightarrow> Inl BadLog
           | Some (ds, ss, bs) \<Rightarrow>
               (case (analyze ds ss bs, those (map (drive (ce_send env)) jobs),
                      those (map (\<lambda>(u, n). map_option (\<lambda>p. (p, n)) (pod_guess u)) jobs)) of
                  (Some rep, Some results, Some plan) \<Rightarrow>
                    let wall = ce_t1 env - ce_t0 env in
                    Inr \<lparr>dr_ready_wait = round2 ready_s, dr_planned = da_messages a,
                         dr_plan = foldl (\<lambda>d (p, n). dict_set p n d) [] plan, dr_send_wall = round2 wall,
                         dr_throughput = (if wall = 0 then None else Some (round1 (of_int (da_messages a) / wall))),
                         dr_convergence = conv, dr_analysis = rep, dr_send_results = results\<rparr>
                | _ \<Rightarrow> Inl BadLog)))"

text \<open>The requests a run posts, in order: the resets, whose failures are ignored, and the sends.\<close>

definition posted :: "driver_args \<Rightarrow> (string \<times> int) list \<Rightarrow> (string \<times> string \<times> json) list" where
  "posted a jobs =
     (if da_reset a then map (\<lambda>u. (u, ''/reset'', JObj [])) (args_urls a) else []) @
     map (\<lambda>(u, n). (u, ''/send'', JObj [(''count'', JInt n), (''rate'', JFloat (da_rate a)), (''prefix'', JStr (da_prefix a))])) jobs"

definition run ::
  "driver_args \<Rightarrow> cluster_env \<Rightarrow> ((string \<times> string \<times> json) list \<times> (driver_error + driver_report)) option" where
  "run a env =
     (let urls = args_urls a; senders = take (da_senders a) urls in
      case wait_ready (ce_ready env) (ce_ready_started env) urls (da_ready_timeout a) of
        None \<Rightarrow> None
      | Some (Inl e) \<Rightarrow> Some ([], Inl e)
      | Some (Inr ready_s) \<Rightarrow>
          (case send_plan (da_messages a) (length senders) of
             None \<Rightarrow> Some (posted a [], Inl NoSenders)
           | Some plan \<Rightarrow> map_option (Pair (posted a (zip senders plan))) (finish_run a env ready_s (zip senders plan))))"

text \<open>\<open>main\<close>: zero senders means all; the exit code of a run that returns.\<close>

definition driver_main ::
  "driver_args \<Rightarrow> cluster_env \<Rightarrow> (driver_error + driver_report \<times> int) option" where
  "driver_main a env =
     (let a' = (if da_senders a = 0 then a\<lparr>da_senders := da_peers a\<rparr> else a) in
      map_option (\<lambda>(_, res). map_sum id (\<lambda>rep. (rep, if rr_violations_total (dr_analysis rep) = 0 then 0 else 2)) res) (run a' env))"

end
