(* ===== verification/Harness_Properties.thy ===== *)
theory Harness_Properties
  imports Harness_Driver
begin

text \<open>
  Properties of the driver: its waiting loops end and say what happened, the messages are
  divided evenly, and the exit code is the verdict on the logs of the pods that answered.
\<close>

section \<open>Sleeping loops\<close>

text \<open>A loop that sleeps \<open>d\<close> seconds in every round reaches any time.\<close>

lemma sleep_reaches:
  fixes t :: "nat \<Rightarrow> rat"
  assumes "0 < d"
  shows "\<exists>n. c \<le> t 0 + d * of_nat n"
proof -
  obtain n where "(c - t 0) / d < of_nat n" using reals_Archimedean2[of "(c - t 0) / d"] by blast
  then have "c - t 0 < d * of_nat n" using assms by (simp add: pos_divide_less_eq mult.commute)
  then show ?thesis by (intro exI[of _ n]) simp
qed

lemma sleep_step:
  fixes t :: "nat \<Rightarrow> rat"
  assumes "\<forall>k. t k + d \<le> t (Suc k)" "c \<le> t k + d * of_nat (Suc n)"
  shows "c \<le> t (Suc k) + d * of_nat n"
  using assms(1)[rule_format, of k] assms(2) by (simp add: algebra_simps)

section \<open>Waiting\<close>

definition waiting_for :: "(nat \<Rightarrow> ready_round) \<Rightarrow> nat \<Rightarrow> string list \<Rightarrow> string list" where
  "waiting_for env k urls = filter (\<lambda>u. \<forall>j<k. rd_reply (env j) u = None) urls"

lemma ready_loop_returns:
  assumes tick: "\<forall>k. rd_test (env k) + 1 \<le> rd_test (env (Suc k))"
    and "started + timeout \<le> rd_test (env k) + 1 * of_nat n"
    and "pending = waiting_for env k urls"
  shows "\<exists>m\<ge>k. (\<forall>j. k \<le> j \<and> j < m \<longrightarrow> rd_test (env j) - started < timeout) \<and>
    ready_loop env started timeout k pending =
      Some (if waiting_for env m urls = [] then Inr (rd_end (env m) - started)
            else Inl (NeverReady (sort (waiting_for env m urls)))) \<and>
    (waiting_for env m urls \<noteq> [] \<longrightarrow> timeout \<le> rd_test (env m) - started)"
  using assms(2,3)
proof (induction n arbitrary: k pending)
  case 0
  then show ?case by (intro exI[of _ k]) (auto simp: ready_loop.simps[of env started timeout k])
next
  case (Suc n)
  show ?case
  proof (cases "pending \<noteq> [] \<and> rd_test (env k) - started < timeout")
    case True
    have "still_pending (env k) pending = waiting_for env (Suc k) urls"
      by (auto simp: Suc.prems(2) still_pending_def waiting_for_def less_Suc_eq intro!: filter_cong)
    from Suc.IH[OF sleep_step[of "\<lambda>k. rd_test (env k)", OF tick Suc.prems(1)] this]
    obtain m where m: "m \<ge> Suc k" "\<forall>j. Suc k \<le> j \<and> j < m \<longrightarrow> rd_test (env j) - started < timeout"
      "ready_loop env started timeout (Suc k) (still_pending (env k) pending) =
        Some (if waiting_for env m urls = [] then Inr (rd_end (env m) - started)
              else Inl (NeverReady (sort (waiting_for env m urls))))"
      "waiting_for env m urls \<noteq> [] \<longrightarrow> timeout \<le> rd_test (env m) - started" by blast
    have "\<forall>j. k \<le> j \<and> j < m \<longrightarrow> rd_test (env j) - started < timeout"
      using m(2) True by (metis Suc_leI le_eq_less_or_eq)
    with m True show ?thesis
      by (intro exI[of _ m]) (simp add: ready_loop.simps[of env started timeout k])
  next
    case False
    then show ?thesis by (intro exI[of _ k]) (auto simp: ready_loop.simps[of env started timeout k] Suc.prems(2))
  qed
qed

lemma wait_ready_outcome:
  assumes "\<forall>k. rd_test (env k) + 1 \<le> rd_test (env (Suc k))"
  shows "\<exists>m. (\<forall>j<m. rd_test (env j) - started < timeout) \<and>
    wait_ready env started urls timeout =
      Some (if waiting_for env m (remdups urls) = [] then Inr (rd_end (env m) - started)
            else Inl (NeverReady (sort (waiting_for env m (remdups urls))))) \<and>
    (waiting_for env m (remdups urls) \<noteq> [] \<longrightarrow> timeout \<le> rd_test (env m) - started)"
proof -
  obtain n where "started + timeout \<le> rd_test (env 0) + 1 * of_nat n"
    using sleep_reaches[of 1 "started + timeout" "\<lambda>k. rd_test (env k)"] by auto
  from ready_loop_returns[OF assms this, of "remdups urls" "remdups urls"] show ?thesis
    by (auto simp: wait_ready_def waiting_for_def)
qed

section \<open>Convergence\<close>

text \<open>What an outcome says: the counts are those of a round; it is converged exactly when every peer
  has reached the expected count; without progress the total has been the same in every round for longer
  than the bound.\<close>

definition round_total :: "string list \<Rightarrow> conv_round \<Rightarrow> int option" where
  "round_total urls r = map_option total_count (poll_counts urls r)"

definition outcome_of_round ::
  "(nat \<Rightarrow> conv_round) \<Rightarrow> time \<Rightarrow> string list \<Rightarrow> int \<Rightarrow> time \<Rightarrow> time \<Rightarrow> convergence \<Rightarrow> bool" where
  "outcome_of_round env started urls expected timeout stall_after c \<longleftrightarrow>
     (\<exists>k. poll_counts urls (env k) = Some (cg_counts c) \<and>
       (cg_converged c \<longleftrightarrow> (\<forall>(u, n) \<in> set (cg_counts c). expected \<le> n)) \<and>
       (cg_converged c \<longleftrightarrow> cg_reason c = None) \<and>
       (cg_reason c = Some TimedOut \<longrightarrow> timeout \<le> cv_test (env (Suc k)) - started) \<and>
       (\<forall>s. cg_reason c = Some (NoProgress s) \<longrightarrow> s = stall_after \<and>
          (\<exists>j\<le>k. stall_after < cv_now (env k) - cv_now (env j) \<and>
             (\<forall>i. j \<le> i \<and> i \<le> k \<longrightarrow> round_total urls (env i) = round_total urls (env k)))))"

text \<open>The loop's variables before round \<open>k\<close>.\<close>

definition conv_inv ::
  "(nat \<Rightarrow> conv_round) \<Rightarrow> string list \<Rightarrow> int \<Rightarrow> nat \<Rightarrow> int \<Rightarrow> time \<Rightarrow> (string \<times> int) list option \<Rightarrow> bool" where
  "conv_inv env urls expected k last_total last_progress prev \<longleftrightarrow>
     (if k = 0 then last_total = - 1 \<and> prev = None
      else \<exists>cs. prev = Some cs \<and> poll_counts urls (env (k - 1)) = Some cs \<and> \<not> list_all (\<lambda>(_, c). expected \<le> c) cs \<and>
        (\<exists>j<k. last_progress = cv_now (env j) \<and> (\<forall>i. j \<le> i \<and> i < k \<longrightarrow> round_total urls (env i) = Some last_total)))"

lemma total_count_nonneg: "0 \<le> total_count cs"
  unfolding total_count_def by (induction cs) auto

lemma conv_inv_progress:
  assumes "poll_counts urls (env k) = Some cs" "\<not> list_all (\<lambda>(_, c). expected \<le> c) cs"
  shows "conv_inv env urls expected (Suc k) (total_count cs) (cv_now (env k)) (Some cs)"
  using assms unfolding conv_inv_def
  by (auto simp: round_total_def intro!: exI[of _ k]) (metis le_antisym less_Suc_eq_le option.map(2))

lemma conv_inv_same:
  assumes "conv_inv env urls expected k (total_count cs) lp prev" "poll_counts urls (env k) = Some cs"
    "\<not> list_all (\<lambda>(_, c). expected \<le> c) cs"
  shows "conv_inv env urls expected (Suc k) (total_count cs) lp (Some cs)"
proof -
  have "k \<noteq> 0" using assms(1) total_count_nonneg[of cs] by (auto simp: conv_inv_def split: if_splits)
  with assms(1) obtain j where j: "j < k" "lp = cv_now (env j)"
    "\<forall>i. j \<le> i \<and> i < k \<longrightarrow> round_total urls (env i) = Some (total_count cs)" by (auto simp: conv_inv_def)
  then have "\<forall>i. j \<le> i \<and> i < Suc k \<longrightarrow> round_total urls (env i) = Some (total_count cs)"
    using assms(2) by (auto simp: less_Suc_eq round_total_def)
  with j assms(2,3) show ?thesis unfolding conv_inv_def by (auto intro!: exI[of _ j])
qed

lemma stalled_outcome:
  assumes "conv_inv env urls expected k (total_count cs) lp prev" "poll_counts urls (env k) = Some cs"
    "\<not> list_all (\<lambda>(_, c). expected \<le> c) cs" "stall_after < cv_now (env k) - lp"
  shows "outcome_of_round env started urls expected timeout stall_after
    \<lparr>cg_converged = False, cg_reason = Some (NoProgress stall_after), cg_seconds = s, cg_counts = cs\<rparr>"
proof -
  from conv_inv_same[OF assms(1-3)] obtain j where j: "j < Suc k" "lp = cv_now (env j)"
    "\<forall>i. j \<le> i \<and> i < Suc k \<longrightarrow> round_total urls (env i) = Some (total_count cs)" by (auto simp: conv_inv_def)
  have "\<exists>j\<le>k. stall_after < cv_now (env k) - cv_now (env j) \<and>
      (\<forall>i. j \<le> i \<and> i \<le> k \<longrightarrow> round_total urls (env i) = round_total urls (env k))"
    using j assms(4) by (intro exI[of _ j]) (simp add: less_Suc_eq_le)
  with assms(2,3) show ?thesis unfolding outcome_of_round_def by (intro exI[of _ k]) (auto simp: list_all_iff)
qed

definition conv_result_ok ::
  "(nat \<Rightarrow> conv_round) \<Rightarrow> time \<Rightarrow> string list \<Rightarrow> int \<Rightarrow> time \<Rightarrow> time \<Rightarrow> driver_error + convergence \<Rightarrow> bool" where
  "conv_result_ok env started urls expected timeout stall_after res \<longleftrightarrow>
     (case res of
        Inr c \<Rightarrow> outcome_of_round env started urls expected timeout stall_after c
      | Inl e \<Rightarrow> (e = NoRound \<and> timeout \<le> cv_test (env 0) - started) \<or> (e = BadCount \<and> (\<exists>k. poll_counts urls (env k) = None)))"

lemma conv_over:
  assumes "\<not> cv_test (env k) - started < timeout" "conv_inv env urls expected k lt lp prev"
  shows "\<exists>res. conv_loop env started urls expected timeout stall_after k lt lp prev = Some res \<and>
    conv_result_ok env started urls expected timeout stall_after res"
proof (cases k)
  case 0
  with assms show ?thesis by (simp add: conv_loop.simps[of env] conv_inv_def conv_result_ok_def)
next
  case (Suc k')
  with assms obtain cs where "prev = Some cs" "poll_counts urls (env k') = Some cs" "\<not> list_all (\<lambda>(_, c). expected \<le> c) cs"
    by (auto simp: conv_inv_def)
  with assms(1) Suc show ?thesis
    by (auto simp: conv_loop.simps[of env _ _ _ _ _ "Suc k'"] outcome_of_round_def conv_result_ok_def list_all_iff
        intro!: exI[of _ k'])
qed

lemma conv_loop_returns:
  assumes tick: "\<forall>k. cv_test (env k) + 2 \<le> cv_test (env (Suc k))"
    and "started + timeout \<le> cv_test (env k) + 2 * of_nat n"
    and "conv_inv env urls expected k lt lp prev"
  shows "\<exists>res. conv_loop env started urls expected timeout stall_after k lt lp prev = Some res \<and>
    conv_result_ok env started urls expected timeout stall_after res"
  using assms(2,3)
proof (induction n arbitrary: k lt lp prev)
  case 0
  then show ?case by (intro conv_over) auto
next
  case (Suc n)
  note IH = Suc.IH[OF sleep_step[of "\<lambda>k. cv_test (env k)", OF tick Suc.prems(1)]]
  note unf = conv_loop.simps[of env started urls expected timeout stall_after k lt lp prev]
  consider (over) "\<not> cv_test (env k) - started < timeout"
    | (bad) "cv_test (env k) - started < timeout" "poll_counts urls (env k) = None"
    | (polled) cs where "cv_test (env k) - started < timeout" "poll_counts urls (env k) = Some cs" by blast
  then show ?case
  proof cases
    case over
    then show ?thesis using Suc.prems(2) by (rule conv_over)
  next
    case bad
    then show ?thesis by (auto simp: unf conv_result_ok_def)
  next
    case polled
    consider (all) "list_all (\<lambda>(_, c). expected \<le> c) cs"
      | (moved) "\<not> list_all (\<lambda>(_, c). expected \<le> c) cs" "total_count cs \<noteq> lt"
      | (stalled) "\<not> list_all (\<lambda>(_, c). expected \<le> c) cs" "total_count cs = lt" "stall_after < cv_now (env k) - lp"
      | (same) "\<not> list_all (\<lambda>(_, c). expected \<le> c) cs" "total_count cs = lt" "\<not> stall_after < cv_now (env k) - lp" by blast
    then show ?thesis
    proof cases
      case all
      then show ?thesis using polled
        by (auto simp: unf conv_result_ok_def outcome_of_round_def list_all_iff intro!: exI[of _ k])
    next
      case moved
      from IH[OF conv_inv_progress[of urls env k cs expected, OF polled(2) moved(1)]] show ?thesis using moved polled by (simp add: unf)
    next
      case stalled
      with stalled_outcome[of env urls expected k cs lp prev stall_after] Suc.prems(2) polled
      show ?thesis by (simp add: unf conv_result_ok_def)
    next
      case same
      from IH[OF conv_inv_same[of env urls expected k cs lp prev]] same polled Suc.prems(2) show ?thesis by (simp add: unf)
    qed
  qed
qed

lemma wait_convergence_outcome:
  assumes "\<forall>k. cv_test (env k) + 2 \<le> cv_test (env (Suc k))"
  shows "\<exists>res. wait_convergence env started progress0 urls expected timeout stall_after = Some res \<and>
    conv_result_ok env started urls expected timeout stall_after res"
proof -
  obtain n where "started + timeout \<le> cv_test (env 0) + 2 * of_nat n"
    using sleep_reaches[of 2 "started + timeout" "\<lambda>k. cv_test (env k)"] by auto
  from conv_loop_returns[OF assms this] show ?thesis by (simp add: wait_convergence_def conv_inv_def)
qed

section \<open>The plan\<close>

lemma sum_first:
  "sum_list (map (\<lambda>i. p + (if int i < int r then 1 else 0)) [0..<n]) = p * int n + int (min n r)"
  by (induction n) (auto simp: algebra_simps)

lemma plan_divides:
  assumes "send_plan messages senders = Some plan"
  shows "length plan = senders \<and> sum_list plan = messages \<and>
    (\<forall>x \<in> set plan. x = messages div int senders \<or> x = messages div int senders + 1)"
proof -
  let ?n = "int senders" let ?r = "messages - messages div ?n * ?n"
  have n: "senders \<noteq> 0" using assms by (auto simp: send_plan_def split: if_splits)
  have r: "?r = messages mod ?n" by (simp add: minus_div_mult_eq_mod)
  then have "0 \<le> ?r" "?r < ?n" using n by simp_all
  moreover from this have "min senders (nat ?r) = nat ?r" by linarith
  ultimately have "sum_list (map (\<lambda>i. messages div ?n + (if int i < ?r then 1 else 0)) [0..<senders]) = messages"
    using sum_first[of "messages div ?n" "nat ?r" senders] by simp
  with assms n show ?thesis by (auto simp: send_plan_def Let_def)
qed

section \<open>Reading what the pods write\<close>

lemma those_map_Some: "(\<And>x. x \<in> set xs \<Longrightarrow> f x = Some (g x)) \<Longrightarrow> those (map f xs) = Some (map g xs)"
  by (induction xs) auto

lemma read_clock_json: "read_clock (JObj (clock_json vc)) = Some vc"
proof -
  have "those (map ((\<lambda>(k, c). map_option (Pair k) (as_int c)) \<circ> (\<lambda>(u, q). (u, JInt q))) vc) = Some (map id vc)"
    by (rule those_map_Some) auto
  then show ?thesis by (simp add: read_clock_def clock_json_def)
qed

lemma read_delivery_json: "read_delivery (delivery_json d) = Some d"
  by (cases d) (auto simp: read_delivery_def delivery_json_def read_clock_json read_time_def opt_json_def split: option.split)

definition pod_view :: "runtime \<Rightarrow> pod_logs" where
  "pod_view rt = \<lparr>lg_pod = id_pod_name (rt_identity rt), lg_deliveries = deliveries rt,
     lg_sent = map sr_id (sent_log rt), lg_baseline = baseline_vc rt\<rparr>"

lemma read_logs_served:
  "read_logs (snd (do_get now tm srv ''/deliveries'' rt)) (snd (do_get now tm srv ''/sent'' rt)) = Some (pod_view rt)"
proof -
  have "those (map (read_delivery \<circ> delivery_json) (deliveries rt)) = Some (map id (deliveries rt))"
    by (rule those_map_Some) (simp add: read_delivery_json)
  moreover have "those (map ((\<lambda>x. Option.bind (jget x ''id'') as_str) \<circ> sent_json) (sent_log rt)) = Some (map sr_id (sent_log rt))"
    by (rule those_map_Some) (simp add: sent_json_def)
  ultimately show ?thesis by (simp add: read_logs_def do_get_def read_clock_json pod_view_def)
qed

text \<open>The pods as a cluster: what the control server of each reachable pod answers at collection.\<close>

definition served :: "time \<Rightarrow> time \<Rightarrow> bool \<Rightarrow> (string \<Rightarrow> runtime option) \<Rightarrow> string \<Rightarrow> string \<Rightarrow> json option" where
  "served now tm srv pods path url = request (map_option (do_get now tm srv path) (pods url))"

lemma served_paths:
  "served now tm srv pods ''/deliveries'' u = map_option (\<lambda>rt. snd (do_get now tm srv ''/deliveries'' rt)) (pods u)"
  "served now tm srv pods ''/sent'' u = map_option (\<lambda>rt. snd (do_get now tm srv ''/sent'' rt)) (pods u)"
  by (auto simp: served_def request_def do_get_def split: option.split)

definition view_of :: "(string \<Rightarrow> runtime option) \<Rightarrow> string \<Rightarrow> pod_logs" where
  "view_of pods url =
     (case pods url of
        None \<Rightarrow> \<lparr>lg_pod = the (pod_guess url), lg_deliveries = [], lg_sent = [], lg_baseline = []\<rparr>
      | Some rt \<Rightarrow> pod_view rt)"

lemma fetch_served:
  "pod_guess url = Some pod \<Longrightarrow> fetch (served now tm srv pods) url = Some (view_of pods url)"
  by (simp add: fetch_def view_of_def served_paths read_logs_served split: option.split)

section \<open>Collecting from distinct pods\<close>

lemma collect_fold:
  assumes "distinct (map lg_pod ls)" "lg_pod ` set ls \<inter> set (dict_keys ds) = {}" "dict_keys ss = dict_keys ds" "dict_keys bs = dict_keys ds"
  shows "foldl (\<lambda>(ds, ss, bs) l. (dict_set (lg_pod l) (lg_deliveries l) ds, dict_set (lg_pod l) (lg_sent l) ss,
                                 dict_set (lg_pod l) (lg_baseline l) bs)) (ds, ss, bs) ls =
    (ds @ map (\<lambda>l. (lg_pod l, lg_deliveries l)) ls, ss @ map (\<lambda>l. (lg_pod l, lg_sent l)) ls,
     bs @ map (\<lambda>l. (lg_pod l, lg_baseline l)) ls)"
  using assms by (induction ls arbitrary: ds ss bs) (auto simp: keys_update_new)

lemma pod_guess_url:
  assumes "CHR ''.'' \<notin> set stem"
  shows "pod_guess (''http://'' @ stem @ ''-'' @ nat_str i @ ''.'' @ rest) = Some (stem @ ''-'' @ nat_str i)"
proof -
  have "CHR ''.'' \<notin> set (stem @ ''-'' @ nat_str i)"
    using assms nat_str_digits[of "CHR ''.''" i] by (auto simp: is_digit_def)
  from takeWhile_before[OF this, of rest] show ?thesis by (simp add: pod_guess_def)
qed

lemma nat_str_inject: "nat_str a = nat_str b \<longleftrightarrow> a = b"
  by (metis option.inject py_nat_nat_str)

lemma args_urls_pods:
  assumes "CHR ''.'' \<notin> set (da_stem a)"
  shows "map pod_guess (args_urls a) = map (\<lambda>i. Some (da_stem a @ ''-'' @ nat_str i)) [0..<da_peers a]"
  using pod_guess_url[OF assms] by (simp add: args_urls_def peer_urls_def del: append.simps append_Cons)

lemma distinct_pods:
  assumes "CHR ''.'' \<notin> set (da_stem a)"
  shows "distinct (map pod_guess (args_urls a))"
  unfolding args_urls_pods[OF assms] by (auto simp: distinct_map inj_on_def nat_str_inject)

lemma collect_served:
  assumes "CHR ''.'' \<notin> set (da_stem a)"
    and "\<forall>u rt. pods u = Some rt \<longrightarrow> pod_guess u = Some (id_pod_name (rt_identity rt))"
  shows "collect (served now tm srv pods) (args_urls a) =
    Some (map (\<lambda>u. (lg_pod (view_of pods u), lg_deliveries (view_of pods u))) (args_urls a),
          map (\<lambda>u. (lg_pod (view_of pods u), lg_sent (view_of pods u))) (args_urls a),
          map (\<lambda>u. (lg_pod (view_of pods u), lg_baseline (view_of pods u))) (args_urls a)) \<and>
    distinct (map (\<lambda>u. lg_pod (view_of pods u)) (args_urls a))"
proof -
  have guess: "\<exists>pod. pod_guess u = Some pod" if "u \<in> set (args_urls a)" for u
    using arg_cong[OF args_urls_pods[OF assms(1)], of set] that by auto
  have name: "pod_guess u = Some (lg_pod (view_of pods u))" if "u \<in> set (args_urls a)" for u
    using guess[OF that] assms(2) by (auto simp: view_of_def pod_view_def split: option.split)
  then have "map pod_guess (args_urls a) = map Some (map (\<lambda>u. lg_pod (view_of pods u)) (args_urls a))" by simp
  with distinct_pods[OF assms(1)] have d: "distinct (map (\<lambda>u. lg_pod (view_of pods u)) (args_urls a))"
    by (simp only: distinct_map)
  have "those (map (fetch (served now tm srv pods)) (args_urls a)) = Some (map (view_of pods) (args_urls a))"
    by (rule those_map_Some) (use guess fetch_served in blast)
  with d collect_fold[of "map (view_of pods) (args_urls a)" "[]" "[]" "[]"] show ?thesis
    by (simp add: collect_def comp_def)
qed

lemma driver_main_result:
  assumes "driver_main a env = Some (Inr (rep, code))"
  shows "\<exists>ds ss bs. collect (ce_get env) (args_urls a) = Some (ds, ss, bs) \<and> analyze ds ss bs = Some (dr_analysis rep) \<and>
    code = (if rr_violations_total (dr_analysis rep) = 0 then 0 else 2)"
proof -
  have "args_urls (a\<lparr>da_senders := n\<rparr>) = args_urls a" for n by (simp add: args_urls_def)
  with assms show ?thesis
    by (auto simp: driver_main_def run_def finish_run_def Let_def split: if_splits option.splits sum.splits prod.splits)
qed

text \<open>C35. The exit code is the verdict on the pods that answered. When the replies at collection are
  those of the pods' control servers, the driver exits with zero exactly when the delivery log of
  every reachable pod satisfies the causal delivery rule from its baseline; a pod that is not
  reachable does not count against the run.\<close>

theorem driver_verdict:
  assumes "driver_main a env = Some (Inr (rep, code))" "ce_get env = served now tm srv pods"
    and "CHR ''.'' \<notin> set (da_stem a)"
    and "\<forall>u rt. pods u = Some rt \<longrightarrow> pod_guess u = Some (id_pod_name (rt_identity rt))"
    and "\<forall>u rt. pods u = Some rt \<longrightarrow> wf_clock (baseline_vc rt) \<and> (\<forall>r \<in> set (deliveries rt). wf_clock (dv_vc r))"
  shows "code = 0 \<longleftrightarrow> (\<forall>u \<in> set (args_urls a). \<forall>rt. pods u = Some rt \<longrightarrow>
    cbcast_log (vc_get (baseline_vc rt)) (deliveries rt))"
proof -
  let ?v = "view_of pods" and ?us = "args_urls a"
  let ?ds = "map (\<lambda>u. (lg_pod (?v u), lg_deliveries (?v u))) ?us" and ?bs = "map (\<lambda>u. (lg_pod (?v u), lg_baseline (?v u))) ?us"
  note c = collect_served[OF assms(3,4), of now tm srv]
  from driver_main_result[OF assms(1)] c obtain ss where
    r: "analyze ?ds ss ?bs = Some (dr_analysis rep)" "code = (if rr_violations_total (dr_analysis rep) = 0 then 0 else 2)"
    unfolding assms(2) by auto
  have base: "get_or ?bs (lg_pod (?v u)) [] = lg_baseline (?v u)" if "u \<in> set ?us" for u
    by (rule get_or_key) (use c that in \<open>auto simp: comp_def\<close>)
  have wf: "wf_clock (lg_baseline (?v u)) \<and> (\<forall>r \<in> set (lg_deliveries (?v u)). wf_clock (dv_vc r))" for u
    using assms(5) by (auto simp: view_of_def pod_view_def split: option.split)
  have "rr_violations_total (dr_analysis rep) = 0 \<longleftrightarrow> (\<forall>u \<in> set ?us. cbcast_log (vc_get (lg_baseline (?v u))) (lg_deliveries (?v u)))"
    using report_violations_iff[OF r(1)] wf by (auto simp: base)
  also have "\<dots> \<longleftrightarrow> (\<forall>u \<in> set ?us. \<forall>rt. pods u = Some rt \<longrightarrow> cbcast_log (vc_get (baseline_vc rt)) (deliveries rt))"
    by (auto simp: view_of_def pod_view_def split: option.split)
  finally show ?thesis using r(2) by simp
qed

definition demo_args :: driver_args where
  "demo_args = \<lparr>da_messages = 1, da_peers = 2, da_senders = 0, da_rate = 0, da_service = ''s'', da_namespace = ''n'',
     da_domain = ''d'', da_stem = ''pc'', da_control_port = 7, da_prefix = ''m'', da_ready_timeout = 3,
     da_converge_timeout = 5, da_reset = True\<rparr>"

text \<open>One pod with one delivery, the other unreachable at collection.\<close>

definition demo_runtime :: runtime where
  "demo_runtime = (new_runtime \<lparr>id_pod_name = ''pc-0'', id_ordinal = 0, id_service = ''s'', id_namespace = ''n'',
     id_cluster_domain = ''d'', id_chat_port = 7, id_control_port = 7\<rparr> 2 1 0)
     \<lparr>rt_deliveries := [demo_delivery ''m1'' 1]\<rparr>"

definition demo_pods :: "string \<Rightarrow> runtime option" where
  "demo_pods u = (if pod_guess u = Some ''pc-0'' then Some demo_runtime else None)"

definition demo_cluster :: cluster_env where
  "demo_cluster = \<lparr>ce_ready_started = 0, ce_ready = (\<lambda>k. \<lparr>rd_test = of_nat k, rd_reply = (\<lambda>_. Some JNull), rd_end = of_nat k\<rparr>),
     ce_t0 = 1, ce_t1 = 2, ce_send = (\<lambda>_. Inr JNull), ce_conv_started = 2, ce_conv_progress = 2,
     ce_conv = (\<lambda>k. \<lparr>cv_test = 2 + 2 * of_nat k, cv_reply = (\<lambda>_. Some (JObj [(''delivered'', JInt 1)])),
                    cv_now = 3 + 2 * of_nat k, cv_end = 3 + 2 * of_nat k\<rparr>),
     ce_get = served 0 0 True demo_pods\<rparr>"

theorem driver_verdict_witness:
  "\<exists>rep. driver_main demo_args demo_cluster = Some (Inr (rep, 0)) \<and>
    (\<forall>u \<in> set (args_urls demo_args). \<forall>rt. demo_pods u = Some rt \<longrightarrow> cbcast_log (vc_get (baseline_vc rt)) (deliveries rt))"
proof -
  have "map_option (map_sum id snd) (driver_main demo_args demo_cluster) = Some (Inr 0)" by code_simp
  then obtain rep where rep: "driver_main demo_args demo_cluster = Some (Inr (rep, 0))"
    by (cases "the (driver_main demo_args demo_cluster)") auto
  moreover have "(0 :: int) = 0 \<longleftrightarrow> (\<forall>u \<in> set (args_urls demo_args). \<forall>rt. demo_pods u = Some rt \<longrightarrow>
      cbcast_log (vc_get (baseline_vc rt)) (deliveries rt))"
  proof (rule driver_verdict[OF rep])
    show "ce_get demo_cluster = served 0 0 True demo_pods" by (simp add: demo_cluster_def)
  qed (auto simp: demo_args_def demo_pods_def demo_runtime_def new_runtime_def baseline_vc_def deliveries_def
      demo_delivery_def wf_clock_def get_or_def split: if_splits)
  ultimately show ?thesis by simp
qed

section \<open>The driver returns\<close>

text \<open>C36. The driver always ends. When the clock passes the seconds that the loops sleep, a run of the driver
  ends, with a report or an error, whatever the pods answer or fail to answer.\<close>

theorem driver_returns:
  assumes "\<forall>k. rd_test (ce_ready env k) + 1 \<le> rd_test (ce_ready env (Suc k))"
    and "\<forall>k. cv_test (ce_conv env k) + 2 \<le> cv_test (ce_conv env (Suc k))"
  shows "\<exists>res. driver_main a env = Some res"
proof -
  have conv: "\<exists>res. wait_convergence (ce_conv env) s p urls expected timeout st = Some res" for s p urls expected timeout st
    using wait_convergence_outcome[OF assms(2)] by blast
  have fin: "\<exists>res. finish_run a' env r jobs = Some res" for a' r jobs
    using conv[of "ce_conv_started env" "ce_conv_progress env" "args_urls a'" "da_messages a'" "da_converge_timeout a'" 30]
    by (auto simp: finish_run_def split: sum.split)
  have run: "\<exists>res. run a' env = Some res" for a'
    using wait_ready_outcome[OF assms(1), of "ce_ready_started env" "da_ready_timeout a'" "args_urls a'"] fin
    by (auto simp: run_def Let_def split: option.split sum.split)
  from run[of "if da_senders a = 0 then a\<lparr>da_senders := da_peers a\<rparr> else a"] show ?thesis
    by (auto simp: driver_main_def Let_def)
qed

theorem driver_returns_witness: "\<exists>res. driver_main demo_args demo_cluster = Some res"
  by (rule driver_returns) (simp_all add: demo_cluster_def)



end
