(* ===== verification/Harness_Chaos.thy ===== *)
theory Harness_Chaos
  imports Harness_Properties Json_Text "HOL-Library.Sublist"
begin

text \<open>
  \<open>harness/chaos.py\<close>: it starts the driver in a pod, deletes pods meanwhile, finds the driver's
  report in its output and splits the violations between deleted and untouched pods. The report
  travels as text, so the dictionary the driver prints and the way \<open>chaos.py\<close> and \<open>summarize.py\<close>
  read it back are part of the model. \<open>kubectl\<close> is represented by what it returns; console output
  is left out, except that formatting a missing or unprintable field raises.

  Shown: both scripts read the report the driver printed, and the counts written to the result
  are those of the report.
\<close>

section \<open>Deleting pods\<close>

text \<open>\<open>Killer.run\<close>: \<open>candidates\<close> are the pods in the shuffled order; \<open>del k pod\<close> is the time of the
  \<open>k\<close>-th deletion, \<open>None\<close> when \<open>kubectl\<close> fails; \<open>stopped k\<close> whether the stop event is set then.\<close>

fun kill_loop :: "(nat \<Rightarrow> bool) \<Rightarrow> (nat \<Rightarrow> string \<Rightarrow> time option) \<Rightarrow> nat \<Rightarrow> string list \<Rightarrow> (string \<times> time) list" where
  "kill_loop stopped del k [] = []"
| "kill_loop stopped del k (pod # pods) =
     (if stopped k then []
      else (case del k pod of None \<Rightarrow> [] | Some t \<Rightarrow> [(pod, t)]) @ kill_loop stopped del (Suc k) pods)"

definition killer_run ::
  "(nat \<Rightarrow> bool) \<Rightarrow> (nat \<Rightarrow> string \<Rightarrow> time option) \<Rightarrow> string list \<Rightarrow> nat \<Rightarrow> (string \<times> time) list" where
  "killer_run stopped del candidates kills = kill_loop stopped del 0 (take kills candidates)"

section \<open>The report as a dictionary\<close>

definition kind_str :: "violation_kind \<Rightarrow> string" where
  "kind_str k = (case k of SenderGap \<Rightarrow> ''sender_gap'' | SenderRegress \<Rightarrow> ''sender_regress'' | MissingDependency \<Rightarrow> ''missing_dependency'')"

definition violation_json :: "violation \<Rightarrow> json" where
  "violation_json v = JObj
     [(''pod'', JStr (vl_pod v)), (''seq'', JInt (vl_seq v)), (''id'', JStr (vl_id v)), (''sender'', JStr (vl_sender v)),
      (''kind'', JStr (kind_str (vl_kind v))), (''detail'', JStr (vl_detail v)), (''held_ms'', opt_json JFloat (vl_held_ms v))]"

text \<open>Without samples, and in the figures over all peers, there is no mean.\<close>

definition latency_json :: "latency_report \<Rightarrow> json" where
  "latency_json l = JObj
     ([(''count'', JInt (int (lr_count l))), (''p50_ms'', opt_json JFloat (lr_p50 l)), (''p95_ms'', opt_json JFloat (lr_p95 l)),
       (''p99_ms'', opt_json JFloat (lr_p99 l)), (''max_ms'', opt_json JFloat (lr_max l))] @
      (case lr_mean l of None \<Rightarrow> [] | Some x \<Rightarrow> [(''mean_ms'', JFloat x)]))"

definition pod_row_json :: "pod_report \<Rightarrow> json" where
  "pod_row_json r = JObj
     [(''pod'', JStr (pr_pod r)), (''sent'', JInt (int (pr_sent r))), (''delivered'', JInt (int (pr_delivered r))),
      (''unique'', JInt (int (pr_unique r))), (''duplicates'', JInt (int (pr_duplicates r))), (''missing'', JInt (int (pr_missing r))),
      (''violations'', JInt (int (pr_violations r))), (''latency_remote'', latency_json (pr_latency r)),
      (''final_clock'', JObj (clock_json (pr_final_clock r)))]"

definition analysis_json :: "run_report \<Rightarrow> json" where
  "analysis_json r = JObj
     [(''messages_sent'', JInt (int (rr_messages_sent r))), (''unique_message_ids'', JInt (int (rr_unique_ids r))),
      (''peers'', JInt (int (rr_peers r))), (''total_delivered'', JInt (int (rr_total_delivered r))),
      (''expected_deliveries'', JInt (int (rr_expected r))), (''violations_total'', JInt (int (rr_violations_total r))),
      (''violating_deliveries'', JInt (int (rr_violating r))),
      (''violations_by_kind'', JObj (map (\<lambda>(k, n). (kind_str k, JInt (int n))) (rr_by_kind r))),
      (''violations_past_holdback_timeout'', JInt (int (rr_past_timeout r))), (''latency_remote_all_peers'', latency_json (rr_latency r)),
      (''per_pod'', JList (map pod_row_json (rr_per_pod r))), (''violation_samples'', JList (map violation_json (rr_samples r)))]"

definition convergence_json :: "(rat \<Rightarrow> string) \<Rightarrow> convergence \<Rightarrow> json" where
  "convergence_json fr c = JObj
     ([(''converged'', JBool (cg_converged c))] @
      (case cg_reason c of
         None \<Rightarrow> []
       | Some (NoProgress t) \<Rightarrow> [(''reason'', JStr (''no progress for '' @ fr t @ ''s''))]
       | Some TimedOut \<Rightarrow> [(''reason'', JStr ''timeout'')]) @
      [(''seconds'', JFloat (cg_seconds c)), (''counts'', JObj (map (\<lambda>(u, n). (u, JInt n)) (cg_counts c)))])"

definition report_json :: "(rat \<Rightarrow> string) \<Rightarrow> driver_args \<Rightarrow> driver_report \<Rightarrow> json" where
  "report_json fr a r = JObj
     [(''config'', JObj [(''peers'', JInt (int (da_peers a))), (''senders'', JInt (int (da_senders a))),
                         (''messages_total'', JInt (da_messages a)), (''rate_per_sender'', JFloat (da_rate a))]),
      (''ready_wait_s'', JFloat (dr_ready_wait r)), (''messages_planned'', JInt (dr_planned r)),
      (''plan'', JObj (map (\<lambda>(p, n). (p, JInt n)) (dr_plan r))), (''send_wall_s'', JFloat (dr_send_wall r)),
      (''send_throughput_msg_s'', opt_json JFloat (dr_throughput r)), (''convergence'', convergence_json fr (dr_convergence r)),
      (''analysis'', analysis_json (dr_analysis r)), (''send_results'', JList (dr_send_results r))]"

definition REPORT_BEGIN :: string where "REPORT_BEGIN = ''===REPORT-JSON-BEGIN===''"

definition REPORT_END :: string where "REPORT_END = ''===REPORT-JSON-END===''"

text \<open>What the driver's \<open>main\<close> prints at the end.\<close>

definition print_report :: "(rat \<Rightarrow> string) \<Rightarrow> driver_args \<Rightarrow> driver_report \<Rightarrow> string" where
  "print_report fr a r =
     REPORT_BEGIN @ [CHR 0x0A] @ json_indented fr 0 (report_json fr a r) @ [CHR 0x0A] @ REPORT_END @ [CHR 0x0A]"

section \<open>Reading the report back\<close>

text \<open>What is before and after the first occurrence of a separator.\<close>

fun find_sub :: "string \<Rightarrow> string \<Rightarrow> (string \<times> string) option" where
  "find_sub sep [] = (if sep = [] then Some ([], []) else None)"
| "find_sub sep (c # cs) =
     (case strip_prefix sep (c # cs) of
        Some r \<Rightarrow> Some ([], r)
      | None \<Rightarrow> map_option (\<lambda>(a, b). (c # a, b)) (find_sub sep cs))"

text \<open>\<open>s.split(sep)[0]\<close>, and \<open>s.split(begin)[1].split(end)[0]\<close> for a text with \<open>begin\<close>.\<close>

definition split_first :: "string \<Rightarrow> string \<Rightarrow> string" where
  "split_first sep s = (case find_sub sep s of None \<Rightarrow> s | Some (a, _) \<Rightarrow> a)"

definition report_body :: "string \<Rightarrow> string option" where
  "report_body s = map_option (\<lambda>(_, r). split_first REPORT_END (split_first REPORT_BEGIN r)) (find_sub REPORT_BEGIN s)"

text \<open>\<open>BadField\<close>: a missing field (\<open>KeyError\<close>) or one of another type.\<close>

datatype chaos_error = JSONDecodeError | BadField

definition parse_report :: "(string \<Rightarrow> rat) \<Rightarrow> string \<Rightarrow> chaos_error + json option" where
  "parse_report pf stdout =
     (case report_body stdout of
        None \<Rightarrow> Inr None
      | Some body \<Rightarrow> (case json_loads pf body of None \<Rightarrow> Inl JSONDecodeError | Some j \<Rightarrow> Inr (Some j)))"

text \<open>\<open>summarize.py\<close> also accepts a file that holds the report alone.\<close>

definition summarize_report :: "(string \<Rightarrow> rat) \<Rightarrow> string \<Rightarrow> json option" where
  "summarize_report pf raw = json_loads pf (case report_body raw of None \<Rightarrow> raw | Some body \<Rightarrow> body)"

section \<open>The script\<close>

record chaos_args =
  ca_messages :: int
  ca_peers :: nat
  ca_rate :: rat
  ca_kills :: nat
  ca_kill_interval :: rat
  ca_kill_delay :: rat
  ca_seed :: int
  ca_out :: string

definition chaos_args_json :: "chaos_args \<Rightarrow> json" where
  "chaos_args_json a = JObj
     [(''messages'', JInt (ca_messages a)), (''peers'', JInt (int (ca_peers a))), (''rate'', JFloat (ca_rate a)),
      (''kills'', JInt (int (ca_kills a))), (''kill_interval'', JFloat (ca_kill_interval a)),
      (''kill_delay'', JFloat (ca_kill_delay a)), (''seed'', JInt (ca_seed a)), (''out'', JStr (ca_out a))]"

text \<open>\<open>{row["pod"]: row for row in report["analysis"]["per_pod"]}\<close>.\<close>

definition rows_by_pod :: "json \<Rightarrow> (string, json) dict option" where
  "rows_by_pod report = do {
     a \<leftarrow> jget report ''analysis'';
     rows \<leftarrow> jget a ''per_pod'' \<bind> as_list;
     prs \<leftarrow> map_opt (\<lambda>row. map_option (\<lambda>pod. (pod, row)) (jget row ''pod'' \<bind> as_str)) rows;
     Some (dict_of prs)
   }"

definition sum_violations :: "(string \<times> json) list \<Rightarrow> int option" where
  "sum_violations prs = map_option sum_list (map_opt (\<lambda>(_, row). jget row ''violations'' \<bind> as_int) prs)"

text \<open>\<open>f"{v:>9}"\<close> raises for \<open>None\<close>, a list and a dictionary.\<close>

fun padded :: "json \<Rightarrow> bool" where
  "padded JNull = False"
| "padded (JList _) = False"
| "padded (JObj _) = False"
| "padded _ = True"

text \<open>The table at the end can be printed.\<close>

definition row_ok :: "json \<Rightarrow> bool" where
  "row_ok row =
     (case (jget row ''pod'', jget row ''rejoin_s'', jget row ''holdback_peak'', jget row ''holdback_drain_span_s'',
            jget row ''delivered'') of
        (Some pod, Some _, Some peak, Some _, Some n) \<Rightarrow> padded pod \<and> padded peak \<and> padded n
      | _ \<Rightarrow> False)"

definition table_ok :: "json \<Rightarrow> json list \<Rightarrow> bool" where
  "table_ok report recovery =
     (list_all (\<lambda>k. (jget report ''analysis'' \<bind> (\<lambda>a. jget a k)) \<noteq> None)
        [''messages_sent'', ''total_delivered'', ''expected_deliveries'', ''violations_past_holdback_timeout''] \<and>
      list_all row_ok recovery)"

definition chaos_result :: "chaos_args \<Rightarrow> (string \<times> time) list \<Rightarrow> json \<Rightarrow> json list \<Rightarrow> int \<Rightarrow> int \<Rightarrow> json" where
  "chaos_result a killed report recovery survivors restarted = JObj
     [(''config'', chaos_args_json a),
      (''killed'', JList (map (\<lambda>(pod, t). JObj [(''pod'', JStr pod), (''at'', JFloat t)]) killed)),
      (''driver_report'', report), (''recovery'', JList recovery), (''violations_survivors'', JInt survivors),
      (''violations_restarted'', JInt restarted)]"

text \<open>\<open>main\<close> after the driver has ended: \<open>stdout\<close> is its output, \<open>killed\<close> what the killer has deleted,
  \<open>recover\<close> what each pod answers to \<open>/recovery\<close>. The result is the file written, if any, and the exit code
  or the exception.\<close>

definition chaos_main ::
  "(string \<Rightarrow> rat) \<Rightarrow> chaos_args \<Rightarrow> string \<Rightarrow> (string \<times> time) list \<Rightarrow> (string \<Rightarrow> json option) \<Rightarrow>
   json option \<times> (chaos_error + int)" where
  "chaos_main pf a stdout killed recover =
     (case parse_report pf stdout of
        Inl e \<Rightarrow> (None, Inl e)
      | Inr None \<Rightarrow> (None, Inr 1)
      | Inr (Some report) \<Rightarrow>
          let recovery = List.map_filter (\<lambda>i. recover (''peerchat-'' @ nat_str i)) [0..<ca_peers a] in
          (case rows_by_pod report of
             None \<Rightarrow> (None, Inl BadField)
           | Some per_pod \<Rightarrow>
               (case (sum_violations (filter (\<lambda>(pod, _). pod \<notin> fst ` set killed) per_pod),
                      sum_violations (filter (\<lambda>(pod, _). pod \<in> fst ` set killed) per_pod)) of
                  (Some survivors, Some restarted) \<Rightarrow>
                    (Some (chaos_result a killed report recovery survivors restarted),
                     if table_ok report recovery then Inr 0 else Inl BadField)
                | _ \<Rightarrow> (None, Inl BadField))))"

section \<open>Finding the report\<close>

lemma find_sub_None: "find_sub sep s = None \<longleftrightarrow> \<not> sublist sep s"
proof (induction s)
  case (Cons c cs)
  have "strip_prefix sep (c # cs) = None \<longleftrightarrow> \<not> prefix sep (c # cs)"
    using strip_prefix_Some[of sep "c # cs"] by (auto simp: prefix_def) (metis option.exhaust)
  with Cons show ?case by (auto simp: sublist_Cons_right split: option.split)
qed simp

text \<open>A separator that stands on a line of its own is found where it is, unless the text before it has one.\<close>

lemma find_sub_line:
  assumes "sep \<noteq> []" "CHR 0x0A \<notin> set sep" "a = [] \<or> last a = CHR 0x0A" "\<not> sublist sep a"
  shows "find_sub sep (a @ sep @ r) = Some (a, r)"
  using assms(3,4)
proof (induction a)
  case Nil
  obtain c cs where "sep = c # cs" using assms(1) by (cases sep) auto
  then show ?case by (simp add: strip_prefix_def)
next
  case (Cons c a)
  have "strip_prefix sep ((c # a) @ sep @ r) = None"
  proof (rule ccontr)
    assume "strip_prefix sep ((c # a) @ sep @ r) \<noteq> None"
    then obtain t where t: "(c # a) @ sep @ r = sep @ t" by (auto simp: strip_prefix_Some)
    then consider us where "c # a = sep @ us" | us where "sep = (c # a) @ us"
      unfolding append_eq_append_conv2[of "c # a" "sep @ r" sep t] by blast
    then show False
    proof cases
      case (1 us)
      then have "prefix sep (c # a)" by simp
      with Cons.prems(2) show False by (metis prefix_imp_sublist)
    next
      case (2 us)
      then have "last (c # a) \<in> set sep" using last_in_set[of "c # a"] by (auto simp del: last.simps)
      with Cons.prems(1) assms(2) show False by auto
    qed
  qed
  moreover have "\<not> sublist sep a" using Cons.prems(2) by (auto simp: sublist_Cons_right)
  moreover have "a = [] \<or> last a = CHR 0x0A" using Cons.prems(1) by (auto split: if_splits)
  ultimately show ?case using Cons.IH by simp
qed

lemma sublist_between_lines:
  assumes "sep \<noteq> []" "CHR 0x0A \<notin> set sep" "\<not> sublist sep t"
  shows "\<not> sublist sep (CHR 0x0A # t @ [CHR 0x0A])"
proof
  assume "sublist sep (CHR 0x0A # t @ [CHR 0x0A])"
  then consider "prefix sep (CHR 0x0A # t @ [CHR 0x0A])" | "sublist sep (t @ [CHR 0x0A])" by (auto simp: sublist_Cons_right)
  then show False
  proof cases
    case 1
    then show False using assms(1,2) by (cases sep) auto
  next
    case 2
    then consider "sublist sep t" | "sublist sep [CHR 0x0A]" | xs ys where "sep = xs @ ys" "suffix xs t" "prefix ys [CHR 0x0A]"
      by (auto simp: sublist_append)
    then show False
    proof cases
      case 2
      then show False using assms(1,2) set_mono_sublist[of sep "[CHR 0x0A]"] by (cases sep) auto
    next
      case 3
      then have "ys = []" using assms(2) by (cases ys) auto
      with 3 assms(3) show False by (auto intro: suffix_imp_sublist)
    qed (use assms(3) in simp)
  qed
qed

lemma markers: "REPORT_BEGIN \<noteq> []" "REPORT_END \<noteq> []" "CHR 0x0A \<notin> set REPORT_BEGIN" "CHR 0x0A \<notin> set REPORT_END"
  by (simp_all add: REPORT_BEGIN_def REPORT_END_def)

text \<open>The output of a driver: lines without a marker, the report, and what \<open>kubectl\<close> adds.\<close>

definition clean_output :: "string \<Rightarrow> string \<Rightarrow> string \<Rightarrow> bool" where
  "clean_output out text rest \<longleftrightarrow>
     (out = [] \<or> last out = CHR 0x0A) \<and> find_sub REPORT_BEGIN out = None \<and> find_sub REPORT_END text = None \<and>
     find_sub REPORT_BEGIN (CHR 0x0A # text @ CHR 0x0A # REPORT_END @ CHR 0x0A # rest) = None"

lemma report_body_printed:
  assumes "clean_output out (json_indented fr 0 (report_json fr a r)) rest"
  shows "report_body (out @ print_report fr a r @ rest) = Some (CHR 0x0A # json_indented fr 0 (report_json fr a r) @ [CHR 0x0A])"
proof -
  let ?t = "json_indented fr 0 (report_json fr a r)"
  let ?b = "(CHR 0x0A # ?t @ [CHR 0x0A]) @ REPORT_END @ CHR 0x0A # rest"
  note c = assms[unfolded clean_output_def find_sub_None]
  have "find_sub REPORT_BEGIN (out @ REPORT_BEGIN @ ?b) = Some (out, ?b)"
    by (rule find_sub_line) (use c markers in auto)
  moreover have "split_first REPORT_BEGIN ?b = ?b" using assms by (simp add: clean_output_def split_first_def)
  moreover have "find_sub REPORT_END ?b = Some (CHR 0x0A # ?t @ [CHR 0x0A], CHR 0x0A # rest)"
    by (rule find_sub_line) (use sublist_between_lines[of REPORT_END ?t] c markers in auto)
  ultimately show ?thesis by (simp add: report_body_def print_report_def split_first_def)
qed

lemma report_read_back:
  assumes "clean_output out (json_indented fr 0 (report_json fr a r)) rest" "json_ok fr pf (report_json fr a r)"
  shows "parse_report pf (out @ print_report fr a r @ rest) = Inr (Some (report_json fr a r))"
    "summarize_report pf (out @ print_report fr a r @ rest) = Some (report_json fr a r)"
proof -
  have "json_loads pf (CHR 0x0A # json_indented fr 0 (report_json fr a r) @ [CHR 0x0A]) = Some (report_json fr a r)"
    using loads_indented[OF assms(2), of "[CHR 0x0A]" "[CHR 0x0A]"] by (simp add: json_ws_def)
  with report_body_printed[OF assms(1)]
  show "parse_report pf (out @ print_report fr a r @ rest) = Inr (Some (report_json fr a r))"
    "summarize_report pf (out @ print_report fr a r @ rest) = Some (report_json fr a r)"
    by (simp_all add: parse_report_def summarize_report_def)
qed

section \<open>Counting\<close>

text \<open>The rows of the report at the untouched or the deleted pods.\<close>

definition violations_of :: "(string \<Rightarrow> bool) \<Rightarrow> run_report \<Rightarrow> nat" where
  "violations_of P rep = sum_list (map pr_violations (filter (\<lambda>row. P (pr_pod row)) (rr_per_pod rep)))"

lemma rows_of_report:
  assumes "analyze dels sent_by base = Some (dr_analysis r)" "wf_dict dels"
  shows "rows_by_pod (report_json fr a r) = Some (map (\<lambda>row. (pr_pod row, pod_row_json row)) (rr_per_pod (dr_analysis r)))"
proof -
  let ?rows = "rr_per_pod (dr_analysis r)"
  have "map pr_pod ?rows = map fst (sort_key fst dels)"
    unfolding analyze_fields(1)[OF assms(1)] by (simp add: comp_def case_prod_beta pod_entry_def Let_def)
  then have "wf_dict (map (\<lambda>row. (pr_pod row, pod_row_json row)) ?rows)" using assms(2) by (simp add: comp_def distinct_map)
  moreover have "map_opt (\<lambda>row. map_option (\<lambda>pod. (pod, row)) (jget row ''pod'' \<bind> as_str)) (map pod_row_json ?rows) =
      Some (map (\<lambda>row. (pr_pod row, pod_row_json row)) ?rows)"
    by (rule map_opt_map) (simp add: pod_row_json_def)
  ultimately show ?thesis by (simp add: rows_by_pod_def report_json_def analysis_json_def dict_of_wf)
qed

lemma int_sum_rows: "int (sum_list (map f xs)) = sum_list (map (\<lambda>x. int (f x)) xs)"
  by (induction xs) auto

lemma sum_of_rows:
  "sum_violations (filter (\<lambda>(pod, _). P pod) (map (\<lambda>row. (pr_pod row, pod_row_json row)) (rr_per_pod rep))) =
     Some (int (violations_of P rep))"
proof -
  have "map_opt (\<lambda>(_, row). jget row ''violations'' \<bind> as_int) (map (\<lambda>row. (pr_pod row, pod_row_json row)) rows) =
      Some (map (\<lambda>row. int (pr_violations row)) rows)" for rows
    by (rule map_opt_map) (simp add: pod_row_json_def)
  then show ?thesis
    by (simp add: sum_violations_def violations_of_def filter_map comp_def int_sum_rows)
qed

lemma violations_split: "violations_of (\<lambda>pod. \<not> P pod) rep + violations_of P rep = sum_list (map pr_violations (rr_per_pod rep))"
proof -
  have "sum_list (map f (filter (\<lambda>x. \<not> Q x) rows)) + sum_list (map f (filter Q rows)) = (sum_list (map f rows) :: nat)" for f Q rows
    by (induction rows) auto
  then show ?thesis by (simp add: violations_of_def)
qed

lemma table_printed:
  assumes "\<forall>p. recover p = map_option (recovery_stats now) (pods p)"
  shows "table_ok (report_json fr a r) (List.map_filter (\<lambda>i. recover (f i)) is)"
proof -
  have "row_ok (recovery_stats now rt)" for rt by (simp add: row_ok_def recovery_stats_def Let_def)
  then have "list_all row_ok (List.map_filter (\<lambda>i. recover (f i)) is)"
    using assms by (induction "is") (auto simp: map_filter_simps split: option.split)
  then show ?thesis by (simp add: table_ok_def report_json_def analysis_json_def)
qed

lemma kill_loop_pods:
  "set (map fst (kill_loop stopped del k pods)) \<subseteq> set pods \<and>
   (distinct pods \<longrightarrow> distinct (map fst (kill_loop stopped del k pods))) \<and>
   length (kill_loop stopped del k pods) \<le> length pods"
proof (induction pods arbitrary: k)
  case (Cons pod pods)
  show ?case using Cons.IH[of "Suc k"] by (cases "del k pod") auto
qed simp

lemma killed_pods:
  assumes "distinct candidates" "killed = killer_run stopped del candidates kills"
  shows "distinct (map fst killed) \<and> length killed \<le> kills \<and> fst ` set killed \<subseteq> set candidates"
  using kill_loop_pods[of stopped del 0 "take kills candidates"] assms set_take_subset[of kills candidates]
  by (auto simp: killer_run_def)

lemma untouched_causal:
  assumes "analyze dels sent_by base = Some rep"
    and "\<forall>(pod, dls) \<in> set dels. wf_clock (get_or base pod []) \<and> (\<forall>r \<in> set dls. wf_clock (dv_vc r))"
  shows "violations_of P rep = 0 \<longleftrightarrow> (\<forall>(pod, dls) \<in> set dels. P pod \<longrightarrow> cbcast_log (vc_get (get_or base pod [])) dls)"
proof -
  have "violations_of P rep = 0 \<longleftrightarrow>
      (\<forall>(pod, dls) \<in> set dels. P pod \<longrightarrow> pr_violations (fst (pod_entry sent_by base pod dls)) = 0)"
    unfolding violations_of_def analyze_fields(1)[OF assms(1)]
    by (fastforce simp: filter_map comp_def case_prod_beta pod_entry_def Let_def)
  moreover have "pr_violations (fst (pod_entry sent_by base pod dls)) = 0 \<longleftrightarrow> cbcast_log (vc_get (get_or base pod [])) dls"
    if "(pod, dls) \<in> set dels" for pod dls
    by (rule entry_violations_iff) (use assms(2) that in auto)
  ultimately show ?thesis by blast
qed

text \<open>C38. Chaos accounts for every violation. When the driver's output is its printed report
  between other lines and the pods answer \<open>/recovery\<close> from their state or not at all, the script reads
  back exactly the driver's report and writes its result; it has deleted at most the requested number
  of pods, each once; the violations it attributes to untouched and to deleted pods add up to those
  of the report; and it attributes none to the untouched pods exactly when each of
  their collected logs satisfies the causal delivery rule.\<close>

theorem chaos_outcome:
  assumes an: "analyze dels sent_by base = Some (dr_analysis r)" "wf_dict dels"
    and wf: "\<forall>(pod, dls) \<in> set dels. wf_clock (get_or base pod []) \<and> (\<forall>r \<in> set dls. wf_clock (dv_vc r))"
    and out: "clean_output out (json_indented fr 0 (report_json fr a r)) rest" "json_ok fr pf (report_json fr a r)"
    and rec: "\<forall>p. recover p = map_option (recovery_stats now) (pods p)"
    and killed: "distinct candidates" "killed = killer_run stopped del candidates (ca_kills c)"
  shows "\<exists>recovery survivors restarted.
    chaos_main pf c (out @ print_report fr a r @ rest) killed recover =
      (Some (chaos_result c killed (report_json fr a r) recovery (int survivors) (int restarted)), Inr 0) \<and>
    distinct (map fst killed) \<and> length killed \<le> ca_kills c \<and> fst ` set killed \<subseteq> set candidates \<and>
    survivors + restarted = rr_violations_total (dr_analysis r) \<and>
    (survivors = 0 \<longleftrightarrow>
      (\<forall>(pod, dls) \<in> set dels. pod \<notin> fst ` set killed \<longrightarrow> cbcast_log (vc_get (get_or base pod [])) dls))"
proof -
  let ?P = "\<lambda>pod. pod \<in> fst ` set killed" and ?rep = "dr_analysis r"
  have "chaos_main pf c (out @ print_report fr a r @ rest) killed recover =
      (Some (chaos_result c killed (report_json fr a r) (List.map_filter (\<lambda>i. recover (''peerchat-'' @ nat_str i)) [0..<ca_peers c])
         (int (violations_of (\<lambda>pod. \<not> ?P pod) ?rep)) (int (violations_of ?P ?rep))), Inr 0)"
    using table_printed[OF rec, of fr a r "\<lambda>i. ''peerchat-'' @ nat_str i"]
    by (simp add: chaos_main_def report_read_back(1)[OF out] rows_of_report[OF an] sum_of_rows Let_def)
  moreover have "violations_of (\<lambda>pod. \<not> ?P pod) ?rep + violations_of ?P ?rep = rr_violations_total ?rep"
    using violations_split[of ?P ?rep] analyze_fields(2)[OF an(1)] by simp
  moreover note killed_pods[OF killed] untouched_causal[OF an(1) wf, of "\<lambda>pod. \<not> ?P pod"]
  ultimately show ?thesis by (intro exI conjI) (assumption | simp)+
qed

text \<open>A run with two pods, one of them deleted.\<close>

lemma find_sub_skip:
  "c \<notin> set x \<Longrightarrow> find_sub (c # sep) (x @ y) = map_option (\<lambda>(a, b). (x @ a, b)) (find_sub (c # sep) y)"
  by (induction x) (auto simp: strip_prefix_def option.map_comp comp_def case_prod_beta option.map_ident split_def)

lemma clean_without_equals:
  assumes "CHR ''='' \<notin> set t"
  shows "clean_output [] t []"
proof -
  have "find_sub REPORT_BEGIN (REPORT_END @ [CHR 0x0A]) = None" by code_simp
  then show ?thesis
    using assms find_sub_skip[of "CHR ''=''" t "tl REPORT_END" "[]"]
      find_sub_skip[of "CHR ''=''" "CHR 0x0A # t @ [CHR 0x0A]" "tl REPORT_BEGIN" "REPORT_END @ [CHR 0x0A]"]
    by (simp add: clean_output_def REPORT_BEGIN_def REPORT_END_def)
qed

text \<open>No string of the value has an equals sign.\<close>

fun no_equals :: "(rat \<Rightarrow> string) \<Rightarrow> json \<Rightarrow> bool" where
  "no_equals fr (JStr s) = (CHR ''='' \<notin> set s)"
| "no_equals fr (JFloat x) = (CHR ''='' \<notin> set (fr x))"
| "no_equals fr (JList xs) = (\<forall>x \<in> set xs. no_equals fr x)"
| "no_equals fr (JObj kvs) = (\<forall>(k, v) \<in> set kvs. CHR ''='' \<notin> set k \<and> no_equals fr v)"
| "no_equals fr _ = True"

lemma hex_digit_not_equals: "d < 16 \<Longrightarrow> hex_digit d \<noteq> CHR ''=''"
  using nth_mem[of d "''0123456789abcdef''"] by (auto simp: hex_digit_def)

lemma quote_equals: "CHR ''='' \<in> set (json_quote s) \<longleftrightarrow> CHR ''='' \<in> set s"
proof -
  have "CHR ''='' \<in> set (json_escape c) \<longleftrightarrow> c = CHR ''=''" for c
  proof -
    have "byte c < 256" by (rule byte_lt)
    then have "hex_digit (byte c div 16) \<noteq> CHR ''=''" "hex_digit (byte c mod 16) \<noteq> CHR ''=''"
      by (simp_all add: hex_digit_not_equals less_mult_imp_div_less)
    then show ?thesis by (auto simp: json_escape_def Let_def special_chars)
  qed
  then show ?thesis by (auto simp: quote_eq)
qed

lemma join_equals: "CHR ''='' \<in> set (join_with sep xs) \<Longrightarrow> CHR ''='' \<in> set sep \<or> (\<exists>x \<in> set xs. CHR ''='' \<in> set x)"
  by (induction sep xs rule: join_with.induct) auto

lemma int_str_equals: "CHR ''='' \<notin> set (int_str i)"
  using int_str_chars[of "CHR ''=''" i] by (auto simp: is_digit_def)

lemma newline_equals: "CHR ''='' \<notin> set (newline_indent d)"
  by (simp add: newline_indent_def)

lemma no_equals_text: "no_equals fr j \<Longrightarrow> CHR ''='' \<notin> set (json_indented fr depth j)"
proof (induction j arbitrary: depth)
  case (JList xs)
  then show ?case by (auto simp: newline_equals dest!: join_equals)
next
  case (JObj kvs)
  then have "CHR ''='' \<notin> set (json_quote k)" "CHR ''='' \<notin> set (json_indented fr (Suc depth) v)" if "(k, v) \<in> set kvs" for k v
    using that by (fastforce simp: quote_equals)+
  then show ?case by (auto simp: newline_equals dest!: join_equals)
qed (auto simp: quote_equals int_str_equals)

definition demo_dels :: "(string, delivery list) dict" where
  "demo_dels = [(''b'', [demo_delivery ''m1'' 1]), (''a'', [demo_delivery ''m1'' 1])]"

definition demo_report :: "run_report \<Rightarrow> driver_report" where
  "demo_report rep = \<lparr>dr_ready_wait = 1000, dr_planned = 1, dr_plan = [(''a'', 1)], dr_send_wall = 1000, dr_throughput = None,
     dr_convergence = \<lparr>cg_converged = True, cg_reason = None, cg_seconds = 1000, cg_counts = [(''a'', 1), (''b'', 1)]\<rparr>,
     dr_analysis = rep, dr_send_results = []\<rparr>"

definition demo_driver_args :: driver_args where
  "demo_driver_args = \<lparr>da_messages = 1, da_peers = 2, da_senders = 1, da_rate = 1000, da_service = ''s'', da_namespace = ''n'',
     da_domain = ''d'', da_stem = ''p'', da_control_port = 80, da_prefix = ''m'', da_ready_timeout = 1, da_converge_timeout = 1,
     da_reset = False\<rparr>"

definition demo_chaos_args :: chaos_args where
  "demo_chaos_args = \<lparr>ca_messages = 1, ca_peers = 2, ca_rate = 1000, ca_kills = 1, ca_kill_interval = 12, ca_kill_delay = 8,
     ca_seed = 1, ca_out = ''o''\<rparr>"

abbreviation demo_json :: "run_report \<Rightarrow> json" where
  "demo_json rep \<equiv> report_json (\<lambda>_. ''1000.0'') demo_driver_args (demo_report rep)"

lemma demo_float: "float_ok (\<lambda>_. ''1000.0'') (\<lambda>_. 1000) 1000"
  by code_simp

lemma demo_text:
  "map_option (\<lambda>rep. json_ok (\<lambda>_. ''1000.0'') (\<lambda>_. 1000) (demo_json rep)) (analyze demo_dels [] []) = Some True"
  by code_simp

lemma demo_rows:
  "map_option (\<lambda>rep. (map (\<lambda>r. (pr_pod r, pr_final_clock r)) (rr_per_pod rep), rr_samples rep, rr_by_kind rep)) (analyze demo_dels [] []) =
     Some ([(''a'', [(''a'', 1)]), (''b'', [(''a'', 1)])], [], [])"
  by code_simp

lemma no_equals_latency: "(\<And>x. CHR ''='' \<notin> set (fr x)) \<Longrightarrow> no_equals fr (latency_json l)"
proof -
  assume "\<And>x. CHR ''='' \<notin> set (fr x)"
  then have "no_equals fr (opt_json JFloat x)" for x by (cases x) (simp_all add: opt_json_def)
  with \<open>\<And>x. CHR ''='' \<notin> set (fr x)\<close> show ?thesis by (cases "lr_mean l") (simp_all add: latency_json_def)
qed

lemma demo_no_equals:
  assumes "analyze demo_dels [] [] = Some rep"
  shows "CHR ''='' \<notin> set (json_indented (\<lambda>_. ''1000.0'') 0 (demo_json rep))"
proof (rule no_equals_text)
  obtain ra rb where r: "rr_per_pod rep = [ra, rb]" "pr_pod ra = ''a''" "pr_pod rb = ''b''" "pr_final_clock ra = [(''a'', 1)]"
    "pr_final_clock rb = [(''a'', 1)]" "rr_samples rep = []" "rr_by_kind rep = []"
    using demo_rows assms by (auto simp: map_eq_Cons_conv)
  show "no_equals (\<lambda>_. ''1000.0'') (demo_json rep)"
    by (simp add: report_json_def demo_report_def demo_driver_args_def analysis_json_def pod_row_json_def no_equals_latency
        convergence_json_def clock_json_def opt_json_def r)
qed

theorem chaos_outcome_witness:
  "\<exists>out recovery survivors restarted. chaos_main (\<lambda>_. 1000) demo_chaos_args out [(''a'', 5)] (\<lambda>_. None) =
      (Some (chaos_result demo_chaos_args [(''a'', 5)] (demo_json (the (analyze demo_dels [] []))) recovery (int survivors) (int restarted)), Inr 0) \<and>
    (survivors = 0 \<longleftrightarrow> cbcast_log (vc_get []) [demo_delivery ''m1'' 1])"
proof -
  obtain rep where rep: "analyze demo_dels [] [] = Some rep" using demo_text by (cases "analyze demo_dels [] []") auto
  have ok: "json_ok (\<lambda>_. ''1000.0'') (\<lambda>_. 1000) (demo_json rep)" using demo_text rep by simp
  have an: "analyze demo_dels [] [] = Some (dr_analysis (demo_report rep))" using rep by (simp add: demo_report_def)
  have wf: "\<forall>(pod, dls) \<in> set demo_dels. wf_clock (get_or [] pod []) \<and> (\<forall>r \<in> set dls. wf_clock (dv_vc r))"
    by (auto simp: demo_dels_def demo_delivery_def wf_clock_def get_or_def)
  have k: "[(''a'', 5)] = killer_run (\<lambda>_. False) (\<lambda>_ _. Some 5) [''a'', ''b''] (ca_kills demo_chaos_args)" by code_simp
  have "wf_dict demo_dels" "distinct [''a'', ''b'']" by (simp_all add: demo_dels_def)
  from chaos_outcome[OF an this(1) wf clean_without_equals[OF demo_no_equals[OF rep]] ok _ this(2) k, of "\<lambda>_. None" 0 "\<lambda>_. None"]
  show ?thesis unfolding rep by (fastforce simp: demo_dels_def get_or_def)
qed

end
