(* ===== verification/Wire_Codec.thy ===== *)
theory Wire_Codec
  imports Broadcast_Node Store_Invariant Json_Text
begin

text \<open>
  The JSON frames of the chat protocol: \<open>Message.to_json\<close> and \<open>from_json\<close> of
  \<open>distribution/message.py\<close>, the classification of a frame in \<open>BroadcastNode._handle_ws\<close>,
  its replies, and what \<open>_send_with_retry\<close> reads from a reply. The value \<open>json.loads\<close> reads from
  a text is an argument (\<open>None\<close> when it raises); the last theorem puts the texts of \<open>Json_Text\<close> in
  between. Fields are read at their declared types; the dataclass does not check them.
\<close>

section \<open>Messages\<close>

definition MESSAGE_FIELDS :: "string list" where
  "MESSAGE_FIELDS = [''content'', ''sender'', ''id'', ''timestamp'', ''signature'', ''ttl'', ''vector_clock'']"

definition to_json :: "message \<Rightarrow> json" where
  "to_json m = JObj
     [(''content'', JStr (msg_content m)), (''sender'', JStr (msg_sender m)), (''id'', JStr (msg_id m)),
      (''timestamp'', JFloat (msg_timestamp m)), (''signature'', JStr (msg_signature m)), (''ttl'', JInt (msg_ttl m)),
      (''vector_clock'', JObj (map (\<lambda>(u, q). (u, JInt q)) (msg_vector_clock m)))]"

text \<open>\<open>Message(**json.loads(raw))\<close>: a missing content or sender and an unknown field are a
  \<open>TypeError\<close> (\<open>None\<close>); \<open>uuid\<close> and \<open>now\<close> are the defaults of the identifier and the
  timestamp.\<close>

definition from_json :: "string \<Rightarrow> time \<Rightarrow> json \<Rightarrow> message option" where
  "from_json uuid now d =
     (case d of
        JObj kvs \<Rightarrow>
          if \<not> list_all (\<lambda>(k, _). k \<in> set MESSAGE_FIELDS) kvs then None
          else do {
            c \<leftarrow> jget d ''content'' \<bind> as_str;
            s \<leftarrow> jget d ''sender'' \<bind> as_str;
            i \<leftarrow> jget_or d ''id'' as_str uuid;
            t \<leftarrow> jget_or d ''timestamp'' as_float now;
            sg \<leftarrow> jget_or d ''signature'' as_str [];
            tl \<leftarrow> jget_or d ''ttl'' as_int 10;
            vc \<leftarrow> jget_or d ''vector_clock''
                   (\<lambda>v. as_obj v \<bind> map_opt (\<lambda>(u, q). map_option (Pair u) (as_int q))) [];
            Some \<lparr>msg_content = c, msg_sender = s, msg_id = i, msg_timestamp = t, msg_signature = sg,
                  msg_ttl = tl, msg_vector_clock = vc\<rparr>
          }
      | _ \<Rightarrow> None)"

section \<open>Frames\<close>

definition frame_sender :: "(string \<times> json) list \<Rightarrow> string" where
  "frame_sender kvs = (case map_of kvs ''sender'' of Some (JStr s) \<Rightarrow> s | _ \<Rightarrow> [])"

text \<open>An exception ends the connection (\<open>Malformed\<close>).\<close>

definition parse_frame :: "string \<Rightarrow> time \<Rightarrow> json option \<Rightarrow> frame" where
  "parse_frame uuid now raw =
     (case raw of
        Some (JObj kvs) \<Rightarrow>
          if map_of kvs ''type'' = Some (JStr ''hello'') then Hello (frame_sender kvs)
          else if map_of kvs ''type'' = Some (JStr ''hello_ack'') then HelloAck (frame_sender kvs)
          else (case from_json uuid now (JObj kvs) of None \<Rightarrow> Malformed | Some m \<Rightarrow> Chat m)
      | _ \<Rightarrow> Malformed)"

fun reply_json :: "reply_frame \<Rightarrow> json" where
  "reply_json (SendHelloAck a) = JObj [(''type'', JStr ''hello_ack''), (''sender'', JStr a)]"
| "reply_json (SendAck mid) = JObj [(''ack'', JStr mid)]"
| "reply_json (SendNack mid) = JObj [(''nack'', JStr mid), (''reason'', JStr ''signature_failed_or_missing_key'')]"

text \<open>\<open>json.loads(ack_raw).get("ack")\<close> as the sender compares it with an identifier.\<close>

definition read_reply :: "json option \<Rightarrow> reply" where
  "read_reply raw =
     (case raw of
        Some (JObj kvs) \<Rightarrow> Reply (case map_of kvs ''ack'' of Some (JStr a) \<Rightarrow> Some a | _ \<Rightarrow> None)
      | _ \<Rightarrow> Raised)"

section \<open>Round trips\<close>

lemma from_to_json [simp]: "from_json uuid now (to_json m) = Some m"
  by (simp add: from_json_def to_json_def MESSAGE_FIELDS_def jget_or_def)

lemma parse_chat [simp]: "parse_frame uuid now (Some (to_json m)) = Chat m"
proof -
  obtain kvs where k: "to_json m = JObj kvs" "map_of kvs ''type'' = None" by (simp add: to_json_def)
  then show ?thesis using from_to_json[of uuid now m] by (simp add: parse_frame_def)
qed

lemma parse_hello_ack: "parse_frame uuid now (Some (reply_json (SendHelloAck a))) = HelloAck a"
  by (simp add: parse_frame_def frame_sender_def)

lemma unknown_field_rejected: "k \<notin> set MESSAGE_FIELDS \<Longrightarrow> (k, v) \<in> set kvs \<Longrightarrow> from_json uuid now (JObj kvs) = None"
  by (auto simp: from_json_def list_all_iff)

lemma to_json_ok:
  assumes "wf_dict (msg_vector_clock m)" "float_ok fr pf (msg_timestamp m)"
  shows "json_ok fr pf (to_json m)"
proof -
  have "fst \<circ> (\<lambda>(u :: string, q). (u, JInt q)) = fst" by auto
  with assms show ?thesis by (auto simp: to_json_def)
qed

lemma reply_json_ok: "json_ok fr pf (reply_json r)"
  by (cases r) simp_all

text \<open>C32. One exchange over the wire. A message written as JSON text by one node is read by another as that
  message; the receiver schedules it exactly when its signature gate accepts it, keeps the
  connection open, and sends one reply, from whose text the sender concludes that this message was
  delivered exactly in that case. The clock is a dictionary, and the float of the timestamp is
  printed so that it reads back.\<close>

theorem wire_exchange:
  assumes "wf_dict (msg_vector_clock m)" "float_ok fr pf (msg_timestamp m)"
  shows "\<exists>reg' n' r. handle_frame env reg n (parse_frame uuid now (json_loads pf (json_dumps fr '', '' '': '' (to_json m)))) =
       (reg', n', [r], if fst (verify_incoming env reg n m) then [Receive m] else [], True) \<and>
     ack_ok (msg_id m) (read_reply (json_loads pf (json_dumps fr '', '' '': '' (reply_json r)))) =
       fst (verify_incoming env reg n m)"
  unfolding loads_dumps(2)[OF to_json_ok[OF assms]] loads_dumps(2)[OF reply_json_ok]
  by (auto simp: handle_frame_def ack_ok_def read_reply_def split: prod.split bool.split)

theorem wire_exchange_witness:
  "let m = \<lparr>msg_content = ''hi'', msg_sender = ''a:1'', msg_id = ''m1'', msg_timestamp = 3 / 2, msg_signature = [],
            msg_ttl = 3, msg_vector_clock = [(''a:1'', 1)]\<rparr>;
       env = \<lparr>env_sec = None, env_hook = None\<rparr>; reg = in_memory_view []; n = new_node ''b'' 2 False
   in \<exists>reg' n' r. handle_frame env reg n
         (parse_frame ''u'' 0 (json_loads (\<lambda>_. 3 / 2) (json_dumps (\<lambda>_. ''1.5'') '', '' '': '' (to_json m)))) =
       (reg', n', [r], [Receive m], True) \<and>
     ack_ok ''m1'' (read_reply (json_loads (\<lambda>_. 3 / 2) (json_dumps (\<lambda>_. ''1.5'') '', '' '': '' (reply_json r))))"
proof -
  have "float_ok (\<lambda>_. ''1.5'') (\<lambda>_. 3 / 2) (3 / 2)"
    by (simp add: float_ok_def scan_number_def scan_sign_def scan_integer_def scan_digits_def scan_frac_def scan_exp_def is_digit_def)
  moreover have "fst (verify_incoming \<lparr>env_sec = None, env_hook = None\<rparr> (in_memory_view []) (new_node ''b'' 2 False) m)" for m
    by (simp add: verify_incoming_def new_node_def)
  ultimately show ?thesis
    unfolding Let_def
    using wire_exchange[where fr = "\<lambda>_. ''1.5''" and pf = "\<lambda>_. 3 / 2" and uuid = "''u''" and now = 0 and
      env = "\<lparr>env_sec = None, env_hook = None\<rparr>" and reg = "in_memory_view []" and n = "new_node ''b'' 2 False" and
      m = "\<lparr>msg_content = ''hi'', msg_sender = ''a:1'', msg_id = ''m1'', msg_timestamp = 3 / 2, msg_signature = [],
            msg_ttl = 3, msg_vector_clock = [(''a:1'', 1)]\<rparr>"] by simp
qed

end
