(* ===== verification/Spec2Isabelle.thy ===== *)
theory Spec2Isabelle
  imports Causal_Properties Membership_Properties History_Properties Discovery_Network Security_Properties
    Runtime_Properties Peer_Network Harness_Chaos Wire_Codec
begin

text \<open>
  PeerChat is a peer-to-peer chat written in Python. Every peer runs a broadcast node that
  delivers messages in causal order; a membership layer decides who takes part; a history
  layer stores messages and recovers missed ones; a security layer signs and encrypts; a
  discovery layer carries membership over the same transport; and a deployment layer runs
  a peer as a pod of a StatefulSet and lets a harness check the delivery logs. This development
  models these layers as functions on explicit state and proves what each promises and how
  they fit together.

  \<^bold>\<open>Conventions.\<close> A class with mutable attributes is a record, a method returns the changed
  record together with its result and what it sends. Python dictionaries are association
  lists with distinct keys in insertion order (\<open>dict_set\<close>, \<open>dict_pop\<close>, \<open>get_or\<close> in
  \<open>PeerChat_Prelude\<close>); integers are \<open>int\<close>; times and floats are rational numbers; strings are
  lists of characters below 256, and \<open>str\<close>, \<open>bytes\<close> and UTF-8 text are not distinguished. Clock
  readings, fresh identifiers, random bytes, DNS answers and replies of peers are arguments. A
  raised exception is \<open>Inl\<close> of an error type or \<open>None\<close>. A lock makes a method one atomic step;
  a background thread or task is the function of one of its rounds, and interleavings are sequences of
  steps. Log output is left out. The loops of the code run over
  finite data, \<open>drain_loop\<close> has a termination proof (the queue shrinks), and only the two
  waiting loops of the harness are partial. Only the JSON decoder has fuel: every call consumes a character, so that
  the length of the text is enough, as its completeness theorem shows.

  \<^bold>\<open>Shared theories.\<close> \<open>PeerChat_Prelude\<close>: dictionaries, addresses, integer texts, and the locales
  \<open>inv_system\<close> (invariants of step functions), \<open>dedup_filter\<close> and \<open>exact_dedup\<close> (duplicate
  filters), interpreted on the broadcast node, the coordinator, the event log, presence and the
  duplicate guard. \<open>Json_Base64\<close>: JSON values, \<open>json.dumps\<close>, base64 and its round trip.
  \<open>Json_Text\<close>: \<open>json.loads\<close> as a decoder of text, which reads every text of a value, with any white space
  between the tokens, and therefore whatever \<open>json.dumps\<close> writes. Where a text is only passed on, the
  decoded value or the decoder is an argument; chat frames, envelopes, encrypted contents and reports are read from text.

  \<^bold>\<open>Causal broadcast\<close> (\<open>src/distribution\<close>). \<open>Vector_Clock\<close>: \<open>message.py\<close> and
  \<open>vector_clock.py\<close>. \<open>Peer_Registry\<close>: the registry interface as a locale and
  \<open>InMemoryRegistry\<close>. \<open>Broadcast_Node\<close>: every handler and task of \<open>broadcast_node.py\<close>
  and the run of one node. \<open>Node_Transport\<close>: retries, queues, the signature gate. \<open>Wire_Codec\<close>: the
  JSON frames and their texts. \<open>Causal_Delivery\<close>: any number of nodes as an inductive step relation. Shown: causal
  and first-in-first-out delivery in every reachable state, exactly-once delivery,
  nothing lost, what a drain releases, the retry queue as a queue, forwarding bounds, and that
  the sender counts a message as delivered exactly when the receiver accepted it.

  \<^bold>\<open>Harness checker\<close> (\<open>src/harness/causal_check.py\<close>). \<open>Causal_Check\<close> and
  \<open>Run_Report\<close>: the per-peer check is equivalent to the causal delivery rule, runs of the node pass it, and
  a clean report means complete, duplicate-free, causal delivery.

  \<^bold>\<open>Membership\<close> (\<open>src/peer_discovery/membership\<close>, \<open>membership_integration\<close>,
  \<open>src/distribution/membership_router.py\<close>). \<open>Membership_Models\<close>, \<open>Event_Log\<close>,
  \<open>Membership_Snapshot\<close>, \<open>Duplicate_Guard\<close>, \<open>Presence\<close>, \<open>Membership_Observers\<close>,
  \<open>Durability\<close>, \<open>Membership_Coordinator\<close>, \<open>Membership_Router\<close>: one theory per module. The abstract
  specification is the life cycle of one member, \<open>next_state\<close>, folded over that member's
  logged events; \<open>Coordinator_Invariant\<close> shows that every operation keeps the snapshot equal to
  it, \<open>Coordinator_Behaviour\<close> and \<open>Membership_Properties\<close> derive the rest: restarts preserve the
  membership, the router follows it, suspicion is accurate, and which situations the code
  leaves members stuck in.

  \<^bold>\<open>History\<close> (\<open>src/message_history/storage\<close>). \<open>Message_Store\<close>: the store over its log,
  snapshot and index files; a file is the list of its lines with their lengths, replacing a file is
  atomic. \<open>Store_Invariant\<close>: indexes describe the readable messages through saving,
  repair, compaction and rebuilding. \<open>Recovery\<close>: streaming, fan-out and wiring, with the
  locale \<open>message_archive\<close> as the contract recovery needs of a store, interpreted on it.
  \<open>History_Properties\<close>: saving, reopening, crash safety of compaction, chunking and
  completeness of recovery.

  \<^bold>\<open>Discovery\<close> (\<open>src/peer_discovery/network\<close>, \<open>membership_integration/service.py\<close>).
  \<open>Discovery\<close> and \<open>Discovery_Properties\<close>: envelopes, gossip, heartbeats, bootstrap and the tick
  scheduler; a joiner learns the seed's membership, gossip does not echo, the duplicate
  memory is an LRU of ten thousand entries. \<open>Discovery_Network\<close>: any number of nodes exchanging envelopes, with
  a bootstrap split where its thread waits; every member anywhere has asked to join, no handler fails, and
  the keys of gossiped events are not unique.

  \<^bold>\<open>Security\<close> (\<open>src/security\<close>). \<open>Security\<close> takes the cryptographic primitives as a record with
  the laws \<open>crypto_laws\<close>; \<open>Security_Properties\<close>: what a signature covers, that a sealed
  message opens at its receiver through the broadcast node's own handlers, that relayed
  copies are rejected, and that the key survives a restart.

  \<^bold>\<open>Deployment\<close> (\<open>src/deploy\<close>). \<open>Pod_Registry\<close>: identities and the DNS registry, another
  interpretation of \<open>peer_registry\<close>. \<open>Peer_Runtime\<close>: the pod process with its probe loop, delivery log,
  restart and control requests. \<open>Runtime_Properties\<close>: the log of a pod passes the harness
  checker whatever the resets, readiness opens only when recovery is quiet and opens within
  thirty seconds, and a restarted pod drops what it stored.

  \<^bold>\<open>Chat service and application\<close> (\<open>src/ui\<close>, \<open>src/main.py\<close>). \<open>Chat_Service\<close> composes discovery,
  history and the registry on one peer; \<open>Chat_Properties\<close>: its lists stay free of duplicates and the registry follows
  accepted joins and confirmed leaves. \<open>Peer_App\<close>: the peer as \<open>main\<close> wires it, with the node's handlers
  calling the chat service as a callback that may raise, and the routes of the web application.
  \<open>App_Properties\<close>: the whole peer refines the broadcast node whether or not templates render; its screen is
  a subsequence of the delivery log without repetitions, all of it while templates render, and exactly what is
  on it is stored; when the callback raises in the node's loop, a batch loses all but its first message and
  the drain task ends; the page's state agrees with the service.
  \<open>Peer_Network\<close>: several such peers on one network simulate the network of \<open>Causal_Delivery\<close>, so that
  any two screens order what they both show by cause and effect.

  \<^bold>\<open>Harness driver\<close> (\<open>src/harness/driver.py\<close>, \<open>chaos.py\<close>, \<open>summarize.py\<close>). \<open>Harness_Driver\<close> and
  \<open>Harness_Properties\<close>: the two waiting loops, which end only when the clock says so, are
  \<open>partial_function\<close>s and are shown to return when the clock advances by what they sleep; the exit code is the
  verdict on the logs of the pods that answered, read back from the control servers of
  \<open>Peer_Runtime\<close>. \<open>Harness_Chaos\<close>: the report as printed text, which the chaos script and the report
  printer find in the driver's output and read back; the chaos script accounts for every violation.

  \<^bold>\<open>Not modelled.\<close> Sockets, WebSocket frames, the HTTP server, threads and timers as such:
  their effects are the arguments and results of the steps. The cryptographic library, the key
  ring, how a float is printed and rounded, the templates and DNS are parameters. Operating-system errors of file
  operations. \<open>kubectl\<close> and console output, so the table of \<open>summarize.py\<close>; \<open>logging_setup\<close> and \<open>cli\<close> of the
  discovery package, and the demos.

  \<^bold>\<open>Plan.\<close> What is left is one network of peers in which chat and discovery share the transport, so that
  the registries and with them the forwarding of \<open>Peer_App\<close> follow from the joins of \<open>Discovery_Network\<close>.
\<close>

end
